(* ===== verification/Prelude.thy ===== *)
theory Prelude
  imports Main "HOL-Library.Sublist"
begin

text \<open>
  Shared vocabulary of the development: the exceptions of the program as a datatype, the
  result type of fallible pure code, the combinators for code that also changes the outside
  world (a state passed along whether or not an exception is raised, as in Python, where the
  effects of the statements before a \<open>raise\<close> stay), a locale for relations every step of
  such code respects, and the Python string operations the components use.
\<close>

section \<open>Collections of facts\<close>

named_theorems frames \<open>what an operation leaves unchanged\<close>
named_theorems counts \<open>how an operation counts its errors\<close>

section \<open>Exceptions and results\<close>

text \<open>
  The exception classes of consoleme/exceptions/exceptions.py that the modelled code raises
  or catches by name, botocore's \<open>ClientError\<close> with its error code, and the built-in
  exceptions the modelled code can run into.
\<close>

datatype py_error =
    InvalidRequestParameter string
  | Unauthorized string
  | NoMatchingRequest string
  | UnsupportedChangeType string
  | ResourceNotFound string
  | MissingConfigurationValue string
  | MustBeFte string
  | ClientError string string
  | AttributeError string
  | KeyError string
  | TypeError string
  | IndexError string
  | PyException string

text \<open>The text \<open>str(e)\<close> of an exception.\<close>

fun err_str :: "py_error \<Rightarrow> string" where
  "err_str (InvalidRequestParameter m) = m"
| "err_str (Unauthorized m) = m"
| "err_str (NoMatchingRequest m) = m"
| "err_str (UnsupportedChangeType m) = m"
| "err_str (ResourceNotFound m) = m"
| "err_str (MissingConfigurationValue m) = m"
| "err_str (MustBeFte m) = m"
| "err_str (ClientError c m) = m"
| "err_str (AttributeError m) = m"
| "err_str (KeyError m) = m"
| "err_str (TypeError m) = m"
| "err_str (IndexError m) = m"
| "err_str (PyException m) = m"

type_synonym 'a res = "py_error + 'a"

definition bindE :: "'a res \<Rightarrow> ('a \<Rightarrow> 'b res) \<Rightarrow> 'b res" where
  "bindE m f = (case m of Inl e \<Rightarrow> Inl e | Inr a \<Rightarrow> f a)"

lemma bindE_simps [simp]:
  "bindE (Inl e) f = Inl e"
  "bindE (Inr a) f = f a"
  by (simp_all add: bindE_def)

lemma bindE_eq_Inr: "bindE m f = Inr b \<longleftrightarrow> (\<exists>a. m = Inr a \<and> f a = Inr b)"
  by (cases m) simp_all

lemma bindE_eq_Inl: "bindE m f = Inl e \<longleftrightarrow> m = Inl e \<or> (\<exists>a. m = Inr a \<and> f a = Inl e)"
  by (cases m) auto

text \<open>A loop whose body can raise: \<open>for x in xs: body\<close> with no result.\<close>

fun forE :: "('a \<Rightarrow> unit res) \<Rightarrow> 'a list \<Rightarrow> unit res" where
  "forE f [] = Inr ()"
| "forE f (x # xs) = bindE (f x) (\<lambda>_. forE f xs)"

lemma forE_eq_Inr: "forE f xs = Inr u \<longleftrightarrow> (\<forall>x \<in> set xs. f x = Inr ())"
  by (induction xs) (auto simp: bindE_eq_Inr)

text \<open>A list comprehension whose body can raise.\<close>

fun mapE :: "('a \<Rightarrow> 'b res) \<Rightarrow> 'a list \<Rightarrow> 'b list res" where
  "mapE f [] = Inr []"
| "mapE f (x # xs) = bindE (f x) (\<lambda>y. bindE (mapE f xs) (\<lambda>ys. Inr (y # ys)))"

lemma mapE_length: "mapE f xs = Inr ys \<Longrightarrow> length ys = length xs"
  by (induction xs arbitrary: ys) (auto simp: bindE_eq_Inr)

lemma mapE_list_all2: "mapE f xs = Inr ys \<longleftrightarrow> list_all2 (\<lambda>x y. f x = Inr y) xs ys"
proof (induction xs arbitrary: ys)
  case Nil
  then show ?case by auto
next
  case (Cons x xs)
  then show ?case by (cases ys) (auto simp: bindE_eq_Inr)
qed

section \<open>Code with effects\<close>

text \<open>
  A computation takes the world and returns a result or an exception together with the world
  it leaves behind.
\<close>

type_synonym ('w, 'a) io = "'w \<Rightarrow> 'a res \<times> 'w"

definition retW :: "'a \<Rightarrow> ('w, 'a) io" where
  "retW a = (\<lambda>w. (Inr a, w))"

definition failW :: "py_error \<Rightarrow> ('w, 'a) io" where
  "failW e = (\<lambda>w. (Inl e, w))"

definition liftW :: "'a res \<Rightarrow> ('w, 'a) io" where
  "liftW r = (\<lambda>w. (r, w))"

definition stepW :: "('w \<Rightarrow> 'w) \<Rightarrow> ('w, unit) io" where
  "stepW f = (\<lambda>w. (Inr (), f w))"

definition readW :: "('w \<Rightarrow> 'a res) \<Rightarrow> ('w, 'a) io" where
  "readW f = (\<lambda>w. (f w, w))"

definition bindW :: "('w, 'a) io \<Rightarrow> ('a \<Rightarrow> ('w, 'b) io) \<Rightarrow> ('w, 'b) io" where
  "bindW m f = (\<lambda>w. case m w of (Inl e, w') \<Rightarrow> (Inl e, w') | (Inr a, w') \<Rightarrow> f a w')"

lemmas io_defs = retW_def failW_def liftW_def stepW_def readW_def

lemma bindW_ret [simp]: "bindW (retW a) f = f a"
  by (simp add: bindW_def retW_def)

lemma bindW_fail [simp]: "bindW (failW e) f = failW e"
  by (simp add: bindW_def failW_def)

lemma bindW_lift: "bindW (liftW r) f = (case r of Inl e \<Rightarrow> failW e | Inr a \<Rightarrow> f a)"
  by (cases r) (simp_all add: bindW_def liftW_def failW_def)

lemma liftW_simps [simp]: "liftW (Inr a) = retW a" "liftW (Inl e) = failW e"
  by (simp_all add: io_defs)

lemma run_io [simp]:
  "retW a w = (Inr a, w)" "failW e w = (Inl e, w)" "stepW g w = (Inr (), g w)"
  "liftW r w = (r, w)" "readW h w = (h w, w)"
  by (simp_all add: io_defs)

lemma bindW_eq_Inr:
  "bindW m f w = (Inr b, w'') \<longleftrightarrow> (\<exists>a w'. m w = (Inr a, w') \<and> f a w' = (Inr b, w''))"
  by (cases "m w") (auto simp: bindW_def split: sum.splits)

lemma bindW_eq_Inl:
  "bindW m f w = (Inl e, w'') \<longleftrightarrow>
     m w = (Inl e, w'') \<or> (\<exists>a w'. m w = (Inr a, w') \<and> f a w' = (Inl e, w''))"
  by (cases "m w") (auto simp: bindW_def split: sum.splits)

lemma bindW_run: "bindW m f w =
  (case fst (m w) of Inl e \<Rightarrow> (Inl e, snd (m w)) | Inr a \<Rightarrow> f a (snd (m w)))"
  by (cases "m w") (auto simp: bindW_def split: sum.splits)

text \<open>
  A relation between the world before and after that holds of every computation built with
  these combinators from steps that respect it: "the call log only grows", "the request
  table is not written", and so on. Each instance is an interpretation.
\<close>

locale step_relation =
  fixes R :: "'w \<Rightarrow> 'w \<Rightarrow> bool"
  assumes step_refl: "R w w"
    and step_trans: "R w1 w2 \<Longrightarrow> R w2 w3 \<Longrightarrow> R w1 w3"
begin

definition keeps :: "('w, 'a) io \<Rightarrow> bool" where
  "keeps m \<longleftrightarrow> (\<forall>w. R w (snd (m w)))"

lemma keeps_ret: "keeps (retW a)"
  by (simp add: keeps_def step_refl)

lemma keeps_fail: "keeps (failW e)"
  by (simp add: keeps_def step_refl)

lemma keeps_lift: "keeps (liftW r)"
  by (simp add: keeps_def step_refl)

lemma keeps_read: "keeps (readW f)"
  by (simp add: keeps_def step_refl)

lemma keeps_step: "(\<And>w. R w (f w)) \<Longrightarrow> keeps (stepW f)"
  by (simp add: keeps_def)

lemma keeps_bind:
  assumes "keeps m" and "\<And>a. keeps (f a)"
  shows "keeps (bindW m f)"
  unfolding keeps_def
proof
  fix w
  obtain r w1 where m: "m w = (r, w1)" by (cases "m w")
  have 1: "R w w1" using assms(1) m by (metis keeps_def snd_conv)
  show "R w (snd (bindW m f w))"
  proof (cases r)
    case (Inl e)
    with m 1 show ?thesis by (simp add: bindW_def)
  next
    case (Inr a)
    have "R w1 (snd (f a w1))" using assms(2) by (simp add: keeps_def)
    with Inr m 1 show ?thesis by (auto simp: bindW_def intro: step_trans)
  qed
qed

lemma keepsD: "keeps m \<Longrightarrow> m w = (r, w') \<Longrightarrow> R w w'"
  by (metis keeps_def snd_conv)

lemmas keeps_intros =
  keeps_ret keeps_fail keeps_lift keeps_read keeps_step keeps_bind

end

section \<open>Python strings and truth\<close>

text \<open>\<open>s.split(c)\<close> for a one-character separator: never empty.\<close>

fun py_split :: "char \<Rightarrow> string \<Rightarrow> string list" where
  "py_split c [] = [[]]"
| "py_split c (x # xs) =
     (if x = c then [] # py_split c xs
      else (case py_split c xs of [] \<Rightarrow> [[x]] | p # ps \<Rightarrow> (x # p) # ps))"

lemma py_split_nonempty [simp]: "py_split c s \<noteq> []"
  by (induction c s rule: py_split.induct) (auto split: list.splits)

text \<open>\<open>s.split(c)[-1]\<close>, which exists for every \<open>s\<close>.\<close>

definition last_part :: "char \<Rightarrow> string \<Rightarrow> string" where
  "last_part c s = last (py_split c s)"

lemma py_split_pieces_free: "p \<in> set (py_split c s) \<Longrightarrow> c \<notin> set p"
proof (induction c s arbitrary: p rule: py_split.induct)
  case (1 c)
  then show ?case by simp
next
  case (2 c x xs)
  then show ?case
    by (cases "py_split c xs") (auto split: if_splits)
qed

lemma last_part_free: "c \<notin> set (last_part c s)"
  unfolding last_part_def by (rule py_split_pieces_free [of _ _ s]) simp

text \<open>Joining the pieces with the separator gives the string back.\<close>

fun join_with :: "char \<Rightarrow> string list \<Rightarrow> string" where
  "join_with c [] = []"
| "join_with c [p] = p"
| "join_with c (p # q # ps) = p @ c # join_with c (q # ps)"

lemma join_split: "join_with c (py_split c s) = s"
proof (induction c s rule: py_split.induct)
  case (1 c)
  then show ?case by simp
next
  case (2 c x xs)
  obtain p ps where ps: "py_split c xs = p # ps"
    using py_split_nonempty [of c xs] by (cases "py_split c xs") auto
  show ?case
  proof (cases "x = c")
    case True
    then show ?thesis using "2" ps by simp
  next
    case False
    then show ?thesis using "2" ps by (cases ps) simp_all
  qed
qed

text \<open>\<open>s.startswith(p)\<close> and \<open>c in s\<close> for a character.\<close>

abbreviation starts_with :: "string \<Rightarrow> string \<Rightarrow> bool" where
  "starts_with s p \<equiv> prefix p s"

abbreviation has_char :: "char \<Rightarrow> string \<Rightarrow> bool" where
  "has_char c s \<equiv> c \<in> set s"

text \<open>The truth value of an optional string: \<open>None\<close> and the empty string are false.\<close>

definition truthy_str :: "string option \<Rightarrow> bool" where
  "truthy_str s \<longleftrightarrow> s \<noteq> None \<and> s \<noteq> Some []"

lemma truthy_str_simps [simp]:
  "\<not> truthy_str None" "truthy_str (Some s) \<longleftrightarrow> s \<noteq> []"
  by (simp_all add: truthy_str_def)

definition str_or :: "string option \<Rightarrow> string \<Rightarrow> string" where
  "str_or s d = (case s of None \<Rightarrow> d | Some v \<Rightarrow> v)"

lemma str_or_simps [simp]: "str_or None d = d" "str_or (Some v) d = v"
  by (simp_all add: str_or_def)

end
