(* ===== verification/Json.thy ===== *)
theory Json
  imports Prelude "HOL-Library.AList"
begin

text \<open>
  JSON values as the Python program holds them: policy documents, role details and the parsed
  configuration are nested dictionaries and lists of any shape (\<open>Dict[str, Any]\<close>).
  Dictionaries keep their insertion order, so an object is an association list; Python's
  \<open>==\<close> on them ignores that order. The operations are Python's, with the exceptions
  they raise on a value of the wrong kind.
\<close>

section \<open>Values\<close>

datatype json =
    JNull
  | JBool bool
  | JInt int
  | JStr string
  | JList "json list"
  | JObj "(string \<times> json) list"

text \<open>The truth value Python gives a value in an \<open>if\<close>.\<close>

fun truthy :: "json \<Rightarrow> bool" where
  "truthy JNull = False"
| "truthy (JBool b) = b"
| "truthy (JInt i) = (i \<noteq> 0)"
| "truthy (JStr s) = (s \<noteq> [])"
| "truthy (JList xs) = (xs \<noteq> [])"
| "truthy (JObj kvs) = (kvs \<noteq> [])"

section \<open>Equality\<close>

text \<open>
  Python's \<open>==\<close>: dictionaries are equal when they have the same keys with equal values,
  whatever the order; a boolean equals the integer it counts as.
\<close>

lemma json_in_list_size [termination_simp]: "x \<in> set xs \<Longrightarrow> size x < Suc (size_list size xs)"
  by (induction xs) auto

lemma json_in_obj_size [termination_simp]:
  "(k, v) \<in> set kvs \<Longrightarrow> size v < Suc (size_list (size_prod (\<lambda>x. 0) size) kvs)"
  by (induction kvs) auto

fun json_eq :: "json \<Rightarrow> json \<Rightarrow> bool" where
  "json_eq JNull JNull = True"
| "json_eq (JBool b) (JBool c) = (b = c)"
| "json_eq (JBool b) (JInt i) = (i = of_bool b)"
| "json_eq (JInt i) (JBool b) = (i = of_bool b)"
| "json_eq (JInt i) (JInt j) = (i = j)"
| "json_eq (JStr s) (JStr t) = (s = t)"
| "json_eq (JList []) (JList []) = True"
| "json_eq (JList (x # xs)) (JList (y # ys)) = (json_eq x y \<and> json_eq (JList xs) (JList ys))"
| "json_eq (JObj xs) (JObj ys) =
     (length xs = length ys \<and>
      (\<forall>(k, v) \<in> set xs. case map_of ys k of None \<Rightarrow> False | Some w \<Rightarrow> json_eq v w))"
| "json_eq _ _ = False"

text \<open>Well-formed values: no dictionary has a key twice, at any depth.\<close>

fun json_wf :: "json \<Rightarrow> bool" where
  "json_wf (JList xs) = (\<forall>x \<in> set xs. json_wf x)"
| "json_wf (JObj kvs) = (distinct (map fst kvs) \<and> (\<forall>(k, v) \<in> set kvs. json_wf v))"
| "json_wf _ = True"

lemma json_eq_refl: "json_wf j \<Longrightarrow> json_eq j j"
proof (induction j)
  case (JList xs)
  then show ?case by (induction xs) auto
next
  case (JObj kvs)
  show ?case
  proof (simp, intro ballI)
    fix p assume p: "p \<in> set kvs"
    obtain k v where kv: "p = (k, v)" by (cases p)
    have "map_of kvs k = Some v"
      using JObj.prems p kv by (auto intro: map_of_is_SomeI)
    moreover have "json_eq v v"
    proof (rule JObj.IH [of p v])
      show "p \<in> set kvs" by (rule p)
      show "v \<in> Basic_BNFs.snds p" using kv by simp
      show "json_wf v" using JObj.prems p kv by auto
    qed
    ultimately show "case p of (k, v) \<Rightarrow>
        (case map_of kvs k of None \<Rightarrow> False | Some w \<Rightarrow> json_eq v w)"
      using kv by simp
  qed
qed simp_all

section \<open>Access\<close>

text \<open>\<open>d.get(k)\<close>: \<open>None\<close> for a missing key; only dictionaries have the method.\<close>

fun jget :: "string \<Rightarrow> json \<Rightarrow> json res" where
  "jget k (JObj kvs) = Inr (case map_of kvs k of None \<Rightarrow> JNull | Some v \<Rightarrow> v)"
| "jget k _ = Inl (AttributeError ''get'')"

text \<open>\<open>d.get(k, default)\<close>.\<close>

fun jget_or :: "string \<Rightarrow> json \<Rightarrow> json \<Rightarrow> json res" where
  "jget_or k d (JObj kvs) = Inr (case map_of kvs k of None \<Rightarrow> d | Some v \<Rightarrow> v)"
| "jget_or k d _ = Inl (AttributeError ''get'')"

text \<open>\<open>d[k]\<close> for a string \<open>k\<close>.\<close>

fun jindex :: "string \<Rightarrow> json \<Rightarrow> json res" where
  "jindex k (JObj kvs) = (case map_of kvs k of None \<Rightarrow> Inl (KeyError k) | Some v \<Rightarrow> Inr v)"
| "jindex k _ = Inl (TypeError ''subscript'')"

text \<open>\<open>d[k] = v\<close>.\<close>

fun jset :: "string \<Rightarrow> json \<Rightarrow> json \<Rightarrow> json res" where
  "jset k v (JObj kvs) = Inr (JObj (AList.update k v kvs))"
| "jset k v _ = Inl (TypeError ''item assignment'')"

lemma jget_jset: "jset k v d = Inr d' \<Longrightarrow> jget k' d' = (if k' = k then Inr v else jget k' d)"
  by (cases d) (auto simp: update_conv')

text \<open>The elements a \<open>for\<close> loop over the value sees.\<close>

fun jiter :: "json \<Rightarrow> json list res" where
  "jiter (JList xs) = Inr xs"
| "jiter (JObj kvs) = Inr (map (JStr \<circ> fst) kvs)"
| "jiter (JStr s) = Inr (map (\<lambda>c. JStr [c]) s)"
| "jiter _ = Inl (TypeError ''not iterable'')"

text \<open>\<open>needle in hay\<close> for strings: a substring test.\<close>

definition substring :: "string \<Rightarrow> string \<Rightarrow> bool" where
  "substring s t = list_ex (prefix s) (suffixes t)"

lemma substring_sublist: "substring s t \<longleftrightarrow> sublist s t"
  by (auto simp: substring_def list_ex_iff sublist_altdef')

lemma substring_single: "substring [c] t \<longleftrightarrow> c \<in> set t"
  unfolding substring_sublist sublist_def
  by (metis append_Cons append_Nil in_set_conv_decomp)

text \<open>\<open>x in hay\<close> for a string \<open>x\<close>: a member of a list, a key of a dictionary, a substring.\<close>

fun str_in :: "string \<Rightarrow> json \<Rightarrow> bool res" where
  "str_in x (JList ys) = Inr (\<exists>y \<in> set ys. y = JStr x)"
| "str_in x (JObj kvs) = Inr (x \<in> fst ` set kvs)"
| "str_in x (JStr t) = Inr (substring x t)"
| "str_in x _ = Inl (TypeError ''argument is not iterable'')"

text \<open>\<open>v if isinstance(v, list) else [v]\<close>.\<close>

fun as_list :: "json \<Rightarrow> json list" where
  "as_list (JList xs) = xs"
| "as_list v = [v]"

fun the_str :: "json \<Rightarrow> string res" where
  "the_str (JStr s) = Inr s"
| "the_str _ = Inl (AttributeError ''not a string'')"

text \<open>Every string that occurs in a value, keys included, at any depth.\<close>

fun json_strings :: "json \<Rightarrow> string list" where
  "json_strings (JStr s) = [s]"
| "json_strings (JList xs) = concat (map json_strings xs)"
| "json_strings (JObj kvs) = concat (map (\<lambda>(k, v). k # json_strings v) kvs)"
| "json_strings _ = []"

end
