(* ===== verification/Models.thy ===== *)
theory Models
  imports Json
begin

text \<open>
  The data of consoleme/models.py that the policy request code works on. An enumeration is a
  datatype with the constructors in the order of the class, a pydantic model is a record with
  its fields. The subclasses of \<open>ChangeModel\<close> are one record: \<open>ch_type\<close> says which class
  the object belongs to and so which of the fields below the common ones are meant; an
  optional field is an option. Display data filled in by plugins (\<open>UserModel\<close>, photo
  and detail URLs) is left out.
\<close>

section \<open>Enumerations\<close>

datatype action = Attach | Detach

datatype request_status = Pending | Cancelled_request | Approved | Rejected

datatype status = Applied | Not_applied | Cancelled

datatype tag_action = Tag_create | Tag_update | Tag_delete

datatype command =
    Add_comment
  | Approve_request
  | Reject_request
  | Cancel_request
  | Apply_change
  | Update_change
  | Cancel_change
  | Move_back_to_pending

text \<open>\<open>Enum.value\<close>, which error messages show.\<close>

fun request_status_value :: "request_status \<Rightarrow> string" where
  "request_status_value Pending = ''pending''"
| "request_status_value Cancelled_request = ''cancelled''"
| "request_status_value Approved = ''approved''"
| "request_status_value Rejected = ''rejected''"

fun command_value :: "command \<Rightarrow> string" where
  "command_value Add_comment = ''add_comment''"
| "command_value Approve_request = ''approve_request''"
| "command_value Reject_request = ''reject_request''"
| "command_value Cancel_request = ''cancel_request''"
| "command_value Apply_change = ''apply_change''"
| "command_value Update_change = ''update_change''"
| "command_value Cancel_change = ''cancel_change''"
| "command_value Move_back_to_pending = ''move_back_to_pending''"

text \<open>
  \<open>ChangeModel.change_type\<close> is a string; the code compares it with these values and treats
  any other as unknown.
\<close>

datatype change_type =
    Inline_policy
  | Managed_policy
  | Managed_policy_resource
  | Resource_policy
  | Sts_resource_policy
  | Assume_role_policy
  | Resource_tag
  | Permissions_boundary
  | Generic_file
  | Other_change string

fun change_type_value :: "change_type \<Rightarrow> string" where
  "change_type_value Inline_policy = ''inline_policy''"
| "change_type_value Managed_policy = ''managed_policy''"
| "change_type_value Managed_policy_resource = ''managed_policy_resource''"
| "change_type_value Resource_policy = ''resource_policy''"
| "change_type_value Sts_resource_policy = ''sts_resource_policy''"
| "change_type_value Assume_role_policy = ''assume_role_policy''"
| "change_type_value Resource_tag = ''resource_tag''"
| "change_type_value Permissions_boundary = ''permissions_boundary''"
| "change_type_value Generic_file = ''generic_file''"
| "change_type_value (Other_change s) = s"

section \<open>Principals, policies, resources\<close>

text \<open>
  \<open>Aws_resource arn\<close>, or a template in a repository with the repository's name, the path of
  the template and its URL.
\<close>

datatype principal =
    Aws_resource string
  | Honeybee_template string string string

text \<open>Reading \<open>principal_arn\<close> of a template principal raises: it has no such field.\<close>

fun principal_arn :: "principal \<Rightarrow> string res" where
  "principal_arn (Aws_resource arn) = Inr arn"
| "principal_arn (Honeybee_template r i u) = Inl (AttributeError ''principal_arn'')"

record policy_model =
  pm_version :: "string option"
  pm_document :: json
  pm_sha256 :: "string option"

record resource_model =
  rm_arn :: string
  rm_name :: string
  rm_account_id :: "string option"
  rm_region :: "string option"
  rm_account_name :: "string option"
  rm_actions :: "string list option"
  rm_resource_type :: string

section \<open>Changes and requests\<close>

record change =
  ch_principal :: principal
  ch_type :: change_type
  ch_resources :: "resource_model list"
  ch_status :: status
  ch_id :: "string option"
  ch_autogenerated :: bool
  ch_updated_by :: "string option"
  ch_expiration_date :: "int option"
  ch_policy_name :: "string option"
  ch_new :: bool
  ch_action :: "action option"
  ch_policy :: "policy_model option"
  ch_old_policy :: "policy_model option"
  ch_arn :: string
  ch_source_change_id :: "string option"
  ch_supported :: "bool option"
  ch_original_key :: "string option"
  ch_key :: "string option"
  ch_original_value :: "string option"
  ch_value :: "string option"
  ch_tag_action :: "tag_action option"

record comment =
  co_id :: string
  co_timestamp :: int
  co_user_email :: string
  co_text :: string

record extended_request =
  er_id :: string
  er_request_url :: "string option"
  er_principal :: principal
  er_timestamp :: int
  er_justification :: "string option"
  er_requester_email :: string
  er_request_status :: request_status
  er_cross_account :: bool
  er_arn_url :: string
  er_admin_auto_approve :: bool
  er_changes :: "change list"
  er_reviewer :: "string option"
  er_comments :: "comment list"

record request_creation =
  rc_changes :: "change list"
  rc_justification :: "string option"
  rc_dry_run :: bool
  rc_admin_auto_approve :: bool

text \<open>The subclasses of \<open>RequestModificationBaseModel\<close>: one constructor per command.\<close>

datatype modification =
    Comment_modification string
  | Update_change_modification json string
  | Apply_change_modification "json option" string
  | Cancel_change_modification string
  | Cancel_request_modification
  | Reject_request_modification
  | Approve_request_modification
  | Move_to_pending_modification

fun command_of :: "modification \<Rightarrow> command" where
  "command_of (Comment_modification t) = Add_comment"
| "command_of (Update_change_modification d c) = Update_change"
| "command_of (Apply_change_modification d c) = Apply_change"
| "command_of (Cancel_change_modification c) = Cancel_change"
| "command_of Cancel_request_modification = Cancel_request"
| "command_of Reject_request_modification = Reject_request"
| "command_of Approve_request_modification = Approve_request"
| "command_of Move_to_pending_modification = Move_back_to_pending"

section \<open>Responses\<close>

datatype result_status = Success | Error

record action_result =
  ar_status :: result_status
  ar_message :: string
  ar_visible :: bool

record response =
  rs_errors :: nat
  rs_action_results :: "action_result list"

definition empty_response :: response where
  "empty_response = \<lparr>rs_errors = 0, rs_action_results = []\<rparr>"

definition add_success :: "string \<Rightarrow> response \<Rightarrow> response" where
  "add_success m r = r\<lparr>rs_action_results := rs_action_results r @
     [\<lparr>ar_status = Success, ar_message = m, ar_visible = True\<rparr>]\<rparr>"

definition add_hidden_success :: "string \<Rightarrow> response \<Rightarrow> response" where
  "add_hidden_success m r = r\<lparr>rs_action_results := rs_action_results r @
     [\<lparr>ar_status = Success, ar_message = m, ar_visible = False\<rparr>]\<rparr>"

text \<open>\<open>response.errors += 1\<close> and the error result that always comes with it.\<close>

definition add_error :: "string \<Rightarrow> response \<Rightarrow> response" where
  "add_error m r = r\<lparr>rs_errors := Suc (rs_errors r),
     rs_action_results := rs_action_results r @
       [\<lparr>ar_status = Error, ar_message = m, ar_visible = True\<rparr>]\<rparr>"

text \<open>The invariant of a response: the error count is the number of error results.\<close>

definition response_ok :: "response \<Rightarrow> bool" where
  "response_ok r \<longleftrightarrow>
     rs_errors r = length (filter (\<lambda>a. ar_status a = Error) (rs_action_results r))"

lemma response_ok_empty [simp]: "response_ok empty_response"
  by (simp add: response_ok_def empty_response_def)

lemma response_ok_add [simp]:
  "response_ok (add_success m r) = response_ok r"
  "response_ok (add_hidden_success m r) = response_ok r"
  "response_ok (add_error m r) = response_ok r"
  by (simp_all add: response_ok_def add_success_def add_hidden_success_def add_error_def)

lemma rs_errors_add [simp]:
  "rs_errors (add_success m r) = rs_errors r"
  "rs_errors (add_hidden_success m r) = rs_errors r"
  "rs_errors (add_error m r) = Suc (rs_errors r)"
  by (simp_all add: add_success_def add_hidden_success_def add_error_def)

lemma rs_errors_empty [simp]: "rs_errors empty_response = 0"
  by (simp add: empty_response_def)

section \<open>Small helpers over changes\<close>

text \<open>\<open>change.policy.policy_document\<close>: raises when the change has no policy.\<close>

definition policy_document :: "change \<Rightarrow> json res" where
  "policy_document c = (case ch_policy c of
      None \<Rightarrow> Inl (AttributeError ''policy_document'')
    | Some p \<Rightarrow> Inr (pm_document p))"

text \<open>\<open>change.policy.policy_document = doc\<close>.\<close>

definition set_policy_document :: "json \<Rightarrow> change \<Rightarrow> change res" where
  "set_policy_document d c = (case ch_policy c of
      None \<Rightarrow> Inl (AttributeError ''policy_document'')
    | Some p \<Rightarrow> Inr (c\<lparr>ch_policy := Some (p\<lparr>pm_document := d\<rparr>)\<rparr>))"

definition is_resource_policy_type :: "change_type \<Rightarrow> bool" where
  "is_resource_policy_type t \<longleftrightarrow> t = Resource_policy \<or> t = Sts_resource_policy"

text \<open>The change types whose document a user may replace.\<close>

definition has_updatable_policy :: "change_type \<Rightarrow> bool" where
  "has_updatable_policy t \<longleftrightarrow> t \<in> {Inline_policy, Resource_policy, Sts_resource_policy,
     Assume_role_policy, Managed_policy_resource}"

lemma has_updatable_policy_simps [simp]:
  "has_updatable_policy Inline_policy" "has_updatable_policy Resource_policy"
  "has_updatable_policy Sts_resource_policy" "has_updatable_policy Assume_role_policy"
  "has_updatable_policy Managed_policy_resource" "\<not> has_updatable_policy Managed_policy"
  "\<not> has_updatable_policy Resource_tag" "\<not> has_updatable_policy Permissions_boundary"
  "\<not> has_updatable_policy Generic_file" "\<not> has_updatable_policy (Other_change s)"
  by (simp_all add: has_updatable_policy_def)

lemma is_resource_policy_type_simps [simp]:
  "is_resource_policy_type Resource_policy" "is_resource_policy_type Sts_resource_policy"
  "\<not> is_resource_policy_type Inline_policy" "\<not> is_resource_policy_type Managed_policy"
  "\<not> is_resource_policy_type Managed_policy_resource"
  "\<not> is_resource_policy_type Assume_role_policy" "\<not> is_resource_policy_type Resource_tag"
  "\<not> is_resource_policy_type Permissions_boundary" "\<not> is_resource_policy_type Generic_file"
  "\<not> is_resource_policy_type (Other_change s)"
  by (simp_all add: is_resource_policy_type_def)

text \<open>
  Changes live in a list and the code mutates the objects in it; writing an object back is
  replacing it where it stands.
\<close>

definition replace_change :: "nat \<Rightarrow> change \<Rightarrow> extended_request \<Rightarrow> extended_request" where
  "replace_change i c er = er\<lparr>er_changes := (er_changes er)[i := c]\<rparr>"

lemma replace_change_fields [simp]:
  "er_id (replace_change i c er) = er_id er"
  "er_principal (replace_change i c er) = er_principal er"
  "er_requester_email (replace_change i c er) = er_requester_email er"
  "er_request_status (replace_change i c er) = er_request_status er"
  "er_reviewer (replace_change i c er) = er_reviewer er"
  "er_comments (replace_change i c er) = er_comments er"
  "er_admin_auto_approve (replace_change i c er) = er_admin_auto_approve er"
  "er_changes (replace_change i c er) = (er_changes er)[i := c]"
  by (simp_all add: replace_change_def)

text \<open>
  \<open>applied_kept er er'\<close>: every change that is applied in \<open>er\<close> stands at its place in
  \<open>er'\<close> unchanged, and no change is dropped from or inserted before the others.
\<close>

definition applied_kept :: "extended_request \<Rightarrow> extended_request \<Rightarrow> bool" where
  "applied_kept er er' \<longleftrightarrow> length (er_changes er) = length (er_changes er') \<and>
     (\<forall>i < length (er_changes er). ch_status (er_changes er ! i) = Applied \<longrightarrow>
        er_changes er' ! i = er_changes er ! i)"

lemma applied_kept_refl [simp]: "applied_kept er er"
  by (simp add: applied_kept_def)

lemma applied_kept_trans:
  "applied_kept a b \<Longrightarrow> applied_kept b c \<Longrightarrow> applied_kept a c"
  by (auto simp: applied_kept_def)

lemma applied_kept_same: "er_changes er' = er_changes er \<Longrightarrow> applied_kept er er'"
  by (simp add: applied_kept_def)

lemma applied_kept_replace:
  "i < length (er_changes er) \<Longrightarrow> ch_status (er_changes er ! i) \<noteq> Applied \<Longrightarrow>
    applied_kept er (replace_change i c er)"
  by (auto simp: applied_kept_def nth_list_update)

end
