(* ===== verification/Config.thy ===== *)
theory Config
  imports Json
begin

text \<open>
  consoleme/config/config.py: the nested configuration dictionary, the merge of extended
  configuration files into it and the lookup of a key in dot notation. The YAML files, the
  DynamoDB and Redis copies of the dynamic configuration and the background threads that
  refresh it are outside: the configuration is an argument wherever it is read.
\<close>

section \<open>Merging an extended configuration\<close>

text \<open>
  \<open>dict_merge(dct, merge_dct)\<close>: nested dictionaries are merged, a value that is already
  there is kept. A key of \<open>merge_dct\<close> that is missing goes to the end, as an assignment to
  a Python dictionary does.
\<close>

fun dict_merge :: "(string \<times> json) list \<Rightarrow> (string \<times> json) list \<Rightarrow> (string \<times> json) list" where
  "dict_merge dct [] = dct"
| "dict_merge dct ((k, v) # rest) =
     (case map_of dct k of
        None \<Rightarrow> dict_merge (dct @ [(k, v)]) rest
      | Some (JObj sub) \<Rightarrow>
          (case v of
             JObj msub \<Rightarrow> dict_merge (AList.update k (JObj (dict_merge sub msub)) dct) rest
           | _ \<Rightarrow> dict_merge dct rest)
      | Some _ \<Rightarrow> dict_merge dct rest)"

text \<open>What the merged dictionary holds under a key.\<close>

fun merged_value :: "json option \<Rightarrow> json option \<Rightarrow> json option" where
  "merged_value None m = m"
| "merged_value (Some (JObj sub)) (Some (JObj msub)) = Some (JObj (dict_merge sub msub))"
| "merged_value (Some v) _ = Some v"

lemma merged_value_None [simp]: "merged_value d None = d"
  by (cases "(d, None :: json option)" rule: merged_value.cases) auto

lemma map_of_dict_merge:
  "distinct (map fst m) \<Longrightarrow> map_of (dict_merge d m) k = merged_value (map_of d k) (map_of m k)"
proof (induction m arbitrary: d k)
  case Nil
  then show ?case by simp
next
  case (Cons p m)
  obtain k0 v where p: "p = (k0, v)" by (cases p)
  from Cons.prems p have dm: "distinct (map fst m)" and notin: "map_of m k0 = None"
    by (simp_all add: map_of_eq_None_iff)
  note IH = Cons.IH [OF dm]
  show ?case
    using p notin
    by (cases "k = k0")
      (auto simp: IH update_conv' map_add_def split: option.splits json.splits)
qed

section \<open>Lookup in dot notation\<close>

text \<open>
  The loop of \<open>Configuration.get\<close>: a missing key gives the default, a value on the way that
  is not a dictionary raises \<open>TypeError\<close>, which the code does not catch.
\<close>

fun config_path :: "json \<Rightarrow> string list \<Rightarrow> json \<Rightarrow> json res" where
  "config_path value [] d = Inr value"
| "config_path (JObj kvs) (k # ks) d =
     (case map_of kvs k of None \<Rightarrow> Inr d | Some v \<Rightarrow> config_path v ks d)"
| "config_path _ (k # ks) d = Inl (TypeError ''subscript'')"

definition config_get :: "json \<Rightarrow> string \<Rightarrow> json \<Rightarrow> json res" where
  "config_get cfg key d = config_path cfg (py_split CHR ''.'' key) d"

text \<open>\<open>[*config.get(k1, []), *config.get(k2, []), ...]\<close>\<close>

definition config_lists :: "json \<Rightarrow> string list \<Rightarrow> json list res" where
  "config_lists cfg keys =
     bindE (mapE (\<lambda>k. bindE (config_get cfg k (JList [])) jiter) keys) (\<lambda>xss. Inr (concat xss))"

text \<open>A configuration value read where a list of strings, a string or a flag is expected.\<close>

definition config_strs :: "json \<Rightarrow> string \<Rightarrow> string list \<Rightarrow> string list res" where
  "config_strs cfg key d =
     bindE (config_get cfg key (JList (map JStr d))) (\<lambda>v. bindE (jiter v) (mapE the_str))"

definition config_str :: "json \<Rightarrow> string \<Rightarrow> string \<Rightarrow> string res" where
  "config_str cfg key d = bindE (config_get cfg key (JStr d)) the_str"

definition config_flag :: "json \<Rightarrow> string \<Rightarrow> bool \<Rightarrow> bool res" where
  "config_flag cfg key d = bindE (config_get cfg key (JBool d)) (\<lambda>v. Inr (truthy v))"

section \<open>Properties of the merge\<close>

text \<open>
  A path that leads in the original to a value other than a dictionary leads to the same
  value after the merge, whatever is merged in.
\<close>

fun leaf :: "json \<Rightarrow> bool" where
  "leaf (JObj kvs) = False"
| "leaf _ = True"

fun resolves :: "json \<Rightarrow> string list \<Rightarrow> json option" where
  "resolves v [] = Some v"
| "resolves (JObj kvs) (k # ks) = (case map_of kvs k of None \<Rightarrow> None | Some v \<Rightarrow> resolves v ks)"
| "resolves _ (k # ks) = None"

lemma config_path_resolves:
  "resolves c ks = Some v \<Longrightarrow> config_path c ks d = Inr v"
  by (induction c ks rule: resolves.induct) (auto split: option.splits)

lemma resolves_dict_merge:
  assumes "json_wf (JObj m)" and "resolves (JObj d) ks = Some v" and "leaf v"
  shows "resolves (JObj (dict_merge d m)) ks = Some v"
  using assms
proof (induction ks arbitrary: d m)
  case Nil
  then show ?case by auto
next
  case (Cons k ks)
  from Cons.prems(2) obtain w where w: "map_of d k = Some w" "resolves w ks = Some v"
    by (auto split: option.splits)
  have dm: "distinct (map fst m)" using Cons.prems(1) by simp
  show ?case
  proof (cases "\<exists>sub msub. w = JObj sub \<and> map_of m k = Some (JObj msub)")
    case True
    then obtain sub msub where s: "w = JObj sub" "map_of m k = Some (JObj msub)" by blast
    then have "json_wf (JObj msub)"
      using Cons.prems(1) by (force dest: map_of_SomeD)
    then have "resolves (JObj (dict_merge sub msub)) ks = Some v"
      using Cons.IH w(2) s(1) Cons.prems(3) by blast
    with w s dm show ?thesis by (simp add: map_of_dict_merge)
  next
    case False
    then have "merged_value (Some w) (map_of m k) = Some w"
      by (cases "(Some w, map_of m k)" rule: merged_value.cases) auto
    with w dm show ?thesis by (simp add: map_of_dict_merge)
  qed
qed

text \<open>C26: reading a key that the original configuration sets to a value other than a
  dictionary gives that value after any number of extended files has been merged in: the
  file that extends another wins over it.\<close>

theorem original_config_wins:
  assumes "resolves (JObj d) (py_split CHR ''.'' key) = Some v" and "leaf v"
    and "\<forall>m \<in> set ms. json_wf (JObj m)"
  shows "config_get (JObj (fold (\<lambda>m acc. dict_merge acc m) ms d)) key dflt = Inr v"
proof -
  have "resolves (JObj (fold (\<lambda>m acc. dict_merge acc m) ms d)) (py_split CHR ''.'' key) = Some v"
    using assms
    by (induction ms arbitrary: d) (simp_all add: resolves_dict_merge)
  then show ?thesis by (simp add: config_get_def config_path_resolves)
qed

theorem original_config_wins_witness:
  "config_get (JObj (fold (\<lambda>m acc. dict_merge acc m)
      [[(''groups'', JObj [(''can_admin'', JList []), (''extra'', JInt 2)])]]
      [(''groups'', JObj [(''can_admin'', JList [JStr ''admins''])])]))
    ''groups.can_admin'' JNull = Inr (JList [JStr ''admins''])"
  by (rule original_config_wins) simp_all

end
