(* ===== verification/World.thy ===== *)
theory World
  imports Models Config
begin

text \<open>
  What the handlers act on. AWS, policy_sentry, the caches and the clock are outside the
  repository and enter as the functions of \<open>env\<close>; the answer of AWS to a call may depend on
  all calls made before. The world is the log of AWS calls with their outcome, the DynamoDB
  table of policy requests, the mails sent and the roles refreshed in ConsoleMe's cache.
\<close>

section \<open>AWS calls\<close>

text \<open>
  The calls of the modelled code, with the account the client was made for; \<open>Boto3_conn\<close> is
  \<open>boto3_cached_conn\<close>, which assumes a role in the account. A policy document argument is
  the value the code serialises with \<open>json.dumps\<close>.
\<close>

datatype aws_call =
    Boto3_conn string string string
  | Put_role_policy string string "string option" json
  | Put_user_policy string string "string option" json
  | Delete_role_policy string string "string option"
  | Delete_user_policy string string "string option"
  | Put_role_permissions_boundary string string string
  | Put_user_permissions_boundary string string string
  | Delete_role_permissions_boundary string string
  | Delete_user_permissions_boundary string string
  | Attach_role_policy string string string
  | Attach_user_policy string string string
  | Detach_role_policy string string string
  | Detach_user_policy string string string
  | Update_assume_role_policy string string json
  | Tag_role string string "string option" "string option"
  | Tag_user string string "string option" "string option"
  | Untag_role string string "string option"
  | Untag_user string string "string option"
  | Tag_policy string string "string option" "string option"
  | Untag_policy string string "string option"
  | Put_bucket_policy string string json
  | Put_bucket_tagging string string "json list"
  | Set_topic_policy string string json
  | Sns_tag_resource string string "string option" "string option"
  | Sns_untag_resource string string "string option"
  | Get_queue_url string string
  | Set_queue_policy string json json
  | Tag_queue string json "string option" "string option"
  | Untag_queue string json "string option"
  | List_policy_versions string string
  | Create_policy string string string json string
  | Create_policy_version string string json
  | Delete_policy_version string string json

type_synonym call_log = "(aws_call \<times> bool) list"

section \<open>Environment and world\<close>

text \<open>The dictionary \<open>parse_arn\<close> of policy_sentry returns.\<close>

record arn_parts =
  pa_service :: string
  pa_region :: "string option"
  pa_account :: "string option"
  pa_resource :: string
  pa_resource_path :: "string option"

text \<open>
  \<open>ExtendedAwsPrincipalModel\<close>, the fields the request code reads: inline policies by name,
  the ARNs of attached managed policies, the trust policy, and the permissions boundary:
  \<open>None\<close> or an empty dictionary when there is none.
\<close>

record aws_principal =
  ap_inline_policies :: "(string \<times> json) list"
  ap_managed_policies :: "string list"
  ap_assume_role_policy_document :: json
  ap_permissions_boundary :: "string option option"

record env =
  e_cfg :: json
  e_now :: int
  e_uuid :: "nat \<Rightarrow> string"
  e_random_string :: "nat \<Rightarrow> string"
  e_parse_arn :: "string \<Rightarrow> arn_parts res"
  e_account_from_arn :: "string \<Rightarrow> string"
  e_resource_info :: "string \<Rightarrow> json option"
  e_s3_buckets :: "(string \<times> string list) list"
  e_bucket_location :: "call_log \<Rightarrow> string \<Rightarrow> string \<Rightarrow> string res"
  e_accounts :: "(string \<times> string) list"
  e_service_from_action :: "string \<Rightarrow> string"
  e_principal_json :: "principal \<Rightarrow> string"
  e_url_for_resource :: "string \<Rightarrow> string res"
  e_sha256 :: "json \<Rightarrow> string"
  e_str :: "json \<Rightarrow> string"
  e_aws :: "call_log \<Rightarrow> aws_call \<Rightarrow> json res"
  e_fetch_iam_role :: "call_log \<Rightarrow> string \<Rightarrow> string \<Rightarrow> json res"
  e_role_details :: "call_log \<Rightarrow> string \<Rightarrow> string \<Rightarrow> aws_principal option res"
  e_user_details :: "call_log \<Rightarrow> string \<Rightarrow> string \<Rightarrow> aws_principal option res"
  e_managed_policy_document :: "call_log \<Rightarrow> string \<Rightarrow> string \<Rightarrow> json res"
  e_resource_details :: "call_log \<Rightarrow> string \<Rightarrow> string \<Rightarrow> string \<Rightarrow> string option \<Rightarrow> json res"
  e_put_item :: "nat \<Rightarrow> py_error option"

text \<open>
  What is handed to \<open>send_email\<close>, which reports its own failures in the log only: the link to
  the request, who gets it, and the status or who commented.
\<close>

datatype mail =
    Status_mail string json request_status
  | Comment_mail string json string

text \<open>A row of the policy request table: the request and \<open>last_updated\<close>.\<close>

record stored_request =
  sr_request :: extended_request
  sr_last_updated :: int

record world =
  w_calls :: call_log
  w_table :: "string \<rightharpoonup> stored_request"
  w_puts :: nat
  w_mails :: "mail list"
  w_refreshed :: "(string \<times> string) list"
  w_uuids :: nat

section \<open>Primitive steps\<close>

definition aws :: "env \<Rightarrow> aws_call \<Rightarrow> (world, json) io" where
  "aws env call = (\<lambda>w. case e_aws env (w_calls w) call of
      Inl e \<Rightarrow> (Inl e, w\<lparr>w_calls := w_calls w @ [(call, False)]\<rparr>)
    | Inr j \<Rightarrow> (Inr j, w\<lparr>w_calls := w_calls w @ [(call, True)]\<rparr>))"

text \<open>A call whose answer is not used.\<close>

definition aws_do :: "env \<Rightarrow> aws_call \<Rightarrow> (world, unit) io" where
  "aws_do env call = bindW (aws env call) (\<lambda>_. retW ())"

text \<open>\<open>str(uuid.uuid4())\<close>\<close>

definition fresh_uuid :: "env \<Rightarrow> (world, string) io" where
  "fresh_uuid env = (\<lambda>w. (Inr (e_uuid env (w_uuids w)), w\<lparr>w_uuids := Suc (w_uuids w)\<rparr>))"

text \<open>\<open>aws.fetch_iam_role(account_id, arn, force_refresh=True)\<close>\<close>

definition refresh_role :: "env \<Rightarrow> string \<Rightarrow> string \<Rightarrow> (world, unit) io" where
  "refresh_role env account arn = (\<lambda>w. case e_fetch_iam_role env (w_calls w) account arn of
      Inl e \<Rightarrow> (Inl e, w)
    | Inr _ \<Rightarrow> (Inr (), w\<lparr>w_refreshed := w_refreshed w @ [(account, arn)]\<rparr>))"

definition send_mail :: "mail \<Rightarrow> (world, unit) io" where
  "send_mail m = stepW (\<lambda>w. w\<lparr>w_mails := w_mails w @ [m]\<rparr>)"

section \<open>The table of policy requests\<close>

text \<open>
  \<open>UserDynamoHandler.write_policy_request_v2\<close>: the row is keyed by the request's id; a failing
  \<open>put_item\<close> leaves the table as it is and is raised again as a plain exception.
\<close>

definition write_policy_request_v2 :: "env \<Rightarrow> extended_request \<Rightarrow> (world, stored_request) io" where
  "write_policy_request_v2 env er = (\<lambda>w.
     let new_request = \<lparr>sr_request = er, sr_last_updated = e_now env\<rparr>;
         w' = w\<lparr>w_puts := Suc (w_puts w)\<rparr>
     in case e_put_item env (w_puts w) of
          Some e \<Rightarrow>
            (Inl (PyException (''Error occurred writing policy request v2 to Dynamo: '' @ err_str e)),
             w')
        | None \<Rightarrow> (Inr new_request, w'\<lparr>w_table := (w_table w)(er_id er \<mapsto> new_request)\<rparr>))"

text \<open>
  \<open>RequestDetailHandler._get_extended_request\<close>: the request with the id and when it was last
  updated. The table's key is the id, so there is at most one.
\<close>

definition get_extended_request :: "string \<Rightarrow> (world, extended_request \<times> int) io" where
  "get_extended_request request_id = readW (\<lambda>w. case w_table w request_id of
      None \<Rightarrow> Inl (NoMatchingRequest ''Request with that ID not found'')
    | Some s \<Rightarrow> Inr (sr_request s, sr_last_updated s))"

text \<open>Reading back a request after a successful write gives it; other rows are untouched.\<close>

locale request_store =
  fixes put :: "extended_request \<Rightarrow> ('w, stored_request) io"
    and get :: "string \<Rightarrow> ('w, extended_request \<times> int) io"
    and row :: "'w \<Rightarrow> string \<Rightarrow> stored_request option"
  assumes put_row: "put er w = (Inr s, w') \<Longrightarrow> sr_request s = er \<and> row w' = (row w)(er_id er \<mapsto> s)"
    and put_failed: "put er w = (Inl e, w') \<Longrightarrow> row w' = row w"
    and get_row: "get k w = (case row w k of
        None \<Rightarrow> (Inl (NoMatchingRequest ''Request with that ID not found''), w)
      | Some s \<Rightarrow> (Inr (sr_request s, sr_last_updated s), w))"
begin

lemma get_put: "put er w = (Inr s, w') \<Longrightarrow> get (er_id er) w' = (Inr (er, sr_last_updated s), w')"
  by (auto dest!: put_row simp: get_row)

lemma get_put_other:
  "put er w = (Inr s, w') \<Longrightarrow> k \<noteq> er_id er \<Longrightarrow> fst (get k w') = fst (get k w)"
  by (auto dest!: put_row simp: get_row split: option.splits)

lemma get_put_failed: "put er w = (Inl e, w') \<Longrightarrow> fst (get k w') = fst (get k w)"
  by (auto dest!: put_failed simp: get_row split: option.splits)

end

interpretation table: request_store "write_policy_request_v2 env" get_extended_request w_table
  by unfold_locales
    (auto simp: write_policy_request_v2_def get_extended_request_def Let_def split: option.splits)

section \<open>What steps leave alone\<close>

text \<open>Six relations between the world before and after; each is a \<open>step_relation\<close>.\<close>

definition same_table :: "world \<Rightarrow> world \<Rightarrow> bool" where
  "same_table w w' \<longleftrightarrow> w_table w' = w_table w \<and> w_puts w' = w_puts w"

definition same_calls :: "world \<Rightarrow> world \<Rightarrow> bool" where
  "same_calls w w' \<longleftrightarrow> w_calls w' = w_calls w"

definition same_mails :: "world \<Rightarrow> world \<Rightarrow> bool" where
  "same_mails w w' \<longleftrightarrow> w_mails w' = w_mails w"

definition log_grows :: "world \<Rightarrow> world \<Rightarrow> bool" where
  "log_grows w w' \<longleftrightarrow> prefix (w_calls w) (w_calls w')"

text \<open>Only rows of the request with this id are written.\<close>

definition only_row :: "string \<Rightarrow> world \<Rightarrow> world \<Rightarrow> bool" where
  "only_row i w w' \<longleftrightarrow> (\<forall>k. k \<noteq> i \<longrightarrow> w_table w' k = w_table w k)"

interpretation tbl: step_relation same_table
  by unfold_locales (auto simp: same_table_def)

interpretation cls: step_relation same_calls
  by unfold_locales (auto simp: same_calls_def)

interpretation mls: step_relation same_mails
  by unfold_locales (auto simp: same_mails_def)

interpretation lg: step_relation log_grows
  by unfold_locales (auto simp: log_grows_def)

interpretation rw: step_relation "only_row i" for i
  by unfold_locales (auto simp: only_row_def)

lemma aws_frames [frames]:
  "tbl.keeps (aws env c)" "mls.keeps (aws env c)" "lg.keeps (aws env c)" "rw.keeps i (aws env c)"
  by (auto simp: tbl.keeps_def mls.keeps_def lg.keeps_def rw.keeps_def aws_def same_table_def
      same_mails_def log_grows_def only_row_def split: sum.splits)

lemma fresh_uuid_frames [frames]:
  "tbl.keeps (fresh_uuid env)" "mls.keeps (fresh_uuid env)" "lg.keeps (fresh_uuid env)"
  "cls.keeps (fresh_uuid env)" "rw.keeps i (fresh_uuid env)"
  by (auto simp: tbl.keeps_def mls.keeps_def lg.keeps_def cls.keeps_def rw.keeps_def
      fresh_uuid_def same_table_def same_mails_def log_grows_def same_calls_def only_row_def)

lemma refresh_role_frames [frames]:
  "tbl.keeps (refresh_role env a r)" "mls.keeps (refresh_role env a r)"
  "lg.keeps (refresh_role env a r)" "cls.keeps (refresh_role env a r)"
  "rw.keeps i (refresh_role env a r)"
  by (auto simp: tbl.keeps_def mls.keeps_def lg.keeps_def cls.keeps_def rw.keeps_def
      refresh_role_def same_table_def same_mails_def log_grows_def same_calls_def only_row_def
      split: sum.splits)

lemma send_mail_frames [frames]:
  "tbl.keeps (send_mail m)" "cls.keeps (send_mail m)" "lg.keeps (send_mail m)"
  "rw.keeps i (send_mail m)"
  by (auto simp: tbl.keeps_def lg.keeps_def cls.keeps_def rw.keeps_def send_mail_def
      same_table_def log_grows_def same_calls_def only_row_def)

lemma write_policy_request_frames [frames]:
  "cls.keeps (write_policy_request_v2 env er)" "mls.keeps (write_policy_request_v2 env er)"
  "lg.keeps (write_policy_request_v2 env er)" "rw.keeps (er_id er) (write_policy_request_v2 env er)"
  by (auto simp: lg.keeps_def cls.keeps_def mls.keeps_def rw.keeps_def write_policy_request_v2_def
      Let_def same_mails_def log_grows_def same_calls_def only_row_def split: option.splits)

lemma get_extended_request_frames [frames]:
  "tbl.keeps (get_extended_request k)" "cls.keeps (get_extended_request k)"
  "mls.keeps (get_extended_request k)" "lg.keeps (get_extended_request k)"
  "rw.keeps i (get_extended_request k)"
  unfolding get_extended_request_def
  by (rule tbl.keeps_read cls.keeps_read mls.keeps_read lg.keeps_read rw.keeps_read)+

text \<open>The combinators preserve every one of these relations.\<close>

lemmas keeps_rules =
  tbl.keeps_intros cls.keeps_intros mls.keeps_intros lg.keeps_intros rw.keeps_intros

lemmas relation_defs =
  same_table_def same_calls_def same_mails_def log_grows_def only_row_def

end
