(* ===== verification/Aws.thy ===== *)
theory Aws
  imports World
begin

text \<open>
  The helpers of consoleme/lib/aws.py the request code uses: who owns a resource, what an ARN
  says, session names, the update of a managed policy with its limit of five versions, and
  the policy a resource gets when a principal is granted access to it.
\<close>

section \<open>ARNs and accounts\<close>

definition get_region_from_arn :: "env \<Rightarrow> string \<Rightarrow> string res" where
  "get_region_from_arn env arn =
     bindE (e_parse_arn env arn) (\<lambda>p. Inr (case pa_region p of None \<Rightarrow> [] | Some r \<Rightarrow> r))"

definition get_resource_from_arn :: "env \<Rightarrow> string \<Rightarrow> string res" where
  "get_resource_from_arn env arn = bindE (e_parse_arn env arn) (\<lambda>p. Inr (pa_resource p))"

definition get_service_from_arn :: "env \<Rightarrow> string \<Rightarrow> string res" where
  "get_service_from_arn env arn = bindE (e_parse_arn env arn) (\<lambda>p. Inr (pa_service p))"

text \<open>\<open>arn_parsed["resource_path"].split("/")[-1]\<close>\<close>

definition resource_path_name :: "arn_parts \<Rightarrow> string res" where
  "resource_path_name p = (case pa_resource_path p of
      None \<Rightarrow> Inl (AttributeError ''split'')
    | Some rp \<Rightarrow> Inr (last_part CHR ''/'' rp))"

text \<open>
  \<open>get_resource_account\<close>: the account in the ARN, else the AWS Config cache, else for a bucket
  the first account whose cached buckets include it, else the empty string.
\<close>

fun bucket_account :: "string \<Rightarrow> (string \<times> string list) list \<Rightarrow> string" where
  "bucket_account name [] = []"
| "bucket_account name ((account, buckets) # rest) =
     (if name \<in> set buckets then account else bucket_account name rest)"

definition get_resource_account :: "env \<Rightarrow> string \<Rightarrow> string res" where
  "get_resource_account env arn =
     (if e_account_from_arn env arn \<noteq> [] then Inr (e_account_from_arn env arn)
      else case e_resource_info env arn of
        Some info \<Rightarrow> bindE (jget_or ''accountId'' (JStr []) info) the_str
      | None \<Rightarrow>
          if substring ''arn:aws:s3:::'' arn
          then Inr (bucket_account (last_part CHR '':'' arn) (e_s3_buckets env))
          else Inr [])"

text \<open>
  \<open>sanitize_session_name\<close>: characters outside the class \<open>[\w+=,.@-]\<close> are dropped and at most 64
  are kept. Characters are bytes here, so \<open>\w\<close> is the ASCII word class.
\<close>

definition session_char :: "char \<Rightarrow> bool" where
  "session_char c \<longleftrightarrow>
     c \<in> set ''abcdefghijklmnopqrstuvwxyzABCDEFGHIJKLMNOPQRSTUVWXYZ0123456789_+=,.@-''"

fun sanitize_loop :: "string \<Rightarrow> string \<Rightarrow> string" where
  "sanitize_loop acc [] = acc"
| "sanitize_loop acc (c # cs) =
     (if length acc = 64 then acc
      else if session_char c then sanitize_loop (acc @ [c]) cs else sanitize_loop acc cs)"

definition sanitize_session_name :: "string \<Rightarrow> string" where
  "sanitize_session_name unsanitized = sanitize_loop [] unsanitized"

lemma sanitize_loop_eq:
  "length acc \<le> 64 \<Longrightarrow> sanitize_loop acc cs = take 64 (acc @ filter session_char cs)"
  by (induction cs arbitrary: acc) (auto simp: take_Cons')

lemma take_filter_all: "x \<in> set (take n (filter P xs)) \<Longrightarrow> P x"
  by (drule in_set_takeD) simp

lemma take_filter_idem: "take n (filter P (take n (filter P xs))) = take n (filter P xs)"
proof -
  have "filter P (take n (filter P xs)) = take n (filter P xs)"
    by (rule filter_True) (blast dest: take_filter_all)
  then show ?thesis by simp
qed


section \<open>Managed policies\<close>

text \<open>An element of the answer to \<open>list_policy_versions\<close>; the creation date as a number.\<close>

record policy_version =
  pv_id :: json
  pv_default :: bool
  pv_created :: int

fun the_int :: "json \<Rightarrow> int res" where
  "the_int (JInt i) = Inr i"
| "the_int _ = Inl (TypeError ''not comparable'')"

definition read_version :: "json \<Rightarrow> policy_version res" where
  "read_version v =
     bindE (jindex ''IsDefaultVersion'' v) (\<lambda>d.
     bindE (bindE (jindex ''CreateDate'' v) the_int) (\<lambda>t.
     bindE (jindex ''VersionId'' v) (\<lambda>i.
       Inr \<lparr>pv_id = i, pv_default = truthy d, pv_created = t\<rparr>)))"

text \<open>The scan over the versions: the index of the default one and of the oldest one so far.\<close>

fun scan_versions ::
  "nat \<Rightarrow> nat \<Rightarrow> (nat \<times> int) option \<Rightarrow> policy_version list \<Rightarrow> nat \<times> (nat \<times> int) option" where
  "scan_versions i default_index oldest [] = (default_index, oldest)"
| "scan_versions i default_index oldest (v # vs) =
     scan_versions (Suc i) (if pv_default v then i else default_index)
       (case oldest of
          None \<Rightarrow> Some (i, pv_created v)
        | Some (j, t) \<Rightarrow> if t > pv_created v then Some (i, pv_created v) else Some (j, t)) vs"

text \<open>Which version is deleted to make room: none below the limit of five.\<close>

definition version_to_delete :: "policy_version list \<Rightarrow> nat option" where
  "version_to_delete vs =
     (if length vs = 5 then
        (case scan_versions 0 0 None vs of
           (default_index, None) \<Rightarrow> None
         | (default_index, Some (oldest, t)) \<Rightarrow>
             if default_index = oldest then Some ((oldest + 1) mod length vs) else Some oldest)
      else None)"

definition update_managed_policy :: "env \<Rightarrow> string \<Rightarrow> json \<Rightarrow> string \<Rightarrow> (world, unit) io" where
  "update_managed_policy env account new_policy policy_arn =
     bindW (aws env (List_policy_versions account policy_arn)) (\<lambda>answer.
     bindW (liftW (bindE (bindE (jget_or ''Versions'' (JList []) answer) jiter)
                      (mapE read_version))) (\<lambda>versions.
     bindW (case version_to_delete versions of
              None \<Rightarrow> retW ()
            | Some k \<Rightarrow> aws_do env (Delete_policy_version account policy_arn (pv_id (versions ! k)))) (\<lambda>_.
     aws_do env (Create_policy_version account policy_arn new_policy))))"

text \<open>\<open>create_managed_policy\<close>; \<open>rate_limited\<close> retries inside cloudaux.\<close>

definition create_managed_policy ::
  "env \<Rightarrow> string \<Rightarrow> string \<Rightarrow> string \<Rightarrow> json \<Rightarrow> string \<Rightarrow> (world, unit) io" where
  "create_managed_policy env account name path policy description =
     aws_do env (Create_policy account name path policy description)"

definition create_or_update_managed_policy ::
  "env \<Rightarrow> string \<Rightarrow> json \<Rightarrow> string \<Rightarrow> string \<Rightarrow> string \<Rightarrow> string \<Rightarrow> bool \<Rightarrow> (world, unit) io" where
  "create_or_update_managed_policy env account new_policy policy_name policy_arn description
       policy_path existing_policy =
     (if \<not> existing_policy
      then create_managed_policy env account policy_name policy_path new_policy description
      else update_managed_policy env account new_policy policy_arn)"

text \<open>When exactly one version is the default, the scan finds it.\<close>

lemma scan_versions_keeps_default:
  "list_all (\<lambda>v. \<not> pv_default v) vs \<Longrightarrow> fst (scan_versions i d old vs) = d"
  by (induction vs arbitrary: i old) auto

lemma scan_versions_finds_default:
  assumes "k < length vs" and "pv_default (vs ! k)"
    and "\<forall>j < length vs. pv_default (vs ! j) \<longrightarrow> j = k"
  shows "fst (scan_versions i d old vs) = i + k"
  using assms
proof (induction vs arbitrary: i d old k)
  case Nil
  then show ?case by simp
next
  case (Cons v vs)
  show ?case
  proof (cases k)
    case 0
    have "list_all (\<lambda>v. \<not> pv_default v) vs"
      unfolding list_all_length
    proof (intro allI impI notI)
      fix j assume "j < length vs" "pv_default (vs ! j)"
      then show False using Cons.prems(3) [rule_format, of "Suc j"] 0 by simp
    qed
    with 0 Cons.prems(2) show ?thesis by (simp add: scan_versions_keeps_default)
  next
    case (Suc k')
    have nv: "\<not> pv_default v" using Cons.prems(3) [rule_format, of 0] Suc by auto
    have "\<forall>j < length vs. pv_default (vs ! j) \<longrightarrow> j = k'"
    proof (intro allI impI)
      fix j assume "j < length vs" "pv_default (vs ! j)"
      then show "j = k'" using Cons.prems(3) [rule_format, of "Suc j"] Suc by simp
    qed
    moreover have "k' < length vs" "pv_default (vs ! k')"
      using Cons.prems(1,2) Suc by simp_all
    ultimately have "fst (scan_versions (Suc i) d old' vs) = Suc i + k'" for d old'
      using Cons.IH by blast
    with Suc nv show ?thesis by simp
  qed
qed

lemma scan_versions_oldest:
  assumes "vs \<noteq> [] \<or> old \<noteq> None"
  shows "\<exists>j t. snd (scan_versions i d old vs) = Some (j, t) \<and>
    (i \<le> j \<and> j < i + length vs \<and> pv_created (vs ! (j - i)) = t \<or> old = Some (j, t)) \<and>
    (\<forall>v \<in> set vs. t \<le> pv_created v) \<and> (\<forall>j' t'. old = Some (j', t') \<longrightarrow> t \<le> t')"
  using assms
proof (induction vs arbitrary: i d old)
  case Nil
  then show ?case by auto
next
  case (Cons v vs)
  let ?old = "case old of None \<Rightarrow> Some (i, pv_created v)
    | Some (j, t) \<Rightarrow> if t > pv_created v then Some (i, pv_created v) else Some (j, t)"
  have "vs \<noteq> [] \<or> ?old \<noteq> None" by (auto split: option.splits)
  from Cons.IH [OF this, of "Suc i" "if pv_default v then i else d"]
  obtain j t where jt: "snd (scan_versions i d old (v # vs)) = Some (j, t)"
    and where_: "Suc i \<le> j \<and> j < Suc i + length vs \<and> pv_created (vs ! (j - Suc i)) = t \<or> ?old = Some (j, t)"
    and least: "\<forall>v \<in> set vs. t \<le> pv_created v"
    and below: "\<forall>j' t'. ?old = Some (j', t') \<longrightarrow> t \<le> t'"
    by auto
  have "t \<le> pv_created v" and "\<forall>j' t'. old = Some (j', t') \<longrightarrow> t \<le> t'"
    using below by (auto split: option.splits if_splits)
  moreover have "i \<le> j \<and> j < i + length (v # vs) \<and> pv_created ((v # vs) ! (j - i)) = t \<or> old = Some (j, t)"
    using where_ by (auto simp: nth_Cons' Suc_diff_le split: option.splits if_splits)
  ultimately show ?case using jt least by auto
qed

text \<open>C21: with five versions of a managed policy, exactly one of which is the default, the
  update deletes one, never the default one, and the oldest one unless that is the default;
  with fewer versions it deletes none.\<close>

theorem version_to_delete_safe:
  assumes "k < length vs" and "pv_default (vs ! k)"
    and "\<forall>j < length vs. pv_default (vs ! j) \<longrightarrow> j = k"
  shows "(length vs \<noteq> 5 \<longrightarrow> version_to_delete vs = None) \<and>
    (length vs = 5 \<longrightarrow> (\<exists>d. version_to_delete vs = Some d \<and> d < 5 \<and> d \<noteq> k \<and>
       ((\<forall>v \<in> set vs. pv_created (vs ! d) \<le> pv_created v) \<or>
        (\<forall>v \<in> set vs. pv_created (vs ! k) \<le> pv_created v))))"
proof (cases "length vs = 5")
  case False
  then show ?thesis by (simp add: version_to_delete_def)
next
  case True
  then have ne: "vs \<noteq> [] \<or> (None :: (nat \<times> int) option) \<noteq> None" by auto
  have fst_k: "fst (scan_versions 0 0 None vs) = k"
    using scan_versions_finds_default [OF assms, of 0] by simp
  obtain j t where j: "snd (scan_versions 0 0 None vs) = Some (j, t)" "j < 5"
    "pv_created (vs ! j) = t" "\<forall>v \<in> set vs. t \<le> pv_created v"
    using scan_versions_oldest [OF ne, of 0 0] True by auto
  have scan: "scan_versions 0 0 None vs = (k, Some (j, t))"
    using fst_k j(1) by (metis prod.collapse)
  show ?thesis
  proof (cases "k = j")
    case True
    have "(j + 1) mod 5 \<noteq> j" using j(2) by presburger
    then show ?thesis
      using True scan j \<open>length vs = 5\<close> by (auto simp: version_to_delete_def)
  next
    case False
    then show ?thesis
      using scan j \<open>length vs = 5\<close> by (auto simp: version_to_delete_def)
  qed
qed

definition example_versions :: "policy_version list" where
  "example_versions = map (\<lambda>(n, d, t). \<lparr>pv_id = JInt n, pv_default = d, pv_created = t\<rparr>)
     [(1, True, 10), (2, False, 20), (3, False, 15), (4, False, 30), (5, False, 40)]"

theorem version_to_delete_safe_witness:
  "\<exists>d. version_to_delete example_versions = Some d \<and> d < 5 \<and> d \<noteq> 0"
proof -
  have len: "length example_versions = 5" by (simp add: example_versions_def)
  have def0: "pv_default (example_versions ! 0)" by (simp add: example_versions_def)
  have only0: "\<forall>j < length example_versions. pv_default (example_versions ! j) \<longrightarrow> j = 0"
    by (simp add: example_versions_def nth_Cons' split: if_splits)
  show ?thesis
    using version_to_delete_safe [of 0 example_versions] len def0 only0 by auto
qed

section \<open>Resource policies\<close>

definition default_policy :: json where
  "default_policy = JObj [(''Version'', JStr ''2012-10-17''), (''Statement'', JList [])]"

text \<open>
  \<open>get_resource_policy\<close>: the policy of the resource, the empty default when the details cannot
  be read, hold no policy or hold one without statements.
\<close>

definition get_resource_policy ::
  "env \<Rightarrow> call_log \<Rightarrow> string \<Rightarrow> string \<Rightarrow> string \<Rightarrow> string option \<Rightarrow> json res" where
  "get_resource_policy env log account resource_type name region =
     bindE (case e_resource_details env log account resource_type name region of
              Inl (ClientError c m) \<Rightarrow> Inr (JObj [])
            | Inl e \<Rightarrow> Inl e
            | Inr details \<Rightarrow> Inr details) (\<lambda>details.
     bindE (str_in ''Policy'' details) (\<lambda>has_policy.
     bindE (if has_policy then
              bindE (jindex ''Policy'' details) (\<lambda>p. bindE (str_in ''Statement'' p) (\<lambda>s.
                Inr (\<not> s)))
            else Inr False) (\<lambda>blank.
     if blank then Inr default_policy else jget_or ''Policy'' default_policy details)))"

text \<open>
  \<open>generate_updated_resource_policy\<close>: one statement is appended. \<open>list(set(actions))\<close> has the
  order of the set, which Python leaves open; the model keeps last occurrences in order.
\<close>

definition new_statement :: "string \<Rightarrow> string list \<Rightarrow> string list \<Rightarrow> bool \<Rightarrow> json" where
  "new_statement grantee resource_arns actions include_resources =
     JObj ([(''Effect'', JStr ''Allow''),
            (''Principal'', JObj [(''AWS'', JList [JStr grantee])]),
            (''Action'', JList (map JStr (remdups actions)))] @
           (if include_resources then [(''Resource'', JList (map JStr resource_arns))] else []))"

definition generate_updated_resource_policy ::
  "json \<Rightarrow> string \<Rightarrow> string list \<Rightarrow> string list \<Rightarrow> bool \<Rightarrow> json res" where
  "generate_updated_resource_policy existing grantee resource_arns actions include_resources =
     bindE (jindex ''Statement'' existing) (\<lambda>statements. case statements of
        JList ss \<Rightarrow> jset ''Statement'' (JList (ss @
          [new_statement grantee resource_arns actions include_resources])) existing
      | _ \<Rightarrow> Inl (AttributeError ''append''))"

text \<open>C22: granting access through a resource policy keeps every statement of the existing policy
  in place and every other element of the document, and appends exactly one statement: an
  Allow for this principal that names the actions once each, with no resource when the
  document is a trust policy.\<close>

theorem updated_policy_extends:
  assumes "generate_updated_resource_policy existing arn resources actions inc = Inr updated"
  shows "\<exists>ss st. jget ''Statement'' existing = Inr (JList ss) \<and>
    jget ''Statement'' updated = Inr (JList (ss @ [st])) \<and>
    (\<forall>k. k \<noteq> ''Statement'' \<longrightarrow> jget k updated = jget k existing) \<and>
    jget ''Effect'' st = Inr (JStr ''Allow'') \<and>
    jget ''Principal'' st = Inr (JObj [(''AWS'', JList [JStr arn])]) \<and>
    (\<exists>as. jget ''Action'' st = Inr (JList (map JStr as)) \<and> distinct as \<and> set as = set actions) \<and>
    jget ''Resource'' st = Inr (if inc then JList (map JStr resources) else JNull)"
proof -
  from assms obtain v where v: "jindex ''Statement'' existing = Inr v"
    by (auto simp: generate_updated_resource_policy_def bindE_eq_Inr)
  with assms obtain ss where ss: "jindex ''Statement'' existing = Inr (JList ss)"
    and set: "jset ''Statement'' (JList (ss @ [new_statement arn resources actions inc])) existing
      = Inr updated"
    by (cases v) (simp_all add: generate_updated_resource_policy_def)
  have "jget ''Statement'' existing = Inr (JList ss)"
    using ss by (cases existing) (auto split: option.splits)
  moreover have "jget k updated = (if k = ''Statement''
      then Inr (JList (ss @ [new_statement arn resources actions inc])) else jget k existing)" for k
    using set by (rule jget_jset)
  moreover have "\<exists>as. jget ''Action'' (new_statement arn resources actions inc)
      = Inr (JList (map JStr as)) \<and> distinct as \<and> set as = set actions"
    by (rule exI [of _ "remdups actions"]) (simp add: new_statement_def)
  ultimately show ?thesis
    by (intro exI [of _ ss] exI [of _ "new_statement arn resources actions inc"])
      (simp add: new_statement_def)
qed

theorem updated_policy_extends_witness:
  "\<exists>updated. generate_updated_resource_policy default_policy ''arn:p'' [''arn:r'']
       [''s3:get'', ''s3:get''] True = Inr updated \<and>
     (\<exists>ss st. jget ''Statement'' updated = Inr (JList (ss @ [st])) \<and>
        jget ''Effect'' st = Inr (JStr ''Allow''))"
proof -
  obtain updated where u: "generate_updated_resource_policy default_policy ''arn:p'' [''arn:r'']
       [''s3:get'', ''s3:get''] True = Inr updated"
    by (simp add: generate_updated_resource_policy_def default_policy_def)
  show ?thesis using u updated_policy_extends [OF u] by blast
qed

lemma aws_do_frames [frames]:
  "tbl.keeps (aws_do env c)" "mls.keeps (aws_do env c)" "lg.keeps (aws_do env c)"
  "rw.keeps i (aws_do env c)"
  unfolding aws_do_def by (intro keeps_rules frames)+

lemma update_managed_policy_frames [frames]:
  "tbl.keeps (create_or_update_managed_policy env a p n arn d path ex)"
  "mls.keeps (create_or_update_managed_policy env a p n arn d path ex)"
  "lg.keeps (create_or_update_managed_policy env a p n arn d path ex)"
  unfolding create_or_update_managed_policy_def update_managed_policy_def create_managed_policy_def
  by (auto intro!: keeps_rules frames split: option.splits)

end
