(* ===== verification/Examples.thy ===== *)
theory Examples
  imports Aws
begin

text \<open>
  A small concrete environment on which the witnesses of the development run: one account, a
  role and a bucket in it, a bucket of a foreign account, the groups of an administrator and
  AWS answering every call.
\<close>

definition app_arn :: string where "app_arn = ''arn:aws:iam::123:role/app''"

definition own_bucket :: string where "own_bucket = ''arn:aws:s3:::own''"

definition foreign_bucket :: string where "foreign_bucket = ''arn:aws:s3:::foreign''"

definition example_parse_arn :: "string \<Rightarrow> arn_parts res" where
  "example_parse_arn a =
     (if a = app_arn then
        Inr \<lparr>pa_service = ''iam'', pa_region = Some [], pa_account = Some ''123'',
             pa_resource = ''role'', pa_resource_path = Some ''app''\<rparr>
      else if a = own_bucket then
        Inr \<lparr>pa_service = ''s3'', pa_region = Some [], pa_account = Some [],
             pa_resource = ''own'', pa_resource_path = None\<rparr>
      else if a = foreign_bucket then
        Inr \<lparr>pa_service = ''s3'', pa_region = Some [], pa_account = Some [],
             pa_resource = ''foreign'', pa_resource_path = None\<rparr>
      else Inl (PyException ''invalid ARN''))"

definition app_details :: aws_principal where
  "app_details = \<lparr>ap_inline_policies = [], ap_managed_policies = [],
     ap_assume_role_policy_document = JObj [(''Statement'', JList [])],
     ap_permissions_boundary = None\<rparr>"

definition example_cfg :: json where
  "example_cfg = JObj
     [(''groups'', JObj [(''can_admin'', JList [JStr ''admins''])]),
      (''application_admin'', JStr ''root'')]"

definition example_env :: env where
  "example_env = \<lparr>
     e_cfg = example_cfg,
     e_now = 1000,
     e_uuid = (\<lambda>n. replicate n CHR ''u''),
     e_random_string = (\<lambda>n. ''abcd''),
     e_parse_arn = example_parse_arn,
     e_account_from_arn = (\<lambda>a. if a = app_arn then ''123'' else []),
     e_resource_info = (\<lambda>a. None),
     e_s3_buckets = [(''123'', [''own''])],
     e_bucket_location = (\<lambda>log a b. Inr ''us-east-1''),
     e_accounts = [(''123'', ''prod'')],
     e_service_from_action = (\<lambda>a. hd (py_split CHR '':'' a)),
     e_principal_json = (\<lambda>p. ''p''),
     e_url_for_resource = (\<lambda>a. Inr ''/''),
     e_sha256 = (\<lambda>j. concat (json_strings j)),
     e_str = (\<lambda>j. concat (json_strings j)),
     e_aws = (\<lambda>log call. Inr JNull),
     e_fetch_iam_role = (\<lambda>log a r. Inr JNull),
     e_role_details = (\<lambda>log a r. Inr (Some app_details)),
     e_user_details = (\<lambda>log a r. Inr None),
     e_managed_policy_document = (\<lambda>log a r. Inl (ClientError ''NoSuchEntity'' [])),
     e_resource_details = (\<lambda>log a t n r. Inr (JObj [])),
     e_put_item = (\<lambda>n. None)\<rparr>"

lemma example_env_simps [simp]:
  "e_cfg example_env = example_cfg"
  "e_now example_env = 1000"
  "e_uuid example_env n = replicate n CHR ''u''"
  "e_random_string example_env n = ''abcd''"
  "e_parse_arn example_env = example_parse_arn"
  "e_account_from_arn example_env a = (if a = app_arn then ''123'' else [])"
  "e_resource_info example_env a = None"
  "e_s3_buckets example_env = [(''123'', [''own''])]"
  "e_bucket_location example_env log a b = Inr ''us-east-1''"
  "e_accounts example_env = [(''123'', ''prod'')]"
  "e_sha256 example_env j = concat (json_strings j)"
  "e_str example_env j = concat (json_strings j)"
  "e_aws example_env log call = Inr JNull"
  "e_fetch_iam_role example_env log a r = Inr JNull"
  "e_role_details example_env log a r = Inr (Some app_details)"
  "e_user_details example_env log a r = Inr None"
  "e_managed_policy_document example_env log a r = Inl (ClientError ''NoSuchEntity'' [])"
  "e_resource_details example_env log a t nm rg = Inr (JObj [])"
  "e_put_item example_env n = None"
  "e_principal_json example_env p = ''p''"
  "e_url_for_resource example_env a = Inr ''/''"
  by (simp_all add: example_env_def)

lemma example_parse_arn_simps [simp]:
  "example_parse_arn app_arn =
     Inr \<lparr>pa_service = ''iam'', pa_region = Some [], pa_account = Some ''123'',
          pa_resource = ''role'', pa_resource_path = Some ''app''\<rparr>"
  "example_parse_arn own_bucket =
     Inr \<lparr>pa_service = ''s3'', pa_region = Some [], pa_account = Some [],
          pa_resource = ''own'', pa_resource_path = None\<rparr>"
  "example_parse_arn foreign_bucket =
     Inr \<lparr>pa_service = ''s3'', pa_region = Some [], pa_account = Some [],
          pa_resource = ''foreign'', pa_resource_path = None\<rparr>"
  by (simp_all add: example_parse_arn_def app_arn_def own_bucket_def foreign_bucket_def)

lemma example_arns_simps [simp]:
  "own_bucket \<noteq> app_arn" "foreign_bucket \<noteq> app_arn"
  "substring ''arn:aws:s3:::'' own_bucket" "substring ''arn:aws:s3:::'' foreign_bucket"
  "last_part CHR '':'' own_bucket = ''own''" "last_part CHR '':'' foreign_bucket = ''foreign''"
  by (simp_all add: app_arn_def own_bucket_def foreign_bucket_def substring_def last_part_def)

lemma example_accounts_simps [simp]:
  "get_resource_account example_env app_arn = Inr ''123''"
  "get_resource_account example_env own_bucket = Inr ''123''"
  "get_resource_account example_env foreign_bucket = Inr []"
  by (simp_all add: get_resource_account_def)

text \<open>Changes and a request to run on.\<close>

definition blank_change :: change where
  "blank_change = \<lparr>ch_principal = Aws_resource app_arn, ch_type = Inline_policy,
     ch_resources = [], ch_status = Not_applied, ch_id = Some ''c1'', ch_autogenerated = False,
     ch_updated_by = None, ch_expiration_date = None, ch_policy_name = Some ''pol'',
     ch_new = True, ch_action = Some Attach, ch_policy = None, ch_old_policy = None,
     ch_arn = app_arn, ch_source_change_id = None, ch_supported = None,
     ch_original_key = None, ch_key = None, ch_original_value = None, ch_value = None,
     ch_tag_action = None\<rparr>"

lemma blank_change_simps [simp]:
  "ch_principal blank_change = Aws_resource app_arn" "ch_type blank_change = Inline_policy"
  "ch_resources blank_change = []" "ch_status blank_change = Not_applied"
  "ch_id blank_change = Some ''c1''" "ch_autogenerated blank_change = False"
  "ch_policy_name blank_change = Some ''pol''" "ch_new blank_change = True"
  "ch_action blank_change = Some Attach" "ch_policy blank_change = None"
  "ch_old_policy blank_change = None" "ch_arn blank_change = app_arn"
  "ch_source_change_id blank_change = None" "ch_supported blank_change = None"
  "ch_updated_by blank_change = None" "ch_expiration_date blank_change = None"
  by (simp_all add: blank_change_def)

definition example_policy :: policy_model where
  "example_policy = \<lparr>pm_version = None, pm_document = JObj [(''Statement'', JList
     [JObj [(''Effect'', JStr ''Allow''), (''Action'', JStr ''s3:GetObject''),
            (''Resource'', JList [JStr own_bucket])]])], pm_sha256 = None\<rparr>"

definition inline_change :: change where
  "inline_change = blank_change\<lparr>ch_policy := Some example_policy\<rparr>"

definition bucket_change :: "string \<Rightarrow> change" where
  "bucket_change arn = blank_change\<lparr>ch_type := Resource_policy, ch_id := Some ''c2'',
     ch_arn := arn, ch_source_change_id := Some ''c1'', ch_autogenerated := True\<rparr>"

definition example_request :: "change list \<Rightarrow> extended_request" where
  "example_request cs = \<lparr>er_id = ''r1'', er_request_url = None,
     er_principal = Aws_resource app_arn, er_timestamp = 900, er_justification = None,
     er_requester_email = ''dev'', er_request_status = Pending, er_cross_account = False,
     er_arn_url = [], er_admin_auto_approve = False, er_changes = cs, er_reviewer = None,
     er_comments = []\<rparr>"

lemma example_request_simps [simp]:
  "er_id (example_request cs) = ''r1''"
  "er_principal (example_request cs) = Aws_resource app_arn"
  "er_requester_email (example_request cs) = ''dev''"
  "er_request_status (example_request cs) = Pending"
  "er_changes (example_request cs) = cs" "er_reviewer (example_request cs) = None"
  "er_comments (example_request cs) = []" "er_admin_auto_approve (example_request cs) = False"
  by (simp_all add: example_request_def)

definition example_world :: "extended_request \<Rightarrow> world" where
  "example_world er = \<lparr>w_calls = [],
     w_table = [er_id er \<mapsto> \<lparr>sr_request = er, sr_last_updated = 900\<rparr>], w_puts = 0,
     w_mails = [], w_refreshed = [], w_uuids = 0\<rparr>"

lemma example_world_simps [simp]:
  "w_calls (example_world er) = []" "w_mails (example_world er) = []" "w_puts (example_world er) = 0"
  "w_table (example_world er) = [er_id er \<mapsto> \<lparr>sr_request = er, sr_last_updated = 900\<rparr>]"
  by (simp_all add: example_world_def)

text \<open>Running fallible code in a witness: it gives a value with a property.\<close>

definition yields :: "'a res \<Rightarrow> ('a \<Rightarrow> bool) \<Rightarrow> bool" where
  "yields r P \<longleftrightarrow> (case r of Inl e \<Rightarrow> False | Inr a \<Rightarrow> P a)"

lemma yieldsE: "yields r P \<Longrightarrow> \<exists>a. r = Inr a \<and> P a"
  by (auto simp: yields_def split: sum.splits)

end
