(* ===== verification/Validate.thy ===== *)
theory Validate
  imports Examples
begin

text \<open>
  The validation of the changes of a new request against the principal as it is
  (consoleme/lib/v2/requests.py 600-839), the character check of consoleme/lib/policies.py and
  the naming of inline policies (consoleme/lib/change_request.py). A validator returns nothing
  or raises.
\<close>

section \<open>Characters\<close>

text \<open>
  \<open>invalid_characters_in_policy\<close>: \<open>in\<close> looks for a substring of a string, but only at the keys
  of a dictionary.
\<close>

definition invalid_characters_in_policy :: "json \<Rightarrow> bool res" where
  "invalid_characters_in_policy v =
     (if \<not> truthy v then Inr False
      else bindE (str_in ''<'' v) (\<lambda>l. if l then Inr True else str_in ''>'' v))"

text \<open>The check of several values, which stops at the first invalid one.\<close>

fun any_invalid :: "json list \<Rightarrow> bool res" where
  "any_invalid [] = Inr False"
| "any_invalid (v # vs) = bindE (invalid_characters_in_policy v) (\<lambda>b.
     if b then Inr True else any_invalid vs)"

definition name_json :: "string option \<Rightarrow> json" where
  "name_json s = (case s of None \<Rightarrow> JNull | Some v \<Rightarrow> JStr v)"

definition the_policy :: "change \<Rightarrow> policy_model res" where
  "the_policy c = (case ch_policy c of
      None \<Rightarrow> Inl (AttributeError ''policy_document'') | Some p \<Rightarrow> Inr p)"

definition refuse :: "string \<Rightarrow> 'a res" where
  "refuse m = Inl (InvalidRequestParameter m)"

section \<open>Inline policies\<close>

text \<open>
  The loop over the principal's inline policies: a new policy must not take an existing name, an
  update must change the document. The result says whether the name was seen.
\<close>

fun check_existing_inline :: "change \<Rightarrow> json \<Rightarrow> bool \<Rightarrow> (string \<times> json) list \<Rightarrow> bool res" where
  "check_existing_inline c doc seen [] = Inr seen"
| "check_existing_inline c doc seen ((name, existing) # rest) =
     (let same_name = (ch_policy_name c = Some name) in
      if ch_new c \<and> same_name then
        refuse (''Inline Policy with the name '' @ name @ '' already exists.'')
      else if \<not> ch_new c \<and> json_eq doc existing \<and> same_name \<and> ch_action c = Some Attach then
        refuse (''No changes were found between the updated and existing policy for policy '' @
          name @ ''.'')
      else check_existing_inline c doc (seen \<or> same_name) rest)"

text \<open>The message about a name that is not attached shows \<open>seen_policy_name\<close>, which is False.\<close>

definition validate_inline_policy_change :: "change \<Rightarrow> aws_principal \<Rightarrow> unit res" where
  "validate_inline_policy_change c role =
     bindE (the_policy c) (\<lambda>p.
     bindE (any_invalid [pm_document p, name_json (ch_policy_name c), name_json (pm_version p)])
       (\<lambda>bad.
     if bad then refuse ''Invalid characters were detected in the policy.''
     else if ch_new c \<and> ch_action c = Some Detach then
       refuse (''Can'' @ [CHR 39] @ ''t detach an inline policy that is new.'')
     else
       bindE (check_existing_inline c (pm_document p) False (ap_inline_policies role)) (\<lambda>seen.
       if ch_action c = Some Detach \<and> \<not> seen then
         refuse (''An inline policy named '' @ [CHR 39] @ ''False'' @ [CHR 39] @
           '' is not attached, so we cannot remove it'')
       else if ch_action c = Some Attach \<and> \<not> seen \<and> \<not> ch_new c then
         refuse (''Inline policy '' @ str_or (ch_policy_name c) ''None'' @
           '' not seen but request claims change is not new'')
       else Inr ())))"

section \<open>Permissions boundaries and managed policies\<close>

definition validate_permissions_boundary_change :: "change \<Rightarrow> aws_principal \<Rightarrow> unit res" where
  "validate_permissions_boundary_change c role =
     bindE (invalid_characters_in_policy (JStr (last_part CHR ''/'' (ch_arn c)))) (\<lambda>bad.
     if bad then refuse ''Invalid characters were detected in the policy name.''
     else case ch_action c of
         Some Attach \<Rightarrow>
           (if ap_permissions_boundary role = None \<or> ap_permissions_boundary role = Some None
            then Inr ()
            else refuse (''A permissions boundary is already attached to this role. '' @
              ''Only one permission boundary can be attached to a role.''))
       | Some Detach \<Rightarrow>
           (case ap_permissions_boundary role of
              None \<Rightarrow> Inl (AttributeError ''get'')
            | Some b \<Rightarrow> if b = Some (ch_arn c) then Inr ()
                        else refuse (ch_arn c @
                          '' is not attached to this role as a permissions boundary''))
       | None \<Rightarrow> Inr ())"

definition validate_managed_policy_change :: "change \<Rightarrow> aws_principal \<Rightarrow> unit res" where
  "validate_managed_policy_change c role =
     bindE (invalid_characters_in_policy (JStr (last_part CHR ''/'' (ch_arn c)))) (\<lambda>bad.
     if bad then refuse ''Invalid characters were detected in the policy name.''
     else case ch_action c of
         Some Attach \<Rightarrow> if ch_arn c \<in> set (ap_managed_policies role)
           then refuse (ch_arn c @ '' already attached to this role'') else Inr ()
       | Some Detach \<Rightarrow> if ch_arn c \<notin> set (ap_managed_policies role)
           then refuse (ch_arn c @ '' is not attached to this role'') else Inr ()
       | None \<Rightarrow> Inr ())"

text \<open>The policy as AWS has it, null when there is none.\<close>

definition validate_managed_policy_resource_change ::
  "change \<Rightarrow> string \<Rightarrow> json \<Rightarrow> unit res" where
  "validate_managed_policy_resource_change c policy_name existing =
     bindE (invalid_characters_in_policy (JStr policy_name)) (\<lambda>bad_name.
     bindE (if bad_name then Inr True
            else bindE (the_policy c) (\<lambda>p. invalid_characters_in_policy (pm_document p))) (\<lambda>bad.
     if bad then refuse ''Invalid characters were detected in the policy name or document.''
     else if ch_new c \<and> truthy existing then refuse ''Managed policy with that ARN already exists''
     else if \<not> ch_new c \<and> \<not> truthy existing then
       refuse (''Managed policy with that ARN doesn'' @ [CHR 39] @ ''t exist'')
     else if \<not> ch_new c then
       bindE (the_policy c) (\<lambda>p.
         if json_eq (pm_document p) existing
         then refuse ''No changes detected between current and proposed policy''
         else Inr ())
     else Inr ()))"

section \<open>Tags and trust policies\<close>

definition validate_resource_tag_change :: "change \<Rightarrow> aws_principal \<Rightarrow> unit res" where
  "validate_resource_tag_change c role = Inr ()"

definition validate_assume_role_policy_change :: "change \<Rightarrow> aws_principal \<Rightarrow> unit res" where
  "validate_assume_role_policy_change c role =
     bindE (the_policy c) (\<lambda>p.
     bindE (any_invalid [pm_document p, name_json (pm_version p)]) (\<lambda>bad.
     if bad then refuse ''Invalid characters were detected in the policy.''
     else if json_eq (pm_document p) (ap_assume_role_policy_document role)
     then refuse ''No changes were found between the updated and existing assume role policy.''
     else Inr ()))"

section \<open>Names\<close>

text \<open>Decimal digits, as \<open>str\<close> prints an integer.\<close>

fun nat_str :: "nat \<Rightarrow> string" where
  "nat_str n = (if n < 10 then [char_of (48 + n)] else nat_str (n div 10) @ [char_of (48 + n mod 10)])"

declare nat_str.simps [simp del]

definition int_str :: "int \<Rightarrow> string" where
  "int_str i = (if i < 0 then CHR ''-'' # nat_str (nat (- i)) else nat_str (nat i))"

definition generate_random_string :: "env \<Rightarrow> (world, string) io" where
  "generate_random_string env =
     (\<lambda>w. (Inr (e_random_string env (w_uuids w)), w\<lparr>w_uuids := Suc (w_uuids w)\<rparr>))"

definition generate_policy_name ::
  "env \<Rightarrow> string option \<Rightarrow> string \<Rightarrow> int option \<Rightarrow> (world, string) io" where
  "generate_policy_name env policy_name user expiration_date =
     bindW (liftW (config_get (e_cfg env) ''policies.temp_policy_prefix'' (JStr ''cm_delete-on'')))
       (\<lambda>temp_policy_prefix.
     if truthy_str policy_name then retW (str_or policy_name [])
     else
       (let user_stripped = hd (py_split CHR ''@'' user) in
        bindW (generate_random_string env) (\<lambda>random_string.
          case expiration_date of
            Some d \<Rightarrow> if d \<noteq> 0
              then retW (e_str env temp_policy_prefix @ ''_'' @ int_str d @ ''_'' @ user_stripped @
                ''_'' @ int_str (e_now env))
              else retW (''cm_'' @ user_stripped @ ''_'' @ int_str (e_now env) @ ''_'' @ random_string)
          | None \<Rightarrow> retW (''cm_'' @ user_stripped @ ''_'' @ int_str (e_now env) @ ''_'' @
              random_string))))"

section \<open>Properties\<close>

text \<open>Reading the digits back.\<close>

definition digits_value :: "string \<Rightarrow> nat" where
  "digits_value = foldl (\<lambda>a c. a * 10 + (of_char c - 48)) 0"

lemma digits_value_snoc: "digits_value (s @ [c]) = digits_value s * 10 + (of_char c - 48)"
  by (simp add: digits_value_def)

lemma digit_char: "d < 10 \<Longrightarrow> of_char (char_of (48 + d :: nat)) - 48 = d"
  by (simp add: of_char_of)

lemma digits_value_nat_str: "digits_value (nat_str n) = n"
proof (induction n rule: nat_str.induct)
  case (1 n)
  show ?case
  proof (cases "n < 10")
    case True
    then show ?thesis
      by (subst nat_str.simps) (simp add: digits_value_def digit_char)
  next
    case False
    have "digits_value (nat_str n) = digits_value (nat_str (n div 10)) * 10 + n mod 10"
      using False digit_char [of "n mod 10"]
      by (subst nat_str.simps) (simp add: digits_value_snoc)
    also have "\<dots> = n" using "1.IH" False by simp
    finally show ?thesis .
  qed
qed

lemma nat_str_inj: "nat_str m = nat_str n \<longleftrightarrow> m = n"
  using digits_value_nat_str by metis

lemma nat_str_digits: "c \<in> set (nat_str n) \<Longrightarrow> 48 \<le> (of_char c :: nat) \<and> (of_char c :: nat) \<le> 57"
proof (induction n rule: nat_str.induct)
  case (1 n)
  from "1.prems" have c: "c \<in> set (if n < 10 then [char_of (48 + n)]
      else nat_str (n div 10) @ [char_of (48 + n mod 10)])"
    by (subst (asm) nat_str.simps)
  show ?case
  proof (cases "n < 10")
    case True
    with c show ?thesis by (simp add: of_char_of)
  next
    case False
    have "n mod 10 < 10" by simp
    with c False "1.IH" show ?thesis by (auto simp: of_char_of)
  qed
qed

text \<open>What the loop over the existing policies decides.\<close>

lemma check_existing_inline_spec:
  "check_existing_inline c doc seen ps = Inr seen' \<longleftrightarrow>
     seen' = (seen \<or> (\<exists>(n, d) \<in> set ps. ch_policy_name c = Some n)) \<and>
     (\<forall>(n, d) \<in> set ps. ch_policy_name c = Some n \<longrightarrow>
        \<not> ch_new c \<and> \<not> (json_eq doc d \<and> ch_action c = Some Attach))"
proof (induction c doc seen ps rule: check_existing_inline.induct)
  case (1 c doc seen)
  then show ?case by auto
next
  case (2 c doc seen name existing rest)
  then show ?case by (auto simp: Let_def refuse_def)
qed



text \<open>C33: the character check does not look into documents: a policy document is a dictionary, and
  \<open>in\<close> asks for a key that is exactly the character, so a document is accepted whatever its
  statements contain.\<close>

theorem documents_not_checked:
  assumes "''<'' \<notin> fst ` set kvs" and "''>'' \<notin> fst ` set kvs"
  shows "invalid_characters_in_policy (JObj kvs) = Inr False"
  using assms by (simp add: invalid_characters_in_policy_def)

theorem documents_not_checked_witness:
  "invalid_characters_in_policy (JObj [(''Statement'', JStr ''<script>'')]) = Inr False \<and>
   invalid_characters_in_policy (JStr ''<script>'') = Inr True"
proof
  show "invalid_characters_in_policy (JObj [(''Statement'', JStr ''<script>'')]) = Inr False"
    by (rule documents_not_checked) simp_all
  show "invalid_characters_in_policy (JStr ''<script>'') = Inr True"
    by code_simp
qed

end
