(* ===== verification/Populate.thy ===== *)
theory Populate
  imports Examples
begin

text \<open>
  Keeping a request up to date with AWS (consoleme/lib/v2/requests.py): the current policy is
  stored beside the proposed one for inline and trust policies (\<open>populate_old_policies\<close>) and
  for managed policies, and the policies of resources in other accounts are regenerated when
  they have changed since the request was last looked at. The functions mutate the changes of
  the request; here they return the request with the changes replaced.
\<close>

section \<open>Inline and trust policies\<close>

definition snapshot :: "env \<Rightarrow> json \<Rightarrow> policy_model" where
  "snapshot env doc = \<lparr>pm_version = None, pm_document = doc, pm_sha256 = Some (e_sha256 env doc)\<rparr>"

text \<open>The attributes of a principal that was not found cannot be read.\<close>

definition the_principal :: "aws_principal option \<Rightarrow> aws_principal res" where
  "the_principal p = (case p of None \<Rightarrow> Inl (AttributeError ''inline_policies'') | Some q \<Rightarrow> Inr q)"

definition populate_old_policy :: "env \<Rightarrow> aws_principal option \<Rightarrow> change \<Rightarrow> change res" where
  "populate_old_policy env p c =
     (if ch_status c = Applied then Inr c
      else if ch_type c = Assume_role_policy then
        bindE (the_principal p) (\<lambda>q.
          Inr (c\<lparr>ch_old_policy := Some (snapshot env (ap_assume_role_policy_document q))\<rparr>))
      else if ch_type c = Inline_policy \<and> \<not> ch_new c then
        bindE (the_principal p) (\<lambda>q.
          Inr (case find (\<lambda>(n, d). ch_policy_name c = Some n) (ap_inline_policies q) of
                 None \<Rightarrow> c
               | Some (n, d) \<Rightarrow> c\<lparr>ch_old_policy := Some (snapshot env d)\<rparr>))
      else Inr c)"

definition is_role_or_user :: "arn_parts \<Rightarrow> bool" where
  "is_role_or_user p \<longleftrightarrow>
     pa_service p = ''iam'' \<and> (pa_resource p = ''role'' \<or> pa_resource p = ''user'')"

text \<open>\<open>get_role_details\<close> or \<open>get_user_details\<close>, whichever the ARN names.\<close>

definition principal_details ::
  "env \<Rightarrow> call_log \<Rightarrow> string \<Rightarrow> arn_parts \<Rightarrow> string \<Rightarrow> aws_principal option res" where
  "principal_details env log account p name =
     (if pa_resource p = ''role'' then e_role_details env log account name
      else if pa_resource p = ''user'' then e_user_details env log account name
      else Inr None)"

definition populate_old_policies ::
  "env \<Rightarrow> call_log \<Rightarrow> extended_request \<Rightarrow> aws_principal option \<Rightarrow> extended_request res" where
  "populate_old_policies env log er given =
     (let populate = (\<lambda>p. bindE (mapE (populate_old_policy env p) (er_changes er))
                       (\<lambda>cs. Inr (er\<lparr>er_changes := cs\<rparr>)))
      in case er_principal er of
           Honeybee_template r i u \<Rightarrow> populate given
         | Aws_resource arn \<Rightarrow>
             bindE (get_resource_account env arn) (\<lambda>account.
             bindE (e_parse_arn env arn) (\<lambda>p.
             if \<not> is_role_or_user p then Inr er
             else bindE (resource_path_name p) (\<lambda>name.
               bindE (case given of Some q \<Rightarrow> Inr (Some q)
                      | None \<Rightarrow> principal_details env log account p name) populate))))"

section \<open>Managed policies\<close>

definition populate_old_managed_policy :: "env \<Rightarrow> json \<Rightarrow> change \<Rightarrow> bool \<times> change" where
  "populate_old_managed_policy env resource c =
     (if ch_status c = Applied \<or> ch_type c \<noteq> Managed_policy_resource then (False, c)
      else if truthy resource then
        (case ch_old_policy c of
           Some old \<Rightarrow> if pm_sha256 old = Some (e_sha256 env resource) then (False, c)
                       else (True, c\<lparr>ch_old_policy := Some (snapshot env resource)\<rparr>)
         | None \<Rightarrow> (True, c\<lparr>ch_old_policy := Some (snapshot env resource)\<rparr>))
      else (False, c))"

text \<open>The result's \<open>changed\<close> flag and the request.\<close>

definition refresh_managed :: "env \<Rightarrow> json \<Rightarrow> extended_request \<Rightarrow> bool \<times> extended_request" where
  "refresh_managed env resource er =
     (let rs = map (populate_old_managed_policy env resource) (er_changes er)
      in (list_ex fst rs, er\<lparr>er_changes := map snd rs\<rparr>))"

definition populate_old_managed_policies ::
  "env \<Rightarrow> call_log \<Rightarrow> extended_request \<Rightarrow> (bool \<times> extended_request) res" where
  "populate_old_managed_policies env log er =
     (case er_principal er of
        Honeybee_template r i u \<Rightarrow> Inr (False, er)
      | Aws_resource arn \<Rightarrow>
          bindE (e_parse_arn env arn) (\<lambda>p.
          if pa_service p \<noteq> ''iam'' \<or> pa_resource p \<noteq> ''policy'' then Inr (False, er)
          else case e_managed_policy_document env log (str_or (pa_account p) []) arn of
              Inl (ClientError code m) \<Rightarrow>
                if code = ''NoSuchEntity'' then Inr (False, er) else Inl (ClientError code m)
            | Inl e \<Rightarrow> Inl e
            | Inr resource \<Rightarrow> Inr (refresh_managed env resource er)))"

section \<open>Policies of resources in other accounts\<close>

definition supported_resource_types :: "env \<Rightarrow> string list res" where
  "supported_resource_types env =
     config_strs (e_cfg env) ''policies.supported_resource_types_for_policy_application''
       [''s3'', ''sqs'', ''sns'']"

definition supported_trust_policy_permissions :: "env \<Rightarrow> string list res" where
  "supported_trust_policy_permissions env =
     config_strs (e_cfg env) ''policies.supported_trust_policy_permissions''
       [''sts:AssumeRole'', ''sts:TagSession'', ''sts:AssumeRoleWithSAML'',
        ''sts:AssumeRoleWithWebIdentity'']"

definition sts_resource_policy_supported :: "env \<Rightarrow> bool res" where
  "sts_resource_policy_supported env =
     config_flag (e_cfg env) ''policies.sts_resource_policy_supported'' True"

text \<open>
  The actions and resources of the source inline policy that concern the resource: from each
  statement whose \<open>Resource\<close> contains the ARN, the actions of the resource's service (or the
  supported trust policy actions) and the resources that contain the ARN. A statement whose
  \<open>Resource\<close> is one string is searched as a string, and the loop over it sees its characters.
\<close>

definition statement_actions ::
  "string \<Rightarrow> change_type \<Rightarrow> string list \<Rightarrow> json \<Rightarrow> string list res" where
  "statement_actions resource_type ctype permissions statement =
     bindE (jget_or ''Action'' (JList []) statement) (\<lambda>a.
     bindE (mapE the_str (as_list a)) (\<lambda>actions.
       Inr (filter (\<lambda>action.
              (starts_with action (resource_type @ '':'') \<or>
               (resource_type = ''iam'' \<and> starts_with action ''sts'')) \<and>
              (ctype = Sts_resource_policy \<longrightarrow> action \<in> set permissions)) actions)))"

definition statement_resources :: "string \<Rightarrow> json \<Rightarrow> string list res" where
  "statement_resources arn statement =
     bindE (jget ''Resource'' statement) (\<lambda>r.
     bindE (jiter r) (\<lambda>rs.
     bindE (mapE the_str rs) (\<lambda>names. Inr (filter (substring arn) names))))"

fun source_statements ::
  "string \<Rightarrow> string \<Rightarrow> change_type \<Rightarrow> string list \<Rightarrow> json list \<Rightarrow> (string list \<times> string list) res" where
  "source_statements arn resource_type ctype permissions [] = Inr ([], [])"
| "source_statements arn resource_type ctype permissions (st # sts) =
     bindE (bindE (jget ''Resource'' st) (str_in arn)) (\<lambda>concerned.
     bindE (if concerned
            then bindE (statement_actions resource_type ctype permissions st) (\<lambda>as.
                 bindE (statement_resources arn st) (\<lambda>rs. Inr (as, rs)))
            else Inr ([], [])) (\<lambda>(as, rs).
     bindE (source_statements arn resource_type ctype permissions sts) (\<lambda>(as', rs').
       Inr (as @ as', rs @ rs'))))"

fun source_actions ::
  "string \<Rightarrow> string \<Rightarrow> change \<Rightarrow> string list \<Rightarrow> change list \<Rightarrow> (string list \<times> string list) res" where
  "source_actions arn resource_type c permissions [] = Inr ([], [])"
| "source_actions arn resource_type c permissions (s # ss) =
     bindE (if ch_type s = Inline_policy \<and> ch_id s = ch_source_change_id c
            then bindE (policy_document s) (\<lambda>doc.
                 bindE (bindE (jget_or ''Statement'' (JList []) doc) jiter)
                   (source_statements arn resource_type (ch_type c) permissions))
            else Inr ([], [])) (\<lambda>(as, rs).
     bindE (source_actions arn resource_type c permissions ss) (\<lambda>(as', rs').
       Inr (as @ as', rs @ rs')))"

text \<open>
  The policy a resource has now, with the \<open>supported\<close> flag the change gets: \<open>None\<close> when the
  role a trust policy belongs to cannot be retrieved. A resource of no known account of the
  organization is not supported and gets the default policy.
\<close>

definition current_resource_policy ::
  "env \<Rightarrow> call_log \<Rightarrow> change \<Rightarrow> arn_parts \<Rightarrow> string \<Rightarrow> bool \<Rightarrow> (bool \<times> json option) res" where
  "current_resource_policy env log c p account supported =
     (if account = [] \<or> account \<notin> fst ` set (e_accounts env)
      then Inr (False, Some default_policy)
      else if ch_type c = Resource_policy then
        bindE (get_resource_policy env log account (pa_service p) (pa_resource p) (pa_region p))
          (\<lambda>d. Inr (supported, Some d))
      else bindE (resource_path_name p) (\<lambda>name.
           bindE (e_role_details env log account name) (\<lambda>role.
             Inr (supported, map_option ap_assume_role_policy_document role))))"

text \<open>
  The generated policy: the resource's policy extended by a statement that grants the
  request's principal what the source inline policy asks for.
\<close>

definition regenerated_policy ::
  "env \<Rightarrow> extended_request \<Rightarrow> change \<Rightarrow> string \<Rightarrow> string list \<Rightarrow> json \<Rightarrow> json res" where
  "regenerated_policy env er c resource_type permissions old =
     bindE (source_actions (ch_arn c) resource_type c permissions (er_changes er))
       (\<lambda>(actions, resources).
     bindE (principal_arn (er_principal er)) (\<lambda>arn.
       generate_updated_resource_policy old arn (remdups resources) actions
         (ch_type c = Resource_policy)))"

text \<open>
  What the coroutine does once it knows the resource's current policy: nothing when its hash
  is the stored one, else store it and, for an autogenerated change, rebuild the proposal.
\<close>

definition policy_unchanged :: "env \<Rightarrow> change \<Rightarrow> json \<Rightarrow> bool" where
  "policy_unchanged env c current = (case ch_old_policy c of
      None \<Rightarrow> False | Some old \<Rightarrow> pm_sha256 old = Some (e_sha256 env current))"

definition store_current_policy ::
  "env \<Rightarrow> extended_request \<Rightarrow> change \<Rightarrow> string \<Rightarrow> string list \<Rightarrow> bool \<times> json option
     \<Rightarrow> (bool \<times> change) res" where
  "store_current_policy env er c resource_type permissions found =
     (let c' = c\<lparr>ch_supported := Some (fst found)\<rparr>
      in case snd found of
           None \<Rightarrow> Inr (False, c')
         | Some current \<Rightarrow>
             if policy_unchanged env c current then Inr (False, c')
             else if \<not> ch_autogenerated c
               then Inr (True, c'\<lparr>ch_old_policy := Some (snapshot env current)\<rparr>)
             else
               bindE (regenerated_policy env er c resource_type permissions current)
                 (\<lambda>new_policy.
                   Inr (True, c'\<lparr>ch_old_policy := Some (snapshot env current),
                                ch_policy := Some (snapshot env new_policy)\<rparr>)))"

text \<open>\<open>resource_arn_parsed["account"]\<close>, else \<open>get_resource_account\<close>.\<close>

definition owner_account :: "env \<Rightarrow> string \<Rightarrow> arn_parts \<Rightarrow> string res" where
  "owner_account env arn p =
     (if truthy_str (pa_account p) then Inr (str_or (pa_account p) [])
      else get_resource_account env arn)"

text \<open>
  \<open>populate_cross_account_resource_policy_for_change\<close>: whether the old policy has changed,
  and the change.
\<close>

definition populate_cross_account_for_change ::
  "env \<Rightarrow> call_log \<Rightarrow> extended_request \<Rightarrow> change \<Rightarrow> (bool \<times> change) res" where
  "populate_cross_account_for_change env log er c =
     bindE (supported_resource_types env) (\<lambda>types.
     bindE (sts_resource_policy_supported env) (\<lambda>sts_supported.
     bindE (supported_trust_policy_permissions env) (\<lambda>permissions.
     if ch_status c = Applied \<or> \<not> is_resource_policy_type (ch_type c) then Inr (False, c)
     else
       bindE (e_parse_arn env (ch_arn c)) (\<lambda>p.
       bindE (owner_account env (ch_arn c) p) (\<lambda>account.
       bindE (current_resource_policy env log c p account
                (pa_service p \<in> set types \<or> ch_type c = Sts_resource_policy \<and> sts_supported))
         (store_current_policy env er c (pa_service p) permissions))))))"

text \<open>
  \<open>populate_cross_account_resource_policies\<close> gathers the coroutines of all changes. Each of
  them writes its own change only and reads, of the others, inline policies, which none
  writes, so they are run one after the other on the request as it was.
\<close>

definition populate_cross_account_resource_policies ::
  "env \<Rightarrow> call_log \<Rightarrow> extended_request \<Rightarrow> (bool \<times> extended_request) res" where
  "populate_cross_account_resource_policies env log er =
     bindE (principal_arn (er_principal er)) (\<lambda>_.
     bindE (mapE (populate_cross_account_for_change env log er) (er_changes er)) (\<lambda>rs.
       Inr (list_ex fst rs, er\<lparr>er_changes := map snd rs\<rparr>)))"

section \<open>What populating keeps\<close>

text \<open>Only the stored policies and the \<open>supported\<close> flag of a change may differ.\<close>

definition same_but_policies :: "change \<Rightarrow> change \<Rightarrow> bool" where
  "same_but_policies c c' \<longleftrightarrow>
     c' = c\<lparr>ch_policy := ch_policy c', ch_old_policy := ch_old_policy c',
            ch_supported := ch_supported c'\<rparr>"

lemma same_but_policies_refl [simp]: "same_but_policies c c"
  by (simp add: same_but_policies_def)

lemma same_but_policies_upd [simp]:
  "same_but_policies c (c\<lparr>ch_old_policy := x\<rparr>)" "same_but_policies c (c\<lparr>ch_supported := y\<rparr>)"
  "same_but_policies c (c\<lparr>ch_supported := y, ch_old_policy := x\<rparr>)"
  "same_but_policies c (c\<lparr>ch_supported := y, ch_old_policy := x, ch_policy := z\<rparr>)"
  by (simp_all add: same_but_policies_def)

lemma same_but_policiesD:
  assumes "same_but_policies c c'"
  shows "ch_id c' = ch_id c" "ch_type c' = ch_type c" "ch_status c' = ch_status c"
    "ch_principal c' = ch_principal c" "ch_autogenerated c' = ch_autogenerated c"
    "ch_updated_by c' = ch_updated_by c" "ch_arn c' = ch_arn c"
    "ch_source_change_id c' = ch_source_change_id c" "ch_action c' = ch_action c"
    "ch_policy_name c' = ch_policy_name c"
proof -
  obtain x y z where "c' = c\<lparr>ch_policy := x, ch_old_policy := y, ch_supported := z\<rparr>"
    using assms by (auto simp: same_but_policies_def)
  then show "ch_id c' = ch_id c" "ch_type c' = ch_type c" "ch_status c' = ch_status c"
    "ch_principal c' = ch_principal c" "ch_autogenerated c' = ch_autogenerated c"
    "ch_updated_by c' = ch_updated_by c" "ch_arn c' = ch_arn c"
    "ch_source_change_id c' = ch_source_change_id c" "ch_action c' = ch_action c"
    "ch_policy_name c' = ch_policy_name c"
    by simp_all
qed

text \<open>
  A refresh of one change: applied changes stay as they are, of the others only the policies
  and the \<open>supported\<close> flag may differ.
\<close>

definition refreshes :: "change \<Rightarrow> change \<Rightarrow> bool" where
  "refreshes c c' \<longleftrightarrow> same_but_policies c c' \<and> (ch_status c = Applied \<longrightarrow> c' = c)"

lemma populate_old_policy_refreshes:
  "populate_old_policy env p c = Inr c' \<Longrightarrow> refreshes c c' \<and> ch_policy c' = ch_policy c"
  by (auto simp: populate_old_policy_def refreshes_def bindE_eq_Inr
      split: if_splits option.splits)

lemma populate_old_managed_policy_refreshes:
  "refreshes c (snd (populate_old_managed_policy env r c))"
  "ch_policy (snd (populate_old_managed_policy env r c)) = ch_policy c"
  by (auto simp: populate_old_managed_policy_def refreshes_def split: option.splits)

lemma store_current_policy_refreshes:
  assumes "store_current_policy env er c t perms found = Inr (b, c')" and "ch_status c \<noteq> Applied"
  shows "refreshes c c'" and "\<not> ch_autogenerated c \<Longrightarrow> ch_policy c' = ch_policy c"
proof -
  obtain supp cur where found: "found = (supp, cur)" by (cases found)
  show "refreshes c c'"
    using assms found
    by (cases cur) (auto simp: store_current_policy_def refreshes_def Let_def bindE_eq_Inr
        split: if_splits)
  show "\<not> ch_autogenerated c \<Longrightarrow> ch_policy c' = ch_policy c"
    using assms found
    by (cases cur) (auto simp: store_current_policy_def Let_def split: if_splits)
qed

text \<open>What the coroutine returned came from one of two places.\<close>

lemma populate_cross_account_cases:
  assumes "populate_cross_account_for_change env log er c = Inr (b, c')"
  obtains (skipped) "ch_status c = Applied \<or> \<not> is_resource_policy_type (ch_type c)"
      "b = False" "c' = c"
  | (stored) p account perms supp found where "ch_status c \<noteq> Applied"
      "is_resource_policy_type (ch_type c)" "e_parse_arn env (ch_arn c) = Inr p"
      "owner_account env (ch_arn c) p = Inr account"
      "current_resource_policy env log c p account supp = Inr found"
      "store_current_policy env er c (pa_service p) perms found = Inr (b, c')"
proof -
  from assms consider "ch_status c = Applied \<or> \<not> is_resource_policy_type (ch_type c)"
      "b = False" "c' = c"
    | "\<not> (ch_status c = Applied \<or> \<not> is_resource_policy_type (ch_type c))"
    by (cases "ch_status c = Applied \<or> \<not> is_resource_policy_type (ch_type c)")
      (auto simp: populate_cross_account_for_change_def bindE_eq_Inr)
  then show thesis
  proof cases
    case 1
    then show ?thesis by (rule skipped)
  next
    case 2
    with assms show ?thesis
      unfolding populate_cross_account_for_change_def bindE_eq_Inr if_not_P [OF 2]
      using stored by blast
  qed
qed

lemma populate_cross_account_refreshes:
  assumes "populate_cross_account_for_change env log er c = Inr (b, c')"
  shows "refreshes c c'"
    and "\<not> ch_autogenerated c \<or> \<not> is_resource_policy_type (ch_type c) \<Longrightarrow>
      ch_policy c' = ch_policy c"
  using assms
  by (auto elim!: populate_cross_account_cases
      dest: store_current_policy_refreshes simp: refreshes_def)

text \<open>A whole request is refreshed change by change.\<close>

definition request_refreshed :: "extended_request \<Rightarrow> extended_request \<Rightarrow> bool" where
  "request_refreshed er er' \<longleftrightarrow> er' = er\<lparr>er_changes := er_changes er'\<rparr> \<and>
     list_all2 refreshes (er_changes er) (er_changes er')"

lemma request_refreshed_refl [simp]: "request_refreshed er er"
  by (simp add: request_refreshed_def list_all2_same refreshes_def)

lemma request_refreshedI:
  "list_all2 refreshes (er_changes er) cs \<Longrightarrow> request_refreshed er (er\<lparr>er_changes := cs\<rparr>)"
  by (simp add: request_refreshed_def)

lemma request_refreshed_fields:
  assumes "request_refreshed er er'"
  shows "er_id er' = er_id er" "er_principal er' = er_principal er"
    "er_requester_email er' = er_requester_email er" "er_reviewer er' = er_reviewer er"
    "er_request_status er' = er_request_status er" "er_comments er' = er_comments er"
    "er_admin_auto_approve er' = er_admin_auto_approve er"
    "length (er_changes er') = length (er_changes er)"
proof -
  obtain cs where "er' = er\<lparr>er_changes := cs\<rparr>" using assms by (auto simp: request_refreshed_def)
  then show "er_id er' = er_id er" "er_principal er' = er_principal er"
    "er_requester_email er' = er_requester_email er" "er_reviewer er' = er_reviewer er"
    "er_request_status er' = er_request_status er" "er_comments er' = er_comments er"
    "er_admin_auto_approve er' = er_admin_auto_approve er"
    by simp_all
  show "length (er_changes er') = length (er_changes er)"
    using assms by (auto simp: request_refreshed_def dest: list_all2_lengthD)
qed

lemma request_refreshed_nth:
  assumes "request_refreshed er er'" and "i < length (er_changes er)"
  shows "refreshes (er_changes er ! i) (er_changes er' ! i)"
  using assms by (auto simp: request_refreshed_def list_all2_conv_all_nth)

lemma request_refreshed_applied: "request_refreshed er er' \<Longrightarrow> applied_kept er er'"
  unfolding applied_kept_def
  using request_refreshed_fields(8) request_refreshed_nth by (auto simp: refreshes_def)

lemma mapE_refreshed:
  assumes "mapE f cs = Inr cs'" and "\<And>c c'. f c = Inr c' \<Longrightarrow> refreshes c c'"
  shows "list_all2 refreshes cs cs'"
  using assms by (auto simp: mapE_list_all2 elim: list_all2_mono)

lemma populate_old_policies_refreshed:
  assumes "populate_old_policies env log er p = Inr er'"
  shows "request_refreshed er er'"
proof -
  have pop: "bindE (mapE (populate_old_policy env q) (er_changes er))
      (\<lambda>cs. Inr (er\<lparr>er_changes := cs\<rparr>)) = Inr er' \<Longrightarrow> request_refreshed er er'" for q
    by (auto simp: bindE_eq_Inr intro!: request_refreshedI
        dest: mapE_refreshed populate_old_policy_refreshes)
  show ?thesis
    using assms pop
    by (auto simp: populate_old_policies_def bindE_eq_Inr Let_def
        split: principal.splits if_splits)
qed

lemma populate_old_managed_policies_cases:
  assumes "populate_old_managed_policies env log er = Inr (b, er')"
  obtains "er' = er" | r where "er' = snd (refresh_managed env r er)"
proof (cases "er_principal er")
  case (Honeybee_template r i u)
  then show ?thesis using assms that by (simp add: populate_old_managed_policies_def)
next
  case (Aws_resource arn)
  then obtain p where p: "e_parse_arn env arn = Inr p"
    using assms by (auto simp: populate_old_managed_policies_def bindE_eq_Inr)
  show ?thesis
  proof (cases "e_managed_policy_document env log (str_or (pa_account p) []) arn")
    case (Inl e)
    then show ?thesis
      using assms Aws_resource p that
      by (cases e) (auto simp: populate_old_managed_policies_def split: if_splits)
  next
    case (Inr r)
    then have "er' = er \<or> er' = snd (refresh_managed env r er)"
      using assms Aws_resource p
      by (auto simp: populate_old_managed_policies_def split: if_splits)
    then show ?thesis using that by blast
  qed
qed

lemma populate_old_managed_policies_refreshed:
  assumes "populate_old_managed_policies env log er = Inr (b, er')"
  shows "request_refreshed er er'"
proof -
  have "request_refreshed er
      (er\<lparr>er_changes := map snd (map (populate_old_managed_policy env r) (er_changes er))\<rparr>)" for r
    by (rule request_refreshedI)
      (simp add: list_all2_map2 list_all2_same populate_old_managed_policy_refreshes)
  then have "request_refreshed er (snd (refresh_managed env r er))" for r
    by (simp add: refresh_managed_def Let_def del: map_map)
  with assms show ?thesis by (auto elim!: populate_old_managed_policies_cases)
qed

lemma populate_cross_account_refreshed:
  assumes "populate_cross_account_resource_policies env log er = Inr (b, er')"
  shows "request_refreshed er er'"
proof -
  from assms obtain rs where
    rs: "mapE (populate_cross_account_for_change env log er) (er_changes er) = Inr rs"
    and er': "er' = er\<lparr>er_changes := map snd rs\<rparr>"
    by (auto simp: populate_cross_account_resource_policies_def bindE_eq_Inr)
  from rs have "list_all2 (\<lambda>c r. refreshes c (snd r)) (er_changes er) rs"
    unfolding mapE_list_all2
    by (rule list_all2_mono) (metis populate_cross_account_refreshes prod.collapse)
  then show ?thesis
    unfolding er' by (intro request_refreshedI) (simp add: list_all2_map2)
qed

section \<open>Properties\<close>


lemma policy_unchanged_upd [simp]:
  "policy_unchanged env (c\<lparr>ch_supported := x\<rparr>) d = policy_unchanged env c d"
  "policy_unchanged env (c\<lparr>ch_policy := y\<rparr>) d = policy_unchanged env c d"
  "policy_unchanged env (c\<lparr>ch_old_policy := Some (snapshot env d)\<rparr>) d"
  by (simp_all add: policy_unchanged_def snapshot_def)

lemma store_current_policy_shape:
  assumes "store_current_policy env er c t perms (supp, Some current) = Inr (b, c')"
    and "\<not> policy_unchanged env c current"
  shows "\<exists>x. c' = c\<lparr>ch_supported := Some supp,
    ch_old_policy := Some (snapshot env current), ch_policy := x\<rparr>"
proof (cases "ch_autogenerated c")
  case True
  with assms show ?thesis by (auto simp: store_current_policy_def Let_def bindE_eq_Inr)
next
  case False
  with assms have "c' = c\<lparr>ch_supported := Some supp, ch_old_policy := Some (snapshot env current),
      ch_policy := ch_policy c\<rparr>"
    by (cases c) (auto simp: store_current_policy_def)
  then show ?thesis by blast
qed

lemma store_current_policy_fields:
  assumes store: "store_current_policy env er c t perms (supp, Some current) = Inr (b, c')"
  shows "ch_supported c' = Some supp" and "b \<Longrightarrow> ch_old_policy c' = Some (snapshot env current)"
proof -
  have "ch_supported c' = Some supp \<and> (b \<longrightarrow> ch_old_policy c' = Some (snapshot env current))"
  proof (cases "policy_unchanged env c current")
    case True
    with store show ?thesis by (auto simp: store_current_policy_def)
  next
    case False
    from store_current_policy_shape [OF store False] obtain x where
      "c' = c\<lparr>ch_supported := Some supp, ch_old_policy := Some (snapshot env current),
        ch_policy := x\<rparr>" by blast
    then show ?thesis by simp
  qed
  then show "ch_supported c' = Some supp" "b \<Longrightarrow> ch_old_policy c' = Some (snapshot env current)"
    by blast+
qed

lemma store_current_policy_again:
  assumes "store_current_policy env er c t perms found = Inr (b, c')"
  shows "store_current_policy env er2 c' t2 perms2 found = Inr (False, c')"
proof -
  obtain supp cur where found: "found = (supp, cur)" by (cases found)
  show ?thesis
  proof (cases cur)
    case None
    with assms found show ?thesis by (auto simp: store_current_policy_def)
  next
    case (Some current)
    show ?thesis
    proof (cases "policy_unchanged env c current")
      case True
      with assms found Some show ?thesis by (auto simp: store_current_policy_def Let_def)
    next
      case False
      then obtain x where "c' = c\<lparr>ch_supported := Some supp,
          ch_old_policy := Some (snapshot env current), ch_policy := x\<rparr>"
        using store_current_policy_shape assms found Some by blast
      with found Some show ?thesis by (simp add: store_current_policy_def)
    qed
  qed
qed

lemma populate_cross_account_again:
  assumes "populate_cross_account_for_change env log er c = Inr (b, c')"
  shows "populate_cross_account_for_change env log er' c' = Inr (False, c')"
proof -
  from assms obtain types sts perms where cfg: "supported_resource_types env = Inr types"
      "sts_resource_policy_supported env = Inr sts"
      "supported_trust_policy_permissions env = Inr perms"
    by (auto simp: populate_cross_account_for_change_def bindE_eq_Inr)
  note same = same_but_policiesD [of c c']
  have sb: "same_but_policies c c'"
    using populate_cross_account_refreshes(1) [OF assms] by (simp add: refreshes_def)
  have cur: "current_resource_policy env log c' p account supp =
      current_resource_policy env log c p account supp" for p account supp
    using same [OF sb] by (simp add: current_resource_policy_def)
  show ?thesis
  proof (cases "ch_status c = Applied \<or> \<not> is_resource_policy_type (ch_type c)")
    case True
    then show ?thesis
      using same [OF sb] cfg by (simp add: populate_cross_account_for_change_def)
  next
    case False
    then have na: "\<not> (ch_status c' = Applied \<or> \<not> is_resource_policy_type (ch_type c'))"
      using same [OF sb] by simp
    from assms False cfg obtain p account found where
      "e_parse_arn env (ch_arn c) = Inr p"
      "owner_account env (ch_arn c) p = Inr account"
      "current_resource_policy env log c p account
        (pa_service p \<in> set types \<or> ch_type c = Sts_resource_policy \<and> sts) = Inr found"
      "store_current_policy env er c (pa_service p) perms found = Inr (b, c')"
      unfolding populate_cross_account_for_change_def bindE_eq_Inr if_not_P [OF False] by auto
    then show ?thesis
      using same [OF sb] store_current_policy_again
      unfolding populate_cross_account_for_change_def cfg bindE_simps if_not_P [OF na]
      by (simp add: cur)
  qed
qed

text \<open>C18: a refresh is stable: run again while AWS answers the same, it finds nothing changed and
  leaves the request as the first run left it.\<close>

theorem refresh_stable:
  assumes "populate_cross_account_resource_policies env log er = Inr (b, er')"
  shows "populate_cross_account_resource_policies env log er' = Inr (False, er')"
proof -
  from assms obtain arn rs where arn: "principal_arn (er_principal er) = Inr arn"
    and rs: "mapE (populate_cross_account_for_change env log er) (er_changes er) = Inr rs"
    and er': "er' = er\<lparr>er_changes := map snd rs\<rparr>"
    by (auto simp: populate_cross_account_resource_policies_def bindE_eq_Inr)
  have "populate_cross_account_for_change env log er' (snd (rs ! i)) = Inr (False, snd (rs ! i))"
    if "i < length rs" for i
  proof (rule populate_cross_account_again)
    show "populate_cross_account_for_change env log er (er_changes er ! i) =
        Inr (fst (rs ! i), snd (rs ! i))"
      using rs that by (simp add: mapE_list_all2 list_all2_conv_all_nth)
  qed
  then have "mapE (populate_cross_account_for_change env log er') (map snd rs) =
      Inr (map (\<lambda>r. (False, snd r)) rs)"
    by (simp add: mapE_list_all2 list_all2_conv_all_nth)
  then show ?thesis
    using arn er' by (simp add: populate_cross_account_resource_policies_def list_ex_iff comp_def)
qed

definition cross_example :: extended_request where
  "cross_example = example_request [inline_change, bucket_change own_bucket,
     bucket_change foreign_bucket, bucket_change own_bucket\<lparr>ch_status := Applied\<rparr>]"



theorem refresh_stable_witness:
  "\<exists>er'. populate_cross_account_resource_policies example_env [] cross_example = Inr (True, er') \<and>
     populate_cross_account_resource_policies example_env [] er' = Inr (False, er')"
proof -
  have "yields (populate_cross_account_resource_policies example_env [] cross_example) fst"
    by code_simp
  then obtain er' where
    run: "populate_cross_account_resource_policies example_env [] cross_example = Inr (True, er')"
    by (auto dest: yieldsE)
  with refresh_stable [OF run] show ?thesis by blast
qed


text \<open>C35: a source statement whose \<open>Resource\<close> is a single string, as AWS allows, contributes its
  actions but no resources: the loop runs over the characters of the string, so the generated
  resource policy grants the actions on an empty list of resources.\<close>

theorem string_resource_dropped:
  assumes "2 \<le> length arn" and "map_of kvs ''Resource'' = Some (JStr s)" and "substring arn s"
  shows "source_statements arn t ct perms [JObj kvs] =
    bindE (statement_actions t ct perms (JObj kvs)) (\<lambda>as. Inr (as, []))"
proof -
  have single: "mapE the_str (map (\<lambda>c. JStr [c]) s) = Inr (map (\<lambda>c. [c]) s)" for s
    by (induction s) simp_all
  have none: "\<not> substring arn [c]" for c
    using assms(1) by (auto simp: substring_sublist dest: sublist_length_le)
  have "statement_resources arn (JObj kvs) = Inr []"
    using assms(2) none by (simp add: statement_resources_def single filter_empty_conv)
  with assms show ?thesis
    by (cases "statement_actions t ct perms (JObj kvs)") simp_all
qed

theorem string_resource_dropped_witness:
  "source_statements own_bucket ''s3'' Resource_policy []
     [JObj [(''Action'', JStr ''s3:GetObject''), (''Resource'', JStr own_bucket)]] =
   Inr ([''s3:GetObject''], [])"
  by (subst string_resource_dropped [where s = own_bucket])
    (simp_all add: own_bucket_def substring_def statement_actions_def)

end
