(* ===== verification/Creation.thy ===== *)
theory Creation
  imports Validate Populate
begin

text \<open>
  Building a request from the changes a user submits (consoleme/lib/v2/requests.py 93-597,
  2799-2871): the changes are numbered and checked, the resources an inline policy grants are
  found, and a resource policy change is generated for each resource of another account.
\<close>

section \<open>Resources of an inline policy\<close>

definition lower_char :: "char \<Rightarrow> char" where
  "lower_char c = (let n = (of_char c :: nat) in
     if 65 \<le> n \<and> n \<le> 90 then char_of (n + 32) else c)"

fun collect_actions :: "env \<Rightarrow> string \<Rightarrow> string list \<Rightarrow> string list \<Rightarrow> string list" where
  "collect_actions env service results [] = results"
| "collect_actions env service results (action # rest) =
     (if action = ''*'' then collect_actions env service (results @ [action]) rest
      else if e_service_from_action env action = service \<or>
              map lower_char action = ''sts:assumerole'' \<and> service = ''iam''
      then collect_actions env service
             (if action \<in> set results then results else results @ [action]) rest
      else collect_actions env service results rest)"

definition get_actions_for_resource :: "env \<Rightarrow> string \<Rightarrow> json \<Rightarrow> string list res" where
  "get_actions_for_resource env arn statement =
     bindE (get_service_from_arn env arn) (\<lambda>service.
     bindE (jget_or ''Action'' (JList []) statement) (\<lambda>a.
     bindE (mapE the_str (as_list a)) (\<lambda>actions.
       Inr (collect_actions env service [] actions))))"

text \<open>A resource with a wildcard is left out.\<close>

definition resource_entry :: "env \<Rightarrow> json \<Rightarrow> string \<Rightarrow> resource_model res" where
  "resource_entry env statement arn =
     bindE (get_resource_from_arn env arn) (\<lambda>name.
     bindE (get_resource_account env arn) (\<lambda>account.
     bindE (get_region_from_arn env arn) (\<lambda>region.
     bindE (get_service_from_arn env arn) (\<lambda>service.
     bindE (get_actions_for_resource env arn statement) (\<lambda>actions.
       Inr \<lparr>rm_arn = arn, rm_name = name, rm_account_id = Some account, rm_region = Some region,
            rm_account_name = map_of (e_accounts env) account, rm_actions = Some actions,
            rm_resource_type = service\<rparr>)))))"

fun statement_entries :: "env \<Rightarrow> json \<Rightarrow> json list \<Rightarrow> resource_model list res" where
  "statement_entries env statement [] = Inr []"
| "statement_entries env statement (r # rs) =
     bindE (the_str r) (\<lambda>arn.
     if CHR ''*'' \<in> set arn then statement_entries env statement rs
     else if arn = [] then
       Inl (PyException ''One or more resources must be specified in the policy.'')
     else
       bindE (resource_entry env statement arn) (\<lambda>e.
       bindE (statement_entries env statement rs) (\<lambda>es. Inr (e # es))))"

definition get_resources_from_policy_change :: "env \<Rightarrow> change \<Rightarrow> resource_model list res" where
  "get_resources_from_policy_change env c =
     (if ch_type c \<noteq> Inline_policy then Inr []
      else
        bindE (policy_document c) (\<lambda>doc.
        bindE (bindE (jget_or ''Statement'' (JList []) doc) jiter) (\<lambda>statements.
        bindE (mapE (\<lambda>st. bindE (jget_or ''Resource'' (JList []) st) (\<lambda>r.
                 statement_entries env st (as_list r))) statements) (\<lambda>ess.
          Inr (concat ess)))))"

section \<open>Generated resource policies\<close>

text \<open>
  Does the inline policy let the principal assume the role: a statement whose \<open>Resource\<close> has
  the role's ARN and which lists a supported trust policy action.
\<close>

fun grants_assume :: "string \<Rightarrow> string list \<Rightarrow> json list \<Rightarrow> bool res" where
  "grants_assume arn permissions [] = Inr False"
| "grants_assume arn permissions (st # sts) =
     bindE (bindE (jget ''Resource'' st) (str_in arn)) (\<lambda>concerned.
     bindE (if concerned
            then bindE (jget_or ''Action'' (JList []) st) (\<lambda>a.
              Inr (list_ex (\<lambda>action. list_ex (\<lambda>p. action = JStr p) permissions) (as_list a)))
            else Inr False) (\<lambda>found.
     if found then Inr True else grants_assume arn permissions sts))"

text \<open>The type of the change that is generated for a resource, if any.\<close>

definition generated_type ::
  "env \<Rightarrow> string list \<Rightarrow> string list \<Rightarrow> string \<Rightarrow> change \<Rightarrow> resource_model \<Rightarrow> change_type option res"
  where
  "generated_type env types permissions role_account c r =
     bindE (get_resource_account env (rm_arn r)) (\<lambda>account.
     if account \<noteq> role_account \<and> rm_resource_type r \<noteq> ''iam'' \<and> rm_resource_type r \<in> set types
     then Inr (Some Resource_policy)
     else if account \<noteq> role_account \<and> rm_resource_type r = ''iam'' then
       bindE (policy_document c) (\<lambda>doc.
       bindE (bindE (jget_or ''Statement'' (JList []) doc) jiter) (\<lambda>statements.
       bindE (grants_assume (rm_arn r) permissions statements) (\<lambda>b.
         Inr (if b then Some Sts_resource_policy else None))))
     else Inr None)"

definition generated_change ::
  "env \<Rightarrow> principal \<Rightarrow> resource_model \<Rightarrow> change \<Rightarrow> change_type \<Rightarrow> string \<Rightarrow> string \<Rightarrow> change" where
  "generated_change env pr primary c t arn cid =
     \<lparr>ch_principal = pr, ch_type = t, ch_resources = [primary], ch_status = Not_applied,
      ch_id = Some cid, ch_autogenerated = True, ch_updated_by = None, ch_expiration_date = None,
      ch_policy_name = None, ch_new = False, ch_action = None,
      ch_policy = Some (snapshot env default_policy), ch_old_policy = None, ch_arn = arn,
      ch_source_change_id = ch_id c, ch_supported = None, ch_original_key = None, ch_key = None,
      ch_original_value = None, ch_value = None, ch_tag_action = None\<rparr>"

fun generate_for_resources ::
  "env \<Rightarrow> string list \<Rightarrow> string list \<Rightarrow> string \<Rightarrow> principal \<Rightarrow> resource_model \<Rightarrow> change
     \<Rightarrow> resource_model list \<Rightarrow> (world, change list) io" where
  "generate_for_resources env types permissions account pr primary c [] = retW []"
| "generate_for_resources env types permissions account pr primary c (r # rs) =
     bindW (liftW (generated_type env types permissions account c r)) (\<lambda>t.
     bindW (case t of
              None \<Rightarrow> retW []
            | Some ty \<Rightarrow> bindW (fresh_uuid env) (\<lambda>cid.
                retW [generated_change env pr primary c ty (rm_arn r) cid])) (\<lambda>gs.
     bindW (generate_for_resources env types permissions account pr primary c rs) (\<lambda>gs'.
       retW (gs @ gs'))))"

text \<open>The changes with the resources of the inline policies filled in, and the generated ones.\<close>

fun generate_for_changes ::
  "env \<Rightarrow> string list \<Rightarrow> string list \<Rightarrow> string \<Rightarrow> principal \<Rightarrow> resource_model \<Rightarrow> change list
     \<Rightarrow> (world, change list \<times> change list) io" where
  "generate_for_changes env types permissions account pr primary [] = retW ([], [])"
| "generate_for_changes env types permissions account pr primary (c # cs) =
     bindW (if ch_type c = Inline_policy then
              bindW (liftW (get_resources_from_policy_change env c)) (\<lambda>rs.
              bindW (generate_for_resources env types permissions account pr primary c rs) (\<lambda>gs.
                retW (c\<lparr>ch_resources := rs\<rparr>, gs)))
            else retW (c, [])) (\<lambda>(c', gs).
     bindW (generate_for_changes env types permissions account pr primary cs) (\<lambda>(cs', gs').
       retW (c' # cs', gs @ gs')))"

text \<open>Only for a role; an ARN without a path is left alone.\<close>

definition generate_for_role ::
  "env \<Rightarrow> string list \<Rightarrow> string list \<Rightarrow> string \<Rightarrow> string \<Rightarrow> arn_parts \<Rightarrow> extended_request
     \<Rightarrow> (world, extended_request) io" where
  "generate_for_role env types permissions arn account p er =
     (if pa_service p \<noteq> ''iam'' \<or> pa_resource p \<noteq> ''role'' \<or> \<not> truthy_str (pa_resource_path p)
      then retW er
      else
        bindW (liftW (resource_path_name p)) (\<lambda>name.
        bindW (generate_for_changes env types permissions account (er_principal er)
                 \<lparr>rm_arn = arn, rm_name = name, rm_account_id = Some account, rm_region = None,
                  rm_account_name = None, rm_actions = None, rm_resource_type = pa_service p\<rparr>
                 (er_changes er)) (\<lambda>(cs, gs).
          retW (er\<lparr>er_changes := cs @ gs,
                   er_cross_account := (if gs \<noteq> [] then True else er_cross_account er)\<rparr>))))"

definition generate_resource_policies ::
  "env \<Rightarrow> extended_request \<Rightarrow> (world, extended_request) io" where
  "generate_resource_policies env er =
     bindW (liftW (supported_resource_types env)) (\<lambda>types.
     bindW (liftW (supported_trust_policy_permissions env)) (\<lambda>permissions.
     case er_principal er of
       Honeybee_template r i u \<Rightarrow> retW er
     | Aws_resource arn \<Rightarrow>
         bindW (liftW (get_resource_account env arn)) (\<lambda>account.
         bindW (liftW (e_parse_arn env arn)) (\<lambda>p.
           generate_for_role env types permissions arn account p er))))"

section \<open>Auto-approval probes\<close>

text \<open>Only requests whose submitted changes are all inline policies are eligible.\<close>

fun only_inline :: "change list \<Rightarrow> bool" where
  "only_inline [] = True"
| "only_inline (c # cs) =
     (if is_resource_policy_type (ch_type c) \<and> ch_autogenerated c then only_inline cs
      else if ch_type c \<noteq> Inline_policy then False
      else only_inline cs)"

definition is_request_eligible_for_auto_approval :: "extended_request \<Rightarrow> bool res" where
  "is_request_eligible_for_auto_approval er =
     bindE (principal_arn (er_principal er)) (\<lambda>_. Inr (only_inline (er_changes er)))"

section \<open>A new request\<close>

text \<open>
  The first loop over the submitted changes: each is set to not applied and gets the request's id
  followed by its number as its id; all must have the same principal; a resource policy change is
  the user's own, and supported if its resource type is. The numbering goes on from \<open>i\<close>.
\<close>

definition prepare_change ::
  "env \<Rightarrow> string list \<Rightarrow> principal \<Rightarrow> string \<Rightarrow> nat \<Rightarrow> change \<Rightarrow> change res" where
  "prepare_change env types primary request_id i submitted =
     (let c = submitted\<lparr>ch_status := Not_applied, ch_id := Some (request_id @ nat_str i)\<rparr> in
      if ch_principal c \<noteq> primary then
        refuse ''We only support making changes to a single principal ARN per request.''
      else case ch_type c of
          Resource_policy \<Rightarrow>
            bindE (e_parse_arn env (ch_arn c)) (\<lambda>p.
              Inr (c\<lparr>ch_autogenerated := False, ch_source_change_id := None,
                     ch_supported := Some (pa_service p \<in> set types)\<rparr>))
        | Sts_resource_policy \<Rightarrow> Inl (UnsupportedChangeType ''Invalid `change_type` for change'')
        | Other_change t \<Rightarrow> Inl (UnsupportedChangeType ''Invalid `change_type` for change'')
        | _ \<Rightarrow> Inr c)"

fun prepare_changes ::
  "env \<Rightarrow> string list \<Rightarrow> principal \<Rightarrow> string \<Rightarrow> nat \<Rightarrow> change list \<Rightarrow> change list res" where
  "prepare_changes env types primary request_id i [] = Inr []"
| "prepare_changes env types primary request_id i (c # cs) =
     bindE (prepare_change env types primary request_id i c) (\<lambda>c'.
     bindE (prepare_changes env types primary request_id (Suc i) cs) (\<lambda>cs'. Inr (c' # cs')))"

definition of_type :: "change_type \<Rightarrow> change list \<Rightarrow> change list" where
  "of_type t = filter (\<lambda>c. ch_type c = t)"

text \<open>\<open>s[:k]\<close>: a negative \<open>k\<close> counts from the end.\<close>

definition py_take :: "int \<Rightarrow> string \<Rightarrow> string" where
  "py_take k s = (if 0 \<le> k then take (nat k) s else take (length s - nat (- k)) s)"

text \<open>"Make sure the requester is only ever 64 chars with domain".\<close>

definition shorten_user :: "string \<Rightarrow> string" where
  "shorten_user user =
     (if length user > 64 then
        (let split_items = py_split CHR ''@'' user in
         py_take (64 - (int (length (last split_items)) + 1)) (hd split_items) @ ''@'' @
           last split_items)
      else user)"

text \<open>The checks of a request that changes the managed policy itself.\<close>

definition existing_managed_policy :: "env \<Rightarrow> call_log \<Rightarrow> string \<Rightarrow> string \<Rightarrow> json res" where
  "existing_managed_policy env log account arn =
     (case e_managed_policy_document env log account arn of
        Inr d \<Rightarrow> Inr d
      | Inl (ClientError code m) \<Rightarrow>
          if code = ''NoSuchEntity'' then Inr JNull
          else refuse (''Exception raised while getting managed policy'' @ '': '' @ m)
      | Inl e \<Rightarrow> Inl e)"

definition validate_policy_resource_request ::
  "env \<Rightarrow> call_log \<Rightarrow> string \<Rightarrow> string \<Rightarrow> arn_parts \<Rightarrow> change list \<Rightarrow> unit res" where
  "validate_policy_resource_request env log arn account p cs =
     (if pa_service p \<noteq> ''iam'' \<or> pa_resource p \<noteq> ''policy'' then
        refuse ''Principal ARN type not supported for managed policy resource changes.''
      else if pa_account p = Some ''aws'' then
        refuse (''AWS Managed Policies aren'' @ [CHR 39] @ ''t valid for changes.'')
      else if of_type Inline_policy cs \<noteq> [] \<or> of_type Managed_policy cs \<noteq> [] \<or>
              of_type Assume_role_policy cs \<noteq> [] \<or> of_type Permissions_boundary cs \<noteq> [] then
        refuse (''Principal ARN type not supported for '' @
          ''inline/managed/assume role policy changes.'')
      else if length (of_type Managed_policy_resource cs) > 1 then
        refuse ''One one managed policy resource change supported per request.''
      else
        bindE (resource_path_name p) (\<lambda>policy_name.
        bindE (existing_managed_policy env log account arn) (\<lambda>existing.
          forE (\<lambda>c. validate_managed_policy_resource_change c policy_name existing)
            (of_type Managed_policy_resource cs))))"

text \<open>
  The checks of a request for a role or user. The inline policies get their names on the way, so
  they are returned.
\<close>

fun name_inline_policies ::
  "env \<Rightarrow> string \<Rightarrow> aws_principal \<Rightarrow> change list \<Rightarrow> (world, change list) io" where
  "name_inline_policies env user role [] = retW []"
| "name_inline_policies env user role (c # cs) =
     bindW (generate_policy_name env (ch_policy_name c) user (ch_expiration_date c)) (\<lambda>name.
     let c = c\<lparr>ch_policy_name := Some name\<rparr> in
     bindW (liftW (validate_inline_policy_change c role)) (\<lambda>_.
     bindW (name_inline_policies env user role cs) (\<lambda>cs'. retW (c # cs'))))"

definition validate_principal_request ::
  "env \<Rightarrow> string \<Rightarrow> string \<Rightarrow> arn_parts \<Rightarrow> change list \<Rightarrow> (world, change list) io" where
  "validate_principal_request env user account p cs =
     (if \<not> is_role_or_user p then liftW (refuse (''Resource not found, or ARN type not supported '' @
        ''for inline/managed/assume role policy changes.''))
      else
        bindW (liftW (resource_path_name p)) (\<lambda>name.
        bindW (readW (\<lambda>w. principal_details env (w_calls w) account p name)) (\<lambda>found. case found of
          None \<Rightarrow> liftW (refuse ''Principal not found'')
        | Some role \<Rightarrow>
            bindW (name_inline_policies env user role (of_type Inline_policy cs)) (\<lambda>inline.
            bindW (liftW (forE (\<lambda>c. validate_managed_policy_change c role)
                     (of_type Managed_policy cs))) (\<lambda>_.
            bindW (liftW (forE (\<lambda>c. validate_permissions_boundary_change c role)
                     (of_type Permissions_boundary cs))) (\<lambda>_.
            bindW (liftW (forE (\<lambda>c. if pa_resource p = ''user''
                       then Inl (UnsupportedChangeType
                         ''Unable to modify an assume role policy associated with an IAM user'')
                       else validate_assume_role_policy_change c role)
                     (of_type Assume_role_policy cs))) (\<lambda>_.
            bindW (liftW (forE (\<lambda>c. validate_resource_tag_change c role)
                     (of_type Resource_tag cs))) (\<lambda>_.
              retW inline))))))))"

text \<open>
  The changes of the request, by type: generic file changes have no place in the list.
\<close>

definition arrange_changes :: "change list \<Rightarrow> change list \<Rightarrow> change list" where
  "arrange_changes inline cs =
     inline @ of_type Managed_policy cs @ of_type Resource_policy cs @
     of_type Assume_role_policy cs @ of_type Resource_tag cs @ of_type Permissions_boundary cs @
     of_type Managed_policy_resource cs"

definition validate_request ::
  "env \<Rightarrow> string \<Rightarrow> string \<Rightarrow> string \<Rightarrow> arn_parts \<Rightarrow> change list \<Rightarrow> (world, change list) io" where
  "validate_request env user arn account p cs =
     (if length (of_type Assume_role_policy cs) > 1 then
        liftW (refuse ''One one assume role policy change supported per request.'')
      else if of_type Managed_policy_resource cs \<noteq> [] then
        bindW (readW (\<lambda>w. validate_policy_resource_request env (w_calls w) arn account p cs)) (\<lambda>_.
          retW (of_type Inline_policy cs))
      else if of_type Inline_policy cs \<noteq> [] \<or> of_type Managed_policy cs \<noteq> [] \<or>
              of_type Assume_role_policy cs \<noteq> [] \<or> of_type Permissions_boundary cs \<noteq> []
      then validate_principal_request env user account p cs
      else retW (of_type Inline_policy cs))"

definition resource_url :: "env \<Rightarrow> string \<Rightarrow> string res" where
  "resource_url env arn = (case e_url_for_resource env arn of
      Inl (ResourceNotFound m) \<Rightarrow> Inr [] | r \<Rightarrow> r)"

definition initial_request ::
  "env \<Rightarrow> request_creation \<Rightarrow> string \<Rightarrow> string \<Rightarrow> string \<Rightarrow> string \<Rightarrow> change list \<Rightarrow> extended_request"
  where
  "initial_request env rc user request_id arn url cs =
     \<lparr>er_id = request_id, er_request_url = None, er_principal = Aws_resource arn,
      er_timestamp = e_now env, er_justification = rc_justification rc,
      er_requester_email = user, er_request_status = Pending, er_cross_account = False,
      er_arn_url = url, er_admin_auto_approve = rc_admin_auto_approve rc,
      er_changes = cs, er_reviewer = None, er_comments = []\<rparr>"

text \<open>The request for an AWS principal; a template's request is built by \<open>honeybee\<close>.\<close>

definition generate_aws_request ::
  "env \<Rightarrow> request_creation \<Rightarrow> string \<Rightarrow> string \<Rightarrow> string \<Rightarrow> change list
     \<Rightarrow> (world, extended_request) io" where
  "generate_aws_request env rc user request_id arn cs =
     bindW (liftW (get_resource_account env arn)) (\<lambda>account.
     bindW (liftW (e_parse_arn env arn)) (\<lambda>p.
     bindW (liftW (resource_url env arn)) (\<lambda>url.
     bindW (validate_request env user arn account p cs) (\<lambda>inline.
     bindW (readW (\<lambda>w. populate_old_policies env (w_calls w)
              (initial_request env rc user request_id arn url (arrange_changes inline cs)) None))
       (\<lambda>er.
     bindW (generate_resource_policies env er) (\<lambda>er.
     if of_type Managed_policy_resource cs \<noteq> []
     then bindW (readW (\<lambda>w. populate_old_managed_policies env (w_calls w) er)) (\<lambda>(changed, er).
            retW er)
     else retW er))))))"

definition generate_request ::
  "env \<Rightarrow> (request_creation \<Rightarrow> string \<Rightarrow> string \<Rightarrow> (world, extended_request) io)
     \<Rightarrow> request_creation \<Rightarrow> string \<Rightarrow> (world, extended_request) io" where
  "generate_request env honeybee rc user =
     (case rc_changes rc of
        [] \<Rightarrow> liftW (refuse ''At least 1 change is required to create a request.'')
      | first # rest \<Rightarrow>
          bindW (fresh_uuid env) (\<lambda>request_id.
          bindW (liftW (supported_resource_types env)) (\<lambda>types.
          bindW (liftW (prepare_changes env types (ch_principal first) request_id 0
                   (first # rest))) (\<lambda>cs.
          case ch_principal first of
            Aws_resource arn \<Rightarrow>
              generate_aws_request env rc (shorten_user user) request_id arn cs
          | Honeybee_template r i u \<Rightarrow> honeybee rc (shorten_user user) request_id))))"

definition get_request_url :: "extended_request \<Rightarrow> string option" where
  "get_request_url er = (case er_principal er of
      Aws_resource arn \<Rightarrow> Some (''/policies/request/'' @ er_id er)
    | Honeybee_template r i u \<Rightarrow> er_request_url er)"

section \<open>Frames\<close>

lemma generate_random_string_frames [frames]:
  "tbl.keeps (generate_random_string env)" "mls.keeps (generate_random_string env)"
  "cls.keeps (generate_random_string env)"
  by (auto simp: generate_random_string_def tbl.keeps_def mls.keeps_def cls.keeps_def relation_defs)

lemma generate_policy_name_frames [frames]:
  "tbl.keeps (generate_policy_name env n u d)" "mls.keeps (generate_policy_name env n u d)"
  "cls.keeps (generate_policy_name env n u d)"
  unfolding generate_policy_name_def Let_def
  by (auto intro!: keeps_rules frames split: option.split)

lemma name_inline_policies_frames [frames]:
  "tbl.keeps (name_inline_policies env u role cs)" "mls.keeps (name_inline_policies env u role cs)"
  "cls.keeps (name_inline_policies env u role cs)"
  by (induction cs) (auto intro!: keeps_rules frames simp: Let_def)

lemma generate_for_resources_frames [frames]:
  "tbl.keeps (generate_for_resources env ts ps a pr pm c rs)"
  "mls.keeps (generate_for_resources env ts ps a pr pm c rs)"
  "cls.keeps (generate_for_resources env ts ps a pr pm c rs)"
  by (induction rs) (auto intro!: keeps_rules frames split: option.split)

lemma generate_for_changes_frames [frames]:
  "tbl.keeps (generate_for_changes env ts ps a pr pm cs)"
  "mls.keeps (generate_for_changes env ts ps a pr pm cs)"
  "cls.keeps (generate_for_changes env ts ps a pr pm cs)"
  by (induction cs) (auto intro!: keeps_rules frames split: option.split)

lemma generate_resource_policies_frames [frames]:
  "tbl.keeps (generate_resource_policies env er)" "mls.keeps (generate_resource_policies env er)"
  "cls.keeps (generate_resource_policies env er)"
  unfolding generate_resource_policies_def generate_for_role_def
  by (auto intro!: keeps_rules frames split: principal.split)

lemma validate_request_frames [frames]:
  "tbl.keeps (validate_request env u arn a p cs)" "mls.keeps (validate_request env u arn a p cs)"
  "cls.keeps (validate_request env u arn a p cs)"
  unfolding validate_request_def validate_principal_request_def
  by (auto intro!: keeps_rules frames split: option.split)

lemma generate_aws_request_frames [frames]:
  "tbl.keeps (generate_aws_request env rc u i arn cs)"
  "mls.keeps (generate_aws_request env rc u i arn cs)"
  "cls.keeps (generate_aws_request env rc u i arn cs)"
  unfolding generate_aws_request_def Let_def
  by (auto intro!: keeps_rules frames)

section \<open>Preparing the changes\<close>

lemma prepare_change_fields:
  assumes "prepare_change env types pr rid i c = Inr c'"
  shows "ch_id c' = Some (rid @ nat_str i) \<and> ch_status c' = Not_applied \<and> ch_principal c' = pr \<and>
    ch_type c' = ch_type c"
  using assms
  by (auto simp: prepare_change_def Let_def refuse_def bindE_eq_Inr
      split: if_splits change_type.splits)

lemma prepare_changes_fields:
  assumes "prepare_changes env types pr rid i cs = Inr cs'"
  shows "map ch_id cs' = map (\<lambda>k. Some (rid @ nat_str k)) [i..<i + length cs] \<and>
    (\<forall>c \<in> set cs'. ch_status c = Not_applied \<and> ch_principal c = pr) \<and>
    map ch_type cs' = map ch_type cs"
  using assms
proof (induction cs arbitrary: i cs')
  case Nil
  then show ?case by simp
next
  case (Cons c cs)
  from Cons.prems obtain c1 cs1 where
    c1: "prepare_change env types pr rid i c = Inr c1"
    and cs1: "prepare_changes env types pr rid (Suc i) cs = Inr cs1" and out: "cs' = c1 # cs1"
    by (auto simp: bindE_eq_Inr)
  have "[i..<i + length (c # cs)] = i # [Suc i..<Suc i + length cs]"
    by (simp add: upt_conv_Cons del: upt_Suc)
  with prepare_change_fields [OF c1] Cons.IH [OF cs1] out show ?case
    by (simp del: upt_Suc)
qed

lemma prepare_changes_distinct:
  assumes "prepare_changes env types pr rid i cs = Inr cs'"
  shows "distinct (map ch_id cs')"
  using prepare_changes_fields [OF assms] by (simp add: distinct_map inj_on_def nat_str_inj)

section \<open>What a new request looks like\<close>

text \<open>The fields of a change that naming, refreshing and filling in resources leave alone.\<close>

definition skeleton where
  "skeleton c = (ch_id c, ch_type c, ch_status c, ch_principal c, ch_autogenerated c,
     ch_source_change_id c)"

lemma skeletonD:
  assumes "skeleton c = skeleton c'"
  shows "ch_id c = ch_id c'" "ch_type c = ch_type c'" "ch_status c = ch_status c'"
    "ch_principal c = ch_principal c'" "ch_autogenerated c = ch_autogenerated c'"
    "ch_source_change_id c = ch_source_change_id c'"
  using assms by (simp_all add: skeleton_def)

lemma refreshes_skeleton: "refreshes c c' \<Longrightarrow> skeleton c' = skeleton c"
  by (simp add: refreshes_def skeleton_def same_but_policiesD)

lemma request_refreshed_skeletons:
  assumes "request_refreshed er er'"
  shows "map skeleton (er_changes er') = map skeleton (er_changes er)"
proof (rule nth_equalityI)
  show "length (map skeleton (er_changes er')) = length (map skeleton (er_changes er))"
    using request_refreshed_fields(8) [OF assms] by simp
  fix i assume "i < length (map skeleton (er_changes er'))"
  then show "map skeleton (er_changes er') ! i = map skeleton (er_changes er) ! i"
    using request_refreshed_nth [OF assms] request_refreshed_fields(8) [OF assms]
    by (simp add: refreshes_skeleton)
qed

lemma name_inline_policies_skeletons:
  "name_inline_policies env u role cs w = (Inr cs', w') \<Longrightarrow> map skeleton cs' = map skeleton cs"
proof (induction cs arbitrary: w cs' w')
  case Nil
  then show ?case by simp
next
  case (Cons c cs)
  from Cons.prems obtain name w1 cs1 where
    "name_inline_policies env u role cs w1 = (Inr cs1, w')"
    "cs' = c\<lparr>ch_policy_name := Some name\<rparr> # cs1"
    by (auto simp: bindW_eq_Inr Let_def)
  with Cons.IH show ?case by (auto simp: skeleton_def)
qed

lemma validate_request_inline:
  assumes "validate_request env u arn a p cs w = (Inr inline, w')"
  shows "map skeleton inline = map skeleton (of_type Inline_policy cs)"
  using assms
  by (auto simp: validate_request_def validate_principal_request_def bindW_eq_Inr refuse_def
      split: if_splits option.splits dest!: name_inline_policies_skeletons)

text \<open>The changes that are generated beside the submitted ones.\<close>

definition generated_from :: "change list \<Rightarrow> change \<Rightarrow> bool" where
  "generated_from cs g \<longleftrightarrow> ch_autogenerated g \<and> is_resource_policy_type (ch_type g) \<and>
     (\<exists>c \<in> set cs. ch_type c = Inline_policy \<and> ch_source_change_id g = ch_id c)"

lemma generated_type_resource:
  "generated_type env ts ps a c r = Inr (Some t) \<Longrightarrow> is_resource_policy_type t"
  by (auto simp: generated_type_def bindE_eq_Inr split: if_splits)

lemma generate_for_resources_spec:
  assumes "generate_for_resources env ts ps a pr pm c rs w = (Inr gs, w')" and "g \<in> set gs"
  shows "ch_autogenerated g \<and> is_resource_policy_type (ch_type g) \<and>
    ch_source_change_id g = ch_id c \<and> ch_status g = Not_applied \<and> ch_principal g = pr"
  using assms
proof (induction rs arbitrary: w gs w')
  case Nil
  then show ?case by simp
next
  case (Cons r rs)
  from Cons.prems(1) obtain t gs1 w1 gs2 where
    t: "generated_type env ts ps a c r = Inr t"
    and g1: "(case t of None \<Rightarrow> retW [] | Some ty \<Rightarrow> bindW (fresh_uuid env) (\<lambda>cid.
        retW [generated_change env pr pm c ty (rm_arn r) cid])) w = (Inr gs1, w1)"
    and g2: "generate_for_resources env ts ps a pr pm c rs w1 = (Inr gs2, w')"
    and gs: "gs = gs1 @ gs2"
    by (auto simp: bindW_eq_Inr)
  show ?case
  proof (cases "g \<in> set gs2")
    case True
    with Cons.IH [OF g2] show ?thesis by simp
  next
    case False
    with Cons.prems(2) gs have "g \<in> set gs1" by simp
    with g1 t show ?thesis
      by (auto simp: bindW_eq_Inr generated_change_def dest: generated_type_resource
          split: option.splits)
  qed
qed

lemma generate_for_changes_spec:
  assumes "generate_for_changes env ts ps a pr pm cs w = (Inr (cs', gs), w')"
  shows "map skeleton cs' = map skeleton cs \<and>
    (\<forall>g \<in> set gs. generated_from cs g \<and> ch_status g = Not_applied \<and> ch_principal g = pr)"
  using assms
proof (induction cs arbitrary: w cs' gs w')
  case Nil
  then show ?case by simp
next
  case (Cons c cs)
  from Cons.prems obtain c1 gs1 w1 cs2 gs2 where
    turn: "(if ch_type c = Inline_policy then
              bindW (liftW (get_resources_from_policy_change env c)) (\<lambda>rs.
              bindW (generate_for_resources env ts ps a pr pm c rs) (\<lambda>gs.
                retW (c\<lparr>ch_resources := rs\<rparr>, gs)))
            else retW (c, [])) w = (Inr (c1, gs1), w1)"
    and rest: "generate_for_changes env ts ps a pr pm cs w1 = (Inr (cs2, gs2), w')"
    and out: "cs' = c1 # cs2" "gs = gs1 @ gs2"
    by (auto simp: bindW_eq_Inr)
  have "skeleton c1 = skeleton c \<and> (\<forall>g \<in> set gs1. generated_from (c # cs) g \<and>
      ch_status g = Not_applied \<and> ch_principal g = pr)"
    using turn
    by (auto simp: bindW_eq_Inr skeleton_def generated_from_def split: if_splits
        dest: generate_for_resources_spec)
  with Cons.IH [OF rest] out show ?case by (auto simp: generated_from_def)
qed

lemma generate_for_role_spec:
  assumes "generate_for_role env ts ps arn a p er w = (Inr er', w')"
  shows "\<exists>cs gs. er' = er\<lparr>er_changes := cs @ gs, er_cross_account := er_cross_account er'\<rparr> \<and>
    map skeleton cs = map skeleton (er_changes er) \<and>
    (\<forall>g \<in> set gs. generated_from (er_changes er) g \<and> ch_status g = Not_applied \<and>
      ch_principal g = er_principal er)"
proof (cases "pa_service p \<noteq> ''iam'' \<or> pa_resource p \<noteq> ''role'' \<or> \<not> truthy_str (pa_resource_path p)")
  case True
  with assms have "er' = er" by (auto simp: generate_for_role_def)
  then show ?thesis by (intro exI [of _ "er_changes er"] exI [of _ "[]"]) simp
next
  case False
  with assms obtain pm w1 w2 cs gs where
    gen: "generate_for_changes env ts ps a (er_principal er) pm (er_changes er) w1 = (Inr (cs, gs), w2)"
    and out: "er\<lparr>er_changes := cs @ gs,
        er_cross_account := (if gs \<noteq> [] then True else er_cross_account er)\<rparr> = er'"
    unfolding generate_for_role_def if_not_P [OF False]
    by (force simp: bindW_eq_Inr)
  have "er' = er\<lparr>er_changes := cs @ gs, er_cross_account := er_cross_account er'\<rparr>"
    unfolding out [symmetric] by simp
  with generate_for_changes_spec [OF gen] show ?thesis by blast
qed

lemma generate_resource_policies_spec:
  assumes "generate_resource_policies env er w = (Inr er', w')"
  shows "\<exists>cs gs. er' = er\<lparr>er_changes := cs @ gs, er_cross_account := er_cross_account er'\<rparr> \<and>
    map skeleton cs = map skeleton (er_changes er) \<and>
    (\<forall>g \<in> set gs. generated_from (er_changes er) g \<and> ch_status g = Not_applied \<and>
      ch_principal g = er_principal er)"
proof (cases "er_principal er")
  case (Honeybee_template r i u)
  with assms have "er' = er" by (auto simp: generate_resource_policies_def bindW_eq_Inr)
  then show ?thesis by (intro exI [of _ "er_changes er"] exI [of _ "[]"]) simp
next
  case (Aws_resource arn)
  with assms obtain ts ps a p w1 where "generate_for_role env ts ps arn a p er w1 = (Inr er', w')"
    by (auto simp: generate_resource_policies_def bindW_eq_Inr)
  then show ?thesis by (rule generate_for_role_spec)
qed

text \<open>
  The changes of a new request: all pending and for its principal, the submitted ones with
  different ids, the others generated from them.
\<close>

definition fresh_changes :: "principal \<Rightarrow> change list \<Rightarrow> change list \<Rightarrow> bool" where
  "fresh_changes pr cs gs \<longleftrightarrow>
     (\<forall>c \<in> set (cs @ gs). ch_status c = Not_applied \<and> ch_principal c = pr \<and>
        ch_type c \<noteq> Generic_file) \<and>
     distinct (map ch_id cs) \<and> (\<forall>g \<in> set gs. generated_from cs g)"

text \<open>\<open>fresh_changes\<close> reads the skeletons only.\<close>

lemma skeletons_ids: "map skeleton xs = map skeleton ys \<Longrightarrow> map ch_id xs = map ch_id ys"
proof -
  assume "map skeleton xs = map skeleton ys"
  then have "map fst (map skeleton xs) = map fst (map skeleton ys)" by simp
  then show ?thesis by (simp add: skeleton_def comp_def)
qed

lemma skeletons_witness:
  assumes "map skeleton xs = map skeleton ys" and "x \<in> set xs"
  shows "\<exists>y \<in> set ys. skeleton x = skeleton y"
proof -
  have "skeleton x \<in> set (map skeleton xs)" using assms(2) by simp
  then show ?thesis unfolding assms(1) by auto
qed

lemma generated_from_skeletons:
  assumes "map skeleton cs = map skeleton cs'" and "skeleton g = skeleton g'"
    and "generated_from cs g"
  shows "generated_from cs' g'"
proof -
  from assms(3) obtain c where c: "c \<in> set cs" "ch_type c = Inline_policy"
      "ch_source_change_id g = ch_id c"
    by (auto simp: generated_from_def)
  from skeletons_witness [OF assms(1) c(1)] obtain c' where c': "c' \<in> set cs'"
      "skeleton c = skeleton c'" by blast
  show ?thesis
    using assms(3) c c' skeletonD [OF c'(2)] skeletonD [OF assms(2)]
    by (auto simp: generated_from_def)
qed

lemma fresh_changes_skeletons:
  assumes "fresh_changes pr cs gs" and "map skeleton cs' = map skeleton cs"
    and "map skeleton gs' = map skeleton gs"
  shows "fresh_changes pr cs' gs'"
  unfolding fresh_changes_def
proof (intro conjI ballI)
  fix c assume "c \<in> set (cs' @ gs')"
  then obtain d where "d \<in> set (cs @ gs)" "skeleton c = skeleton d"
    using skeletons_witness [of "cs' @ gs'" "cs @ gs"] assms(2,3) by auto
  then show "ch_status c = Not_applied" "ch_principal c = pr" "ch_type c \<noteq> Generic_file"
    using assms(1) skeletonD [of c d] by (auto simp: fresh_changes_def)
next
  show "distinct (map ch_id cs')"
    using assms(1) skeletons_ids [OF assms(2)] by (simp add: fresh_changes_def)
next
  fix g' assume "g' \<in> set gs'"
  then obtain g where "g \<in> set gs" "skeleton g' = skeleton g"
    using skeletons_witness [OF assms(3)] by blast
  then show "generated_from cs' g'"
    using assms(1) generated_from_skeletons [OF assms(2) [symmetric]]
    by (metis fresh_changes_def)
qed

text \<open>Sorting by type keeps the ids different.\<close>

lemma of_type_ids:
  assumes "distinct (map ch_id cs)" and "distinct ts"
  shows "distinct (concat (map (\<lambda>t. map ch_id (of_type t cs)) ts))"
  using assms(2)
proof (induction ts)
  case Nil
  then show ?case by simp
next
  case (Cons t ts)
  have different: "ch_id x \<noteq> ch_id y"
    if "x \<in> set (of_type t cs)" "y \<in> set (of_type t' cs)" "t \<noteq> t'" for x y t'
    using assms(1) that by (auto simp: of_type_def distinct_map inj_on_def)
  moreover have "distinct (map ch_id (of_type t cs))"
    using assms(1) by (simp add: of_type_def distinct_map_filter)
  moreover have "set (map ch_id (of_type t cs)) \<inter>
      set (concat (map (\<lambda>t. map ch_id (of_type t cs)) ts)) = {}"
    using different Cons.prems by (fastforce simp: disjoint_iff)
  ultimately show ?case using Cons by simp
qed

lemma arrange_changes_fresh:
  assumes "distinct (map ch_id cs)"
    and "\<forall>c \<in> set cs. ch_status c = Not_applied \<and> ch_principal c = pr"
    and "map skeleton inline = map skeleton (of_type Inline_policy cs)"
  shows "fresh_changes pr (arrange_changes inline cs) []"
proof -
  have "fresh_changes pr (arrange_changes (of_type Inline_policy cs) cs) []"
    using of_type_ids [OF assms(1), of "[Inline_policy, Managed_policy, Resource_policy,
      Assume_role_policy, Resource_tag, Permissions_boundary, Managed_policy_resource]"] assms(2)
    by (auto simp: fresh_changes_def arrange_changes_def of_type_def)
  then show ?thesis
    by (rule fresh_changes_skeletons) (simp_all add: arrange_changes_def assms(3))
qed

lemma generate_aws_request_fresh:
  assumes "generate_aws_request env rc user rid arn cs w = (Inr er, w')"
    and "distinct (map ch_id cs)"
    and "\<forall>c \<in> set cs. ch_status c = Not_applied \<and> ch_principal c = Aws_resource arn"
  shows "er_request_status er = Pending \<and> er_comments er = [] \<and> er_id er = rid \<and>
    er_principal er = Aws_resource arn \<and> er_requester_email er = user \<and>
    (\<exists>submitted generated. er_changes er = submitted @ generated \<and>
       fresh_changes (Aws_resource arn) submitted generated)"
proof -
  from assms(1) obtain account p url inline w2 er2 er3 w3 log where
    v: "validate_request env user arn account p cs w = (Inr inline, w2)"
    and e2: "populate_old_policies env log
      (initial_request env rc user rid arn url (arrange_changes inline cs)) None = Inr er2"
    and e3: "generate_resource_policies env er2 w2 = (Inr er3, w3)"
    and e4: "er = er3 \<or> (\<exists>log b. populate_old_managed_policies env log er3 = Inr (b, er))"
    by (auto simp: generate_aws_request_def bindW_eq_Inr split: if_splits) blast+
  define er1 where "er1 = initial_request env rc user rid arn url (arrange_changes inline cs)"
  have e1: "er_request_status er1 = Pending \<and> er_comments er1 = [] \<and> er_id er1 = rid \<and>
        er_principal er1 = Aws_resource arn \<and> er_requester_email er1 = user \<and>
        er_changes er1 = arrange_changes inline cs"
    by (simp add: er1_def initial_request_def)
  have f1: "fresh_changes (Aws_resource arn) (er_changes er1) []"
    using arrange_changes_fresh [OF assms(2,3) validate_request_inline [OF v]] e1 by simp
  note r2 = populate_old_policies_refreshed [OF e2, folded er1_def]
  have f2: "fresh_changes (Aws_resource arn) (er_changes er2) []"
    using fresh_changes_skeletons [OF f1 request_refreshed_skeletons [OF r2]] by simp
  note e2' = request_refreshed_fields [OF r2]
  from generate_resource_policies_spec [OF e3] obtain cs3 gs3 where
    e3': "er3 = er2\<lparr>er_changes := cs3 @ gs3, er_cross_account := er_cross_account er3\<rparr>"
    and cs3: "map skeleton cs3 = map skeleton (er_changes er2)"
    and gs3: "\<forall>g \<in> set gs3. generated_from (er_changes er2) g \<and> ch_status g = Not_applied \<and>
      ch_principal g = er_principal er2" by blast
  have f3: "fresh_changes (Aws_resource arn) cs3 gs3"
  proof (rule fresh_changes_skeletons)
    show "fresh_changes (Aws_resource arn) (er_changes er2) gs3"
      using f2 gs3 e2' e1 by (auto simp: fresh_changes_def generated_from_def)
  qed (use cs3 in simp_all)
  have fields3: "er_request_status er3 = Pending" "er_comments er3 = []" "er_id er3 = rid"
      "er_principal er3 = Aws_resource arn" "er_requester_email er3 = user"
      "er_changes er3 = cs3 @ gs3"
    using e1 e2' by (subst e3', simp)+
  from e4 show ?thesis
  proof
    assume "er = er3"
    then show ?thesis using fields3 f3 by auto
  next
    assume "\<exists>log b. populate_old_managed_policies env log er3 = Inr (b, er)"
    then have r4: "request_refreshed er3 er" using populate_old_managed_policies_refreshed by blast
    have sk: "map skeleton (er_changes er) = map skeleton cs3 @ map skeleton gs3"
      using request_refreshed_skeletons [OF r4] fields3 by simp
    have "map skeleton (take (length cs3) (er_changes er)) = map skeleton cs3"
      "map skeleton (drop (length cs3) (er_changes er)) = map skeleton gs3"
      using sk by (simp_all add: take_map [symmetric] drop_map [symmetric])
    from fresh_changes_skeletons [OF f3 this]
    have "\<exists>submitted generated. er_changes er = submitted @ generated \<and>
        fresh_changes (Aws_resource arn) submitted generated"
      by (metis append_take_drop_id)
    then show ?thesis using request_refreshed_fields [OF r4] fields3 by simp
  qed
qed

section \<open>Properties\<close>

text \<open>C10: a new request is well formed: it is pending and uncommented, belongs to the user whose name
  is kept to the limit, and is for the principal of the first change, as all its changes are;
  every change is still to be applied, the submitted ones have different ids, each of the others
  is a resource policy generated for one of the submitted inline policies; and creating it has
  called nothing of AWS and written nothing.\<close>

theorem new_request_well_formed:
  assumes "generate_request env honeybee rc user w = (Inr er, w')"
    and "rc_changes rc = first # rest" and "ch_principal first = Aws_resource arn"
  shows "er_request_status er = Pending \<and> er_comments er = [] \<and>
    er_principal er = Aws_resource arn \<and> er_requester_email er = shorten_user user \<and>
    (\<exists>submitted generated. er_changes er = submitted @ generated \<and>
       fresh_changes (Aws_resource arn) submitted generated) \<and>
    w_calls w' = w_calls w \<and> w_table w' = w_table w"
proof -
  from assms obtain rid types cs w1 where
    rid: "fresh_uuid env w = (Inr rid, w1)"
    and cs: "prepare_changes env types (Aws_resource arn) rid 0 (first # rest) = Inr cs"
    and gen: "generate_aws_request env rc (shorten_user user) rid arn cs w1 = (Inr er, w')"
    by (auto simp: generate_request_def bindW_eq_Inr)
  have "same_calls w w1" "same_table w w1"
    using cls.keepsD [OF fresh_uuid_frames(4) rid] tbl.keepsD [OF fresh_uuid_frames(1) rid] .
  moreover have "same_calls w1 w'" "same_table w1 w'"
    using cls.keepsD [OF generate_aws_request_frames(3) gen]
      tbl.keepsD [OF generate_aws_request_frames(1) gen] .
  ultimately have "w_calls w' = w_calls w \<and> w_table w' = w_table w"
    by (simp add: same_calls_def same_table_def)
  then show ?thesis
    using generate_aws_request_fresh [OF gen prepare_changes_distinct [OF cs]]
      prepare_changes_fields [OF cs] by blast
qed

definition cross_creation :: request_creation where
  "cross_creation = \<lparr>rc_changes = [bucket_change own_bucket,
     inline_change\<lparr>ch_policy := Some (example_policy\<lparr>pm_document := JObj [(''Statement'', JList
       [JObj [(''Action'', JStr ''s3:GetObject''), (''Resource'', JList [JStr foreign_bucket])]])]\<rparr>)\<rparr>],
     rc_justification = None, rc_dry_run = False, rc_admin_auto_approve = False\<rparr>"

definition no_templates :: "request_creation \<Rightarrow> string \<Rightarrow> string \<Rightarrow> (world, extended_request) io" where
  "no_templates rc user rid = failW (PyException ''no templates'')"

theorem new_request_well_formed_witness:
  "\<exists>er w'. generate_request example_env no_templates cross_creation ''dev''
       (example_world (example_request [])) = (Inr er, w') \<and>
     er_request_status er = Pending \<and> length (er_changes er) = 3 \<and>
     (\<exists>submitted generated. er_changes er = submitted @ generated \<and>
       fresh_changes (Aws_resource app_arn) submitted generated)"
proof -
  let ?run = "generate_request example_env no_templates cross_creation ''dev''
      (example_world (example_request []))"
  have "(case ?run of (Inr er, w') \<Rightarrow> length (er_changes er) = 3 | _ \<Rightarrow> False)"
    by code_simp
  then obtain er w' where run: "?run = (Inr er, w')" and n: "length (er_changes er) = 3"
    by (auto split: prod.splits sum.splits)
  from new_request_well_formed [OF run] run n show ?thesis
    by (simp add: cross_creation_def bucket_change_def)
qed

text \<open>C17: which requests may go to the auto-approval probes: those in which every change is an
  inline policy or a resource policy that was generated.\<close>

theorem eligible_for_auto_approval_iff:
  "is_request_eligible_for_auto_approval er = Inr True \<longleftrightarrow>
     (\<exists>arn. er_principal er = Aws_resource arn) \<and>
     list_all (\<lambda>c. ch_type c = Inline_policy \<or>
       is_resource_policy_type (ch_type c) \<and> ch_autogenerated c) (er_changes er)"
proof -
  have "only_inline cs \<longleftrightarrow> list_all (\<lambda>c. ch_type c = Inline_policy \<or>
      is_resource_policy_type (ch_type c) \<and> ch_autogenerated c) cs" for cs
    by (induction cs) auto
  then show ?thesis
    by (cases "er_principal er") (simp_all add: is_request_eligible_for_auto_approval_def)
qed



lemma py_split_no_sep: "c \<notin> set s \<Longrightarrow> py_split c s = [s]"
  by (induction c s rule: py_split.induct) auto

lemma length_py_take: "0 \<le> k \<Longrightarrow> length (py_take k s) \<le> nat k"
  by (simp add: py_take_def)

text \<open>C34: the limit of 64 characters on the requester's name holds when the domain leaves room for
  it, but not for a name without a domain: there the name is cut and then appended in full.\<close>

theorem requester_name_limit:
  "(length (last (py_split CHR ''@'' user)) < 64 \<longrightarrow> length (shorten_user user) \<le> 64) \<and>
   (CHR ''@'' \<notin> set user \<and> 64 < length user \<longrightarrow> length (shorten_user user) = 64 + length user)"
proof (intro conjI impI)
  let ?d = "last (py_split CHR ''@'' user)" and ?n = "hd (py_split CHR ''@'' user)"
  assume d: "length ?d < 64"
  have "length (py_take (64 - (int (length ?d) + 1)) ?n) \<le> nat (64 - (int (length ?d) + 1))"
    using d by (intro length_py_take) simp
  then have "length (py_take (64 - (int (length ?d) + 1)) ?n) + length ?d \<le> 63"
    using d by linarith
  then show "length (shorten_user user) \<le> 64" by (auto simp: shorten_user_def Let_def)
next
  assume "CHR ''@'' \<notin> set user \<and> 64 < length user"
  then show "length (shorten_user user) = 64 + length user"
    by (simp add: shorten_user_def Let_def py_split_no_sep py_take_def) arith
qed

theorem requester_name_limit_witness:
  "length (shorten_user (replicate 70 CHR ''a'')) = 134 \<and>
   length (shorten_user (replicate 70 CHR ''a'' @ ''@x'')) \<le> 64"
proof
  show "length (shorten_user (replicate 70 CHR ''a'')) = 134"
    using requester_name_limit [of "replicate 70 CHR ''a''"] by simp
  have "length (last (py_split CHR ''@'' (replicate 70 CHR ''a'' @ ''@x''))) < 64" by code_simp
  then show "length (shorten_user (replicate 70 CHR ''a'' @ ''@x'')) \<le> 64"
    using requester_name_limit [of "replicate 70 CHR ''a'' @ ''@x''"] by simp
qed

end
