(* ===== verification/Apply.thy ===== *)
theory Apply
  imports Populate
begin

text \<open>
  Applying changes to AWS (consoleme/lib/v2/requests.py 842-1277, 1651-2307). Every applier
  does its calls inside \<open>try\<close>: an exception becomes an error result and leaves the change's
  status alone, running through marks the change as applied. A call made before a failing one
  stays made. \<open>applier\<close> is the contract the request life cycle relies on; it is
  discharged for each of the five appliers.
\<close>

section \<open>A sequence of calls inside one \<open>try\<close>\<close>

text \<open>
  \<open>attempt steps err c r\<close>: the steps in order, each followed by its success results, then
  \<open>change.status = Status.applied\<close>; the first exception ends the sequence with the error
  result \<open>err (str e)\<close>.
\<close>

fun attempt :: "(('w, unit) io \<times> string) list \<Rightarrow> (string \<Rightarrow> string) \<Rightarrow> change \<Rightarrow> response
    \<Rightarrow> ('w, change \<times> response) io" where
  "attempt [] err c r = retW (c\<lparr>ch_status := Applied\<rparr>, r)"
| "attempt ((m, msg) # steps) err c r = (\<lambda>w. case m w of
      (Inl e, w') \<Rightarrow> (Inr (c, add_error (err (err_str e)) r), w')
    | (Inr _, w') \<Rightarrow> attempt steps err c (add_success msg r) w')"

section \<open>Roles and users\<close>

text \<open>The principal of the request, as \<open>apply_changes_to_role\<close> finds it in the ARN.\<close>

record target =
  tg_user :: bool
  tg_name :: string
  tg_account :: string

definition put_inline :: "env \<Rightarrow> target \<Rightarrow> change \<Rightarrow> json \<Rightarrow> (world, unit) io" where
  "put_inline env t c doc = aws_do env
     (if tg_user t then Put_user_policy (tg_account t) (tg_name t) (ch_policy_name c) doc
      else Put_role_policy (tg_account t) (tg_name t) (ch_policy_name c) doc)"

definition apply_inline_policy ::
  "env \<Rightarrow> target \<Rightarrow> change \<Rightarrow> response \<Rightarrow> (world, change \<times> response) io" where
  "apply_inline_policy env t c r =
     (let policy = str_or (ch_policy_name c) ''None''
      in case ch_action c of
           Some Attach \<Rightarrow> attempt
             [(bindW (liftW (policy_document c)) (put_inline env t c),
               ''Successfully applied inline policy '' @ policy @ '' to principal: '' @ tg_name t)]
             (\<lambda>e. ''Error occurred applying inline policy '' @ policy @ '' to principal: '' @
               tg_name t @ '': '' @ e) c r
         | Some Detach \<Rightarrow> attempt
             [(aws_do env
                 (if tg_user t
                  then Delete_user_policy (tg_account t) (tg_name t) (ch_policy_name c)
                  else Delete_role_policy (tg_account t) (tg_name t) (ch_policy_name c)),
               ''Successfully deleted inline policy '' @ policy @ '' from principal: '' @
               tg_name t)]
             (\<lambda>e. ''Error occurred deleting inline policy '' @ policy @ '' from principal: '' @
               tg_name t @ '' '' @ e) c r
         | None \<Rightarrow> retW (c, r))"

definition apply_permissions_boundary ::
  "env \<Rightarrow> target \<Rightarrow> change \<Rightarrow> response \<Rightarrow> (world, change \<times> response) io" where
  "apply_permissions_boundary env t c r =
     (case ch_action c of
        Some Attach \<Rightarrow> attempt
          [(aws_do env
              (if tg_user t then Put_user_permissions_boundary (tg_account t) (tg_name t) (ch_arn c)
               else Put_role_permissions_boundary (tg_account t) (tg_name t) (ch_arn c)),
            ''Successfully attached permissions boundary '' @ ch_arn c @ '' to principal: '' @
            tg_name t)]
          (\<lambda>e. ''Error occurred attaching permissions boundary '' @ ch_arn c @
            '' to principal: '' @ tg_name t @ '': '' @ e) c r
      | Some Detach \<Rightarrow> attempt
          [(aws_do env
              (if tg_user t then Delete_user_permissions_boundary (tg_account t) (tg_name t)
               else Delete_role_permissions_boundary (tg_account t) (tg_name t)),
            ''Successfully detached permissions boundary '' @ ch_arn c @ '' from principal: '' @
            tg_name t)]
          (\<lambda>e. ''Error occurred detaching permissions boundary '' @ ch_arn c @
            '' from principal: '' @ tg_name t @ '': '' @ e) c r
      | None \<Rightarrow> retW (c, r))"

text \<open>The message of a failed attachment lacks the \<open>f\<close> prefix before the principal's name.\<close>

definition apply_managed_policy ::
  "env \<Rightarrow> target \<Rightarrow> change \<Rightarrow> response \<Rightarrow> (world, change \<times> response) io" where
  "apply_managed_policy env t c r =
     (case ch_action c of
        Some Attach \<Rightarrow> attempt
          [(aws_do env
              (if tg_user t then Attach_user_policy (tg_account t) (tg_name t) (ch_arn c)
               else Attach_role_policy (tg_account t) (tg_name t) (ch_arn c)),
            ''Successfully attached managed policy '' @ ch_arn c @ '' to principal: '' @ tg_name t)]
          (\<lambda>e. ''Error occurred attaching managed policy '' @ ch_arn c @
            '' to principal: {principal_name}: '' @ e) c r
      | Some Detach \<Rightarrow> attempt
          [(aws_do env
              (if tg_user t then Detach_user_policy (tg_account t) (tg_name t) (ch_arn c)
               else Detach_role_policy (tg_account t) (tg_name t) (ch_arn c)),
            ''Successfully detached managed policy '' @ ch_arn c @ '' from principal: '' @
            tg_name t)]
          (\<lambda>e. ''Error occurred detaching managed policy '' @ ch_arn c @ '' from principal: '' @
            tg_name t @ '': '' @ e) c r
      | None \<Rightarrow> retW (c, r))"

definition apply_assume_role_policy ::
  "env \<Rightarrow> target \<Rightarrow> change \<Rightarrow> response \<Rightarrow> (world, change \<times> response) io" where
  "apply_assume_role_policy env t c r =
     (if tg_user t then failW (UnsupportedChangeType
        (''IAM users don'' @ [CHR 39] @ ''t have assume role policies. Unable to process request.''))
      else attempt
        [(bindW (liftW (policy_document c))
            (\<lambda>doc. aws_do env (Update_assume_role_policy (tg_account t) (tg_name t) doc)),
          ''Successfully updated assume role policy for principal: '' @ tg_name t)]
        (\<lambda>e. ''Error occurred updating assume role policy for principal: '' @ tg_name t @
          '': '' @ e) c r)"

text \<open>A key or value left empty keeps the original one.\<close>

definition fill_tag :: "change \<Rightarrow> change" where
  "fill_tag c = c\<lparr>
     ch_key := (if truthy_str (ch_original_key c) \<and> \<not> truthy_str (ch_key c)
                then ch_original_key c else ch_key c),
     ch_value := (if truthy_str (ch_original_value c) \<and> \<not> truthy_str (ch_value c)
                  then ch_original_value c else ch_value c)\<rparr>"

definition tag_renamed :: "change \<Rightarrow> bool" where
  "tag_renamed c \<longleftrightarrow> truthy_str (ch_original_key c) \<and> ch_original_key c \<noteq> ch_key c"

definition is_tag_write :: "change \<Rightarrow> bool" where
  "is_tag_write c \<longleftrightarrow> ch_tag_action c = Some Tag_create \<or> ch_tag_action c = Some Tag_update"

text \<open>
  Tagging an IAM object: the new tag is written first, then the old name removed; a failure in
  between leaves both tags and an error.
\<close>

definition tag_calls :: "env \<Rightarrow> aws_call \<Rightarrow> aws_call \<Rightarrow> string \<Rightarrow> change
    \<Rightarrow> ((world, unit) io \<times> string) list" where
  "tag_calls env put_tag remove_old what c =
     (aws_do env put_tag, ''Successfully created or updated tag for '' @ what) #
     (if tag_renamed c
      then [(aws_do env remove_old, ''Successfully renamed tag '' @
              str_or (ch_original_key c) ''None'' @ '' to '' @ str_or (ch_key c) ''None'' @ ''.'')]
      else [])"

definition apply_principal_tag ::
  "env \<Rightarrow> target \<Rightarrow> change \<Rightarrow> response \<Rightarrow> (world, change \<times> response) io" where
  "apply_principal_tag env t change r =
     (let what = ''principal: '' @ tg_name t;
          tag = (\<lambda>c. if tg_user t then Tag_user (tg_account t) (tg_name t) (ch_key c) (ch_value c)
                  else Tag_role (tg_account t) (tg_name t) (ch_key c) (ch_value c));
          untag = (\<lambda>k. if tg_user t then Untag_user (tg_account t) (tg_name t) k
                    else Untag_role (tg_account t) (tg_name t) k)
      in if is_tag_write change then
           (let c = fill_tag change in
            attempt (tag_calls env (tag c) (untag (ch_original_key c)) what c)
              (\<lambda>e. ''Error occurred updating tag for '' @ what @ '': '' @ e) c r)
         else if ch_tag_action change = Some Tag_delete then
           attempt [(aws_do env (untag (ch_key change)), ''Successfully deleted tag for '' @ what)]
             (\<lambda>e. ''Error occurred deleting tag for '' @ what @ '': '' @ e) change r
         else retW (change, r))"

text \<open>
  One turn of the loop of \<open>apply_changes_to_role\<close> for a change that is not skipped. Any other
  type is an error unless it was generated for a request an administrator approved at once.
\<close>

definition apply_role_change ::
  "env \<Rightarrow> bool \<Rightarrow> target \<Rightarrow> change \<Rightarrow> response \<Rightarrow> (world, change \<times> response) io" where
  "apply_role_change env auto_approve t c r =
     (case ch_type c of
        Inline_policy \<Rightarrow> apply_inline_policy env t c r
      | Permissions_boundary \<Rightarrow> apply_permissions_boundary env t c r
      | Managed_policy \<Rightarrow> apply_managed_policy env t c r
      | Assume_role_policy \<Rightarrow> apply_assume_role_policy env t c r
      | Resource_tag \<Rightarrow> apply_principal_tag env t c r
      | other \<Rightarrow>
          if ch_autogenerated c \<and> auto_approve then retW (c, r)
          else retW (c, add_error (''Error occurred applying: Change type '' @
                 change_type_value other @ '' is not supported'') r))"

text \<open>\<open>if specific_change_id and change.id != specific_change_id: continue\<close>\<close>

definition selected :: "string option \<Rightarrow> change \<Rightarrow> bool" where
  "selected specific c \<longleftrightarrow> ch_status c \<noteq> Applied \<and> (truthy_str specific \<longrightarrow> ch_id c = specific)"

fun apply_role_changes ::
  "env \<Rightarrow> bool \<Rightarrow> target \<Rightarrow> string option \<Rightarrow> change list \<Rightarrow> response
     \<Rightarrow> (world, change list \<times> response) io" where
  "apply_role_changes env auto_approve t specific [] r = retW ([], r)"
| "apply_role_changes env auto_approve t specific (c # cs) r =
     bindW (if selected specific c then apply_role_change env auto_approve t c r else retW (c, r))
       (\<lambda>(c', r').
     bindW (apply_role_changes env auto_approve t specific cs r') (\<lambda>(cs', r'').
       retW (c' # cs', r'')))"

definition apply_changes_to_role ::
  "env \<Rightarrow> string \<Rightarrow> string option \<Rightarrow> extended_request \<Rightarrow> response
     \<Rightarrow> (world, extended_request \<times> response) io" where
  "apply_changes_to_role env user specific er r =
     bindW (liftW (principal_arn (er_principal er))) (\<lambda>arn.
     bindW (liftW (e_parse_arn env arn)) (\<lambda>p.
     if \<not> is_role_or_user p then
       retW (er, add_error (''Resource not found, or ARN type not supported for '' @
         ''inline/managed/assume role policy changes.'') r)
     else
       bindW (liftW (resource_path_name p)) (\<lambda>name.
       bindW (liftW (get_resource_account env arn)) (\<lambda>account.
       bindW (aws_do env (Boto3_conn account ''iam''
                (sanitize_session_name (''principal-updater-'' @ user)))) (\<lambda>_.
       bindW (apply_role_changes env (er_admin_auto_approve er)
                \<lparr>tg_user = (pa_resource p = ''user''), tg_name = name, tg_account = account\<rparr>
                specific (er_changes er) r) (\<lambda>(cs, r').
         retW (er\<lparr>er_changes := cs\<rparr>, r')))))))"

section \<open>Tags of managed policies\<close>

definition cannot_determine_account :: "string \<Rightarrow> string" where
  "cannot_determine_account x =
     ''Cannot apply change to '' @ x @ '' as cannot determine resource account''"

definition not_supported :: "string \<Rightarrow> string" where
  "not_supported x =
     ''Cannot apply change to '' @ x @ '' as it'' @ [CHR 39] @ ''s not supported''"

text \<open>
  The four appliers for a single change get the change's index; the change is written back
  where it stands in the request.
\<close>

definition with_change ::
  "nat \<Rightarrow> (change \<Rightarrow> response \<Rightarrow> (world, change \<times> response) io) \<Rightarrow> extended_request \<Rightarrow> response
     \<Rightarrow> (world, extended_request \<times> response) io" where
  "with_change i f er r =
     bindW (f (er_changes er ! i) r) (\<lambda>(c, r'). retW (replace_change i c er, r'))"

definition tag_managed_policy ::
  "env \<Rightarrow> string \<Rightarrow> change \<Rightarrow> response \<Rightarrow> (world, change \<times> response) io" where
  "tag_managed_policy env user change r =
     bindW (liftW (principal_arn (ch_principal change))) (\<lambda>arn.
     bindW (liftW (e_parse_arn env arn)) (\<lambda>p.
     bindW (liftW (owner_account env arn p)) (\<lambda>account.
     let what = ''managed policy: '' @ arn in
     if account = [] then
       retW (change, add_error (cannot_determine_account (e_principal_json env (ch_principal change))) r)
     else if pa_service p \<noteq> ''iam'' \<or> pa_resource p \<noteq> ''policy'' \<or> account = ''aws'' then
       retW (change, add_error (not_supported (e_principal_json env (ch_principal change))) r)
     else
       bindW (aws_do env (Boto3_conn account ''iam'' (sanitize_session_name (''tag-updater-'' @ user))))
         (\<lambda>_.
       if is_tag_write change then
         (let c = fill_tag change in
          attempt (tag_calls env (Tag_policy account arn (ch_key c) (ch_value c))
                     (Untag_policy account arn (ch_original_key c)) what c)
            (\<lambda>e. ''Error occurred updating tag for '' @ what @ '': '' @ e) c r)
       else if ch_tag_action change = Some Tag_delete then
         attempt [(aws_do env (Untag_policy account arn (ch_key change)),
                   ''Successfully deleted tag for '' @ what)]
           (\<lambda>e. ''Error occurred deleting tag for '' @ what @ '': '' @ e) change r
       else retW (change, add_error ''Unsupport change requested for tag None'' r)))))"

definition apply_managed_policy_resource_tag_change ::
  "env \<Rightarrow> string \<Rightarrow> nat \<Rightarrow> extended_request \<Rightarrow> response
     \<Rightarrow> (world, extended_request \<times> response) io" where
  "apply_managed_policy_resource_tag_change env user i =
     with_change i (tag_managed_policy env user)"

section \<open>Tags of buckets, topics and queues\<close>

text \<open>\<open>json\<close> for a tag's key or value: \<open>None\<close> is null.\<close>

definition opt_json :: "string option \<Rightarrow> json" where
  "opt_json s = (case s of None \<Rightarrow> JNull | Some v \<Rightarrow> JStr v)"

definition tag_entry :: "change \<Rightarrow> json" where
  "tag_entry c = JObj [(''Key'', opt_json (ch_key c)), (''Value'', opt_json (ch_value c))]"

text \<open>
  A bucket's tags are written as a whole. The new tag set: the old name is left out when the
  tag is renamed, an existing tag with the key is replaced, a new one goes to the end. The
  result says whether the key was there.
\<close>

fun updated_tagset :: "change \<Rightarrow> json list \<Rightarrow> (bool \<times> json list) res" where
  "updated_tagset c [] = Inr (False, [])"
| "updated_tagset c (tag # tags) =
     bindE (if tag_renamed c then bindE (jget ''Key'' tag)
              (\<lambda>k. Inr (json_eq k (opt_json (ch_original_key c)))) else Inr False) (\<lambda>skip.
     if skip then updated_tagset c tags
     else
       bindE (jindex ''Key'' tag) (\<lambda>k.
       bindE (updated_tagset c tags) (\<lambda>(found, rest).
         if json_eq (opt_json (ch_key c)) k then Inr (True, tag_entry c # rest)
         else Inr (found, tag # rest))))"

definition put_tagset :: "change \<Rightarrow> json list \<Rightarrow> json list res" where
  "put_tagset c tags = bindE (updated_tagset c tags) (\<lambda>(found, rest).
     Inr (if found then rest else rest @ [tag_entry c]))"

fun remaining_tagset :: "change \<Rightarrow> json list \<Rightarrow> json list res" where
  "remaining_tagset c [] = Inr []"
| "remaining_tagset c (tag # tags) =
     bindE (jget ''Key'' tag) (\<lambda>k.
     bindE (remaining_tagset c tags) (\<lambda>rest.
       Inr (if json_eq k (opt_json (ch_key c)) then rest else tag # rest)))"

definition tag_bucket :: "env \<Rightarrow> string \<Rightarrow> string \<Rightarrow> json \<Rightarrow> change \<Rightarrow> (world, unit) io" where
  "tag_bucket env account name details c =
     (if is_tag_write c then
        bindW (liftW (bindE (bindE (jindex ''TagSet'' details) jiter) (put_tagset c)))
          (\<lambda>tags. aws_do env (Put_bucket_tagging account name tags))
      else if ch_tag_action c = Some Tag_delete then
        bindW (liftW (bindE (bindE (jindex ''TagSet'' details) jiter) (remaining_tagset c)))
          (\<lambda>tags. aws_do env (Put_bucket_tagging account name tags))
      else retW ())"

definition tag_topic :: "env \<Rightarrow> string \<Rightarrow> string \<Rightarrow> change \<Rightarrow> (world, unit) io" where
  "tag_topic env account arn c =
     (if is_tag_write c then
        bindW (aws_do env (Sns_tag_resource account arn (ch_key c) (ch_value c))) (\<lambda>_.
          if tag_renamed c then aws_do env (Sns_untag_resource account arn (ch_original_key c))
          else retW ())
      else if ch_tag_action c = Some Tag_delete
        then aws_do env (Sns_untag_resource account arn (ch_key c))
      else retW ())"

definition tag_queue :: "env \<Rightarrow> string \<Rightarrow> json \<Rightarrow> change \<Rightarrow> (world, unit) io" where
  "tag_queue env account details c =
     (if is_tag_write c then
        bindW (liftW (jindex ''QueueUrl'' details)) (\<lambda>url.
        bindW (aws_do env (Tag_queue account url (ch_key c) (ch_value c))) (\<lambda>_.
          if tag_renamed c then aws_do env (Untag_queue account url (ch_original_key c))
          else retW ()))
      else if ch_tag_action c = Some Tag_delete then
        bindW (liftW (jindex ''QueueUrl'' details)) (\<lambda>url.
          aws_do env (Untag_queue account url (ch_key c)))
      else retW ())"

text \<open>
  The whole of connecting, reading the resource and tagging is one \<open>try\<close>. The key and value
  are filled in after the resource was read, so a failure before leaves the change alone.
\<close>

definition tag_resource_try ::
  "env \<Rightarrow> string \<Rightarrow> string \<Rightarrow> arn_parts \<Rightarrow> string \<Rightarrow> string option \<Rightarrow> (world, json) io" where
  "tag_resource_try env user arn p account region =
     bindW (aws_do env (Boto3_conn account (pa_service p)
              (sanitize_session_name (''apply-resource-tag-'' @ user)))) (\<lambda>_.
       readW (\<lambda>w. e_resource_details env (w_calls w) account (pa_service p) (pa_resource p) region))"

definition tag_resource_calls ::
  "env \<Rightarrow> string \<Rightarrow> arn_parts \<Rightarrow> string \<Rightarrow> json \<Rightarrow> change \<Rightarrow> (world, unit) io" where
  "tag_resource_calls env arn p account details c =
     (if pa_service p = ''s3'' then tag_bucket env account (pa_resource p) details c
      else if pa_service p = ''sns'' then tag_topic env account arn c
      else if pa_service p = ''sqs'' then tag_queue env account details c
      else retW ())"

text \<open>The region of a bucket is asked for when its ARN has none, before the account is checked.\<close>

definition resource_region ::
  "env \<Rightarrow> arn_parts \<Rightarrow> string \<Rightarrow> (world, string option) io" where
  "resource_region env p account =
     (if pa_service p = ''s3'' \<and> \<not> truthy_str (pa_region p)
      then readW (\<lambda>w. bindE (e_bucket_location env (w_calls w) (pa_resource p) account)
             (\<lambda>l. Inr (Some l)))
      else retW (pa_region p))"

definition tag_resource ::
  "env \<Rightarrow> string \<Rightarrow> string \<Rightarrow> arn_parts \<Rightarrow> string \<Rightarrow> string option \<Rightarrow> change \<Rightarrow> response
     \<Rightarrow> (world, change \<times> response) io" where
  "tag_resource env user arn p account region change r = (\<lambda>w.
     let err = (\<lambda>e. ''Error occurred changing resource tags for '' @ arn @ e)
     in case tag_resource_try env user arn p account region w of
          (Inl e, w') \<Rightarrow> (Inr (change, add_error (err (err_str e)) r), w')
        | (Inr details, w') \<Rightarrow>
            (let c = fill_tag change in
             attempt [(tag_resource_calls env arn p account details c,
                       ''Successfully updated resource policy for '' @ arn)] err c r w'))"

definition tag_non_iam_resource ::
  "env \<Rightarrow> string \<Rightarrow> change \<Rightarrow> response \<Rightarrow> (world, change \<times> response) io" where
  "tag_non_iam_resource env user change r =
     bindW (liftW (principal_arn (ch_principal change))) (\<lambda>arn.
     bindW (liftW (e_parse_arn env arn)) (\<lambda>p.
     bindW (liftW (owner_account env arn p)) (\<lambda>account.
     bindW (resource_region env p account) (\<lambda>region.
     if account = [] then
       retW (change, add_error (cannot_determine_account (e_principal_json env (ch_principal change))) r)
     else
       bindW (liftW (supported_resource_types env)) (\<lambda>types.
       if pa_service p \<notin> set types then
         retW (change, add_error (not_supported (e_principal_json env (ch_principal change))) r)
       else tag_resource env user arn p account region change r)))))"

definition apply_non_iam_resource_tag_change ::
  "env \<Rightarrow> string \<Rightarrow> nat \<Rightarrow> extended_request \<Rightarrow> response
     \<Rightarrow> (world, extended_request \<times> response) io" where
  "apply_non_iam_resource_tag_change env user i = with_change i (tag_non_iam_resource env user)"

section \<open>Managed policies\<close>

text \<open>\<open>s.replace(p, "")\<close>\<close>

function remove_all :: "string \<Rightarrow> string \<Rightarrow> string" where
  "remove_all p [] = []"
| "remove_all p (x # xs) =
     (if p \<noteq> [] \<and> prefix p (x # xs) then remove_all p (drop (length p) (x # xs))
      else x # remove_all p xs)"
  by pat_completeness auto
termination by (relation "measure (\<lambda>(p, s). length s)") auto

text \<open>
  The current policy is stored as the old one first (\<open>populate_old_managed_policies\<close>), so the
  change that is applied is the one after that. A new policy is created under the path of the
  ARN, an existing one gets a new version.
\<close>

definition write_managed_policy ::
  "env \<Rightarrow> string \<Rightarrow> string \<Rightarrow> string \<Rightarrow> string \<Rightarrow> string \<Rightarrow> change \<Rightarrow> response
     \<Rightarrow> (world, change \<times> response) io" where
  "write_managed_policy env user account arn path policy_name c r =
     (if ch_new c then
        attempt
          [(bindW (liftW (policy_document c)) (\<lambda>doc.
              create_or_update_managed_policy env account doc policy_name arn
                (''Managed Policy created using ConsoleMe by '' @ user)
                (''/'' @ remove_all policy_name path) False),
            ''Successfully created managed policy '' @ arn)]
          (\<lambda>e. ''Error occurred creating managed policy: '' @ e) c r
      else
        attempt
          [(bindW (liftW (policy_document c)) (\<lambda>doc.
              create_or_update_managed_policy env account doc policy_name arn [] [] True),
            ''Successfully updated managed policy '' @ arn)]
          (\<lambda>e. ''Error occurred creating updating policy: '' @ e) c r)"

definition apply_managed_policy_resource_change ::
  "env \<Rightarrow> string \<Rightarrow> nat \<Rightarrow> extended_request \<Rightarrow> response
     \<Rightarrow> (world, extended_request \<times> response) io" where
  "apply_managed_policy_resource_change env user i er r =
     bindW (liftW (principal_arn (er_principal er))) (\<lambda>arn.
     bindW (liftW (e_parse_arn env arn)) (\<lambda>p.
     if pa_service p \<noteq> ''iam'' \<or> pa_resource p \<noteq> ''policy'' \<or> pa_account p = Some ''aws'' then
       retW (er, add_error ''ARN type not supported for managed policy resource changes.'' r)
     else if \<not> truthy_str (pa_account p) then
       retW (er, add_error (cannot_determine_account arn) r)
     else
       bindW (readW (\<lambda>w. populate_old_managed_policies env (w_calls w) er)) (\<lambda>(changed, er).
       bindW (liftW (resource_path_name p)) (\<lambda>policy_name.
         with_change i (write_managed_policy env user (str_or (pa_account p) []) arn
           (str_or (pa_resource_path p) []) policy_name) er r))))"

section \<open>Resource policies\<close>

definition put_resource_policy ::
  "env \<Rightarrow> string \<Rightarrow> arn_parts \<Rightarrow> change \<Rightarrow> (world, unit) io" where
  "put_resource_policy env account p c =
     (if pa_service p = ''s3'' then
        bindW (liftW (policy_document c))
          (\<lambda>doc. aws_do env (Put_bucket_policy account (pa_resource p) doc))
      else if pa_service p = ''sns'' then
        bindW (liftW (policy_document c)) (\<lambda>doc. aws_do env (Set_topic_policy account (ch_arn c) doc))
      else if pa_service p = ''sqs'' then
        bindW (aws env (Get_queue_url account (pa_resource p))) (\<lambda>answer.
        bindW (liftW (jget ''QueueUrl'' answer)) (\<lambda>url.
        bindW (liftW (policy_document c)) (\<lambda>doc. aws_do env (Set_queue_policy account url doc))))
      else if pa_service p = ''iam'' then
        bindW (liftW (resource_path_name p)) (\<lambda>role_name.
        bindW (liftW (policy_document c)) (\<lambda>doc.
        bindW (aws_do env (Update_assume_role_policy account role_name doc)) (\<lambda>_.
          refresh_role env account (ch_arn c))))
      else retW ())"

definition resource_policy_refused :: "string list \<Rightarrow> bool \<Rightarrow> arn_parts \<Rightarrow> change \<Rightarrow> bool" where
  "resource_policy_refused types sts_supported p c \<longleftrightarrow>
     ch_supported c \<noteq> Some True \<or>
     (ch_type c = Resource_policy \<and> pa_service p \<notin> set types) \<or>
     (ch_type c = Sts_resource_policy \<and> \<not> sts_supported)"

definition write_resource_policy ::
  "env \<Rightarrow> string \<Rightarrow> change \<Rightarrow> response \<Rightarrow> (world, change \<times> response) io" where
  "write_resource_policy env user c r =
     bindW (liftW (e_parse_arn env (ch_arn c))) (\<lambda>p.
     bindW (liftW (owner_account env (ch_arn c) p)) (\<lambda>account.
     bindW (resource_region env p account) (\<lambda>region.
     if account = [] then retW (c, add_error (cannot_determine_account (ch_arn c)) r)
     else
       bindW (liftW (supported_resource_types env)) (\<lambda>types.
       bindW (liftW (sts_resource_policy_supported env)) (\<lambda>sts_supported.
       if resource_policy_refused types sts_supported p c then
         retW (c, add_error (not_supported (ch_arn c)) r)
       else attempt
         [(bindW (aws_do env (Boto3_conn account (pa_service p)
                    (sanitize_session_name (''apply-resource-policy-'' @ user))))
             (\<lambda>_. put_resource_policy env account p c),
           ''Successfully updated resource policy for '' @ ch_arn c)]
         (\<lambda>e. ''Error occurred updating resource policy for '' @ ch_arn c @ e) c r)))))"

definition apply_resource_policy_change ::
  "env \<Rightarrow> string \<Rightarrow> nat \<Rightarrow> extended_request \<Rightarrow> response
     \<Rightarrow> (world, extended_request \<times> response) io" where
  "apply_resource_policy_change env user i = with_change i (write_resource_policy env user)"

section \<open>The contract of an applier\<close>

text \<open>A computation that succeeds only if every AWS call it makes succeeds.\<close>

definition new_calls_ok :: "world \<Rightarrow> world \<Rightarrow> bool" where
  "new_calls_ok w w' \<longleftrightarrow> (\<exists>calls. w_calls w' = w_calls w @ calls \<and> list_all snd calls)"

lemma new_calls_ok_refl [simp]: "new_calls_ok w w"
  by (simp add: new_calls_ok_def)

lemma new_calls_ok_trans: "new_calls_ok a b \<Longrightarrow> new_calls_ok b c \<Longrightarrow> new_calls_ok a c"
  by (auto simp: new_calls_ok_def)

lemma new_calls_ok_same: "w_calls w' = w_calls w \<Longrightarrow> new_calls_ok w w'"
  by (simp add: new_calls_ok_def)

definition calls_succeed :: "(world, 'a) io \<Rightarrow> bool" where
  "calls_succeed m \<longleftrightarrow> (\<forall>w a w'. m w = (Inr a, w') \<longrightarrow> new_calls_ok w w')"

lemma calls_succeed_intros:
  "calls_succeed (retW a)" "calls_succeed (failW e)" "calls_succeed (liftW r)"
  "calls_succeed (readW f)" "calls_succeed (aws env call)" "calls_succeed (aws_do env call)"
  "calls_succeed (refresh_role env acc arn)"
  by (auto simp: calls_succeed_def io_defs aws_def aws_do_def bindW_def refresh_role_def
      new_calls_ok_def split: sum.splits)

lemma calls_succeed_bind:
  assumes "calls_succeed m" and "\<And>a. calls_succeed (f a)"
  shows "calls_succeed (bindW m f)"
  unfolding calls_succeed_def bindW_eq_Inr
  using assms new_calls_ok_trans by (fastforce simp: calls_succeed_def)

lemma managed_policy_calls_succeed:
  "calls_succeed (create_or_update_managed_policy env a p n arn d path ex)"
  unfolding create_or_update_managed_policy_def create_managed_policy_def update_managed_policy_def
  by (auto intro!: calls_succeed_intros calls_succeed_bind split: option.splits)

text \<open>The fields of a change that applying it never touches.\<close>

definition change_core where
  "change_core c = ((ch_principal c, ch_type c, ch_resources c, ch_id c, ch_autogenerated c,
     ch_updated_by c, ch_expiration_date c, ch_policy_name c, ch_new c),
     (ch_action c, ch_policy c, ch_arn c, ch_source_change_id c, ch_supported c,
     ch_original_key c, ch_original_value c, ch_tag_action c))"

lemma change_core_upd [simp]:
  "change_core (c\<lparr>ch_status := s\<rparr>) = change_core c"
  "change_core (c\<lparr>ch_old_policy := o'\<rparr>) = change_core c"
  "change_core (fill_tag c) = change_core c"
  by (simp_all add: change_core_def fill_tag_def)

lemma fill_tag_fields [simp]: "ch_status (fill_tag c) = ch_status c"
  by (simp add: fill_tag_def)

text \<open>
  What one attempt at a change may do: set the status to applied, or leave it and count an
  error; it is applied only if all the calls made for it succeeded.
\<close>

definition change_outcome ::
  "change \<Rightarrow> response \<Rightarrow> world \<Rightarrow> change \<times> response \<Rightarrow> world \<Rightarrow> bool" where
  "change_outcome c r w out w' \<longleftrightarrow> (case out of (c', r') \<Rightarrow>
     change_core c' = change_core c \<and>
     (response_ok r \<longrightarrow> response_ok r') \<and>
     (ch_status c' = ch_status c \<and> rs_errors r' = Suc (rs_errors r) \<or>
      (ch_status c' = ch_status c \<or> ch_status c' = Applied) \<and> rs_errors r' = rs_errors r \<and>
        new_calls_ok w w'))"

lemma change_outcome_error:
  "change_core c' = change_core c \<Longrightarrow> ch_status c' = ch_status c \<Longrightarrow>
    change_outcome c r w (c', add_error m r) w'"
  by (simp add: change_outcome_def)

lemma change_outcome_skip: "new_calls_ok w w' \<Longrightarrow> change_outcome c r w (c, r) w'"
  by (simp add: change_outcome_def)

lemma attempt_outcome:
  assumes "attempt steps err c r w = (Inr (c', r'), w')"
    and "\<And>m msg. (m, msg) \<in> set steps \<Longrightarrow> calls_succeed m"
    and "change_core c = change_core c0" and "ch_status c = ch_status c0"
  shows "change_outcome c0 r w (c', r') w'"
  using assms
proof (induction steps arbitrary: r w)
  case Nil
  then show ?case by (auto simp: change_outcome_def)
next
  case (Cons p steps)
  obtain m msg where p: "p = (m, msg)" by (cases p)
  show ?case
  proof (cases "m w")
    case (Pair res w1)
    show ?thesis
    proof (cases res)
      case (Inl e)
      with Cons.prems p Pair show ?thesis by (auto intro: change_outcome_error)
    next
      case (Inr u)
      have ok: "new_calls_ok w w1"
        using Cons.prems(2) [of m msg] p Pair Inr by (simp add: calls_succeed_def)
      have "attempt steps err c (add_success msg r) w1 = (Inr (c', r'), w')"
        using Cons.prems(1) p Pair Inr by simp
      then have "change_outcome c0 (add_success msg r) w1 (c', r') w'"
        by (rule Cons.IH) (use Cons.prems(2-4) in auto)
      then show ?thesis
        using new_calls_ok_trans [OF ok] by (auto simp: change_outcome_def)
    qed
  qed
qed

lemma attempt_total: "\<exists>c' r' w'. attempt steps err c r w = (Inr (c', r'), w')"
proof (induction steps arbitrary: r w)
  case Nil
  then show ?case by simp
next
  case (Cons p steps)
  obtain m msg where p: "p = (m, msg)" by (cases p)
  obtain res w1 where m: "m w = (res, w1)" by (cases "m w")
  with p Cons.IH show ?case by (cases res) simp_all
qed

context step_relation
begin

lemma keeps_attempt:
  assumes "\<And>m msg. (m, msg) \<in> set steps \<Longrightarrow> keeps m"
  shows "keeps (attempt steps err c r)"
  using assms
proof (induction steps arbitrary: r)
  case Nil
  then show ?case by (simp add: keeps_def step_refl)
next
  case (Cons p steps)
  obtain m msg where p: "p = (m, msg)" by (cases p)
  have m: "keeps m" by (rule Cons.prems [of m msg]) (simp add: p)
  have rest: "keeps (attempt steps err c (add_success msg r))"
  proof (rule Cons.IH)
    fix m' msg'
    assume "(m', msg') \<in> set steps"
    then show "keeps m'" by (intro Cons.prems [of m' msg']) simp
  qed
  show ?case
    unfolding keeps_def p
  proof
    fix w
    obtain res w1 where r1: "m w = (res, w1)" by (cases "m w")
    have "R w w1" by (rule keepsD [OF m r1])
    moreover have "R w1 (snd (attempt steps err c (add_success msg r) w1))"
      using rest by (simp add: keeps_def)
    ultimately show "R w (snd (attempt ((m, msg) # steps) err c r w))"
      using r1 by (cases res) (auto intro: step_trans)
  qed
qed

end

declare attempt.simps [simp del]

lemmas keeps_attempts = tbl.keeps_attempt mls.keeps_attempt lg.keeps_attempt

section \<open>Appliers of one change\<close>

locale change_applier =
  fixes act :: "change \<Rightarrow> response \<Rightarrow> (world, change \<times> response) io"
  assumes act_frames: "tbl.keeps (act c r)" "mls.keeps (act c r)" "lg.keeps (act c r)"
    and act_outcome: "act c r w = (Inr out, w') \<Longrightarrow> change_outcome c r w out w'"

lemma tag_calls_succeed: "(m, msg) \<in> set (tag_calls env a b what c) \<Longrightarrow> calls_succeed m"
  by (auto simp: tag_calls_def intro: calls_succeed_intros split: if_splits)

lemma tag_calls_frames:
  "(m, msg) \<in> set (tag_calls env a b what c) \<Longrightarrow> tbl.keeps m"
  "(m, msg) \<in> set (tag_calls env a b what c) \<Longrightarrow> mls.keeps m"
  "(m, msg) \<in> set (tag_calls env a b what c) \<Longrightarrow> lg.keeps m"
  by (auto simp: tag_calls_def intro: frames split: if_splits)

text \<open>Outcomes of the building blocks, for use by the interpretations.\<close>

lemma attempt_outcome':
  assumes "attempt steps err c r w = (Inr out, w')"
    and "\<And>m msg. (m, msg) \<in> set steps \<Longrightarrow> calls_succeed m"
    and "change_core c = change_core c0" and "ch_status c = ch_status c0"
  shows "change_outcome c0 r w out w'"
  using attempt_outcome assms by (cases out) blast

lemma attempt1_outcome:
  assumes "attempt [(m, msg)] err c r w = (Inr out, w')" and "calls_succeed m"
  shows "change_outcome c r w out w'"
  using assms(1) by (rule attempt_outcome') (use assms(2) in auto)

lemma attempt1_filled_outcome:
  assumes "attempt [(m, msg)] err (fill_tag c) r w = (Inr out, w')" and "calls_succeed m"
  shows "change_outcome c r w out w'"
  using assms(1) by (rule attempt_outcome') (use assms(2) in auto)

lemma attempt1_frames:
  "tbl.keeps m \<Longrightarrow> tbl.keeps (attempt [(m, msg)] err c r)"
  "mls.keeps m \<Longrightarrow> mls.keeps (attempt [(m, msg)] err c r)"
  "lg.keeps m \<Longrightarrow> lg.keeps (attempt [(m, msg)] err c r)"
  by (rule keeps_attempts; auto)+

lemma put_inline_ok:
  "calls_succeed (put_inline env t c d)" "tbl.keeps (put_inline env t c d)"
  "mls.keeps (put_inline env t c d)" "lg.keeps (put_inline env t c d)"
  unfolding put_inline_def by (rule calls_succeed_intros frames)+

interpretation inline: change_applier "apply_inline_policy env t" for env t
proof
  fix c r
  show "tbl.keeps (apply_inline_policy env t c r)" "mls.keeps (apply_inline_policy env t c r)"
    "lg.keeps (apply_inline_policy env t c r)"
    unfolding apply_inline_policy_def Let_def
    by (auto intro!: attempt1_frames keeps_rules frames put_inline_ok
        split: option.split action.split)
next
  fix c r w out w'
  assume "apply_inline_policy env t c r w = (Inr out, w')"
  then show "change_outcome c r w out w'"
    unfolding apply_inline_policy_def Let_def
    by (auto elim!: attempt1_outcome
        intro!: change_outcome_skip calls_succeed_bind calls_succeed_intros put_inline_ok
        split: option.splits action.splits)
qed

interpretation boundary: change_applier "apply_permissions_boundary env t" for env t
proof
  fix c r
  show "tbl.keeps (apply_permissions_boundary env t c r)"
    "mls.keeps (apply_permissions_boundary env t c r)"
    "lg.keeps (apply_permissions_boundary env t c r)"
    unfolding apply_permissions_boundary_def
    by (auto intro!: attempt1_frames keeps_rules frames split: option.split action.split)
next
  fix c r w out w'
  assume "apply_permissions_boundary env t c r w = (Inr out, w')"
  then show "change_outcome c r w out w'"
    unfolding apply_permissions_boundary_def
    by (auto elim!: attempt1_outcome intro!: change_outcome_skip calls_succeed_intros
        split: option.splits action.splits)
qed

interpretation managed: change_applier "apply_managed_policy env t" for env t
proof
  fix c r
  show "tbl.keeps (apply_managed_policy env t c r)" "mls.keeps (apply_managed_policy env t c r)"
    "lg.keeps (apply_managed_policy env t c r)"
    unfolding apply_managed_policy_def
    by (auto intro!: attempt1_frames keeps_rules frames split: option.split action.split)
next
  fix c r w out w'
  assume "apply_managed_policy env t c r w = (Inr out, w')"
  then show "change_outcome c r w out w'"
    unfolding apply_managed_policy_def
    by (auto elim!: attempt1_outcome intro!: change_outcome_skip calls_succeed_intros
        split: option.splits action.splits)
qed

lemmas ok_rules = calls_succeed_bind calls_succeed_intros

lemma with_doc_ok:
  assumes "\<And>d. calls_succeed (f d)" "\<And>d. tbl.keeps (f d)" "\<And>d. mls.keeps (f d)"
    "\<And>d. lg.keeps (f d)"
  shows "calls_succeed (bindW (liftW (policy_document c)) f)"
    "tbl.keeps (bindW (liftW (policy_document c)) f)"
    "mls.keeps (bindW (liftW (policy_document c)) f)"
    "lg.keeps (bindW (liftW (policy_document c)) f)"
  by (intro ok_rules keeps_rules assms)+

interpretation trust: change_applier "apply_assume_role_policy env t" for env t
proof
  fix c r
  show "tbl.keeps (apply_assume_role_policy env t c r)"
    "mls.keeps (apply_assume_role_policy env t c r)"
    "lg.keeps (apply_assume_role_policy env t c r)"
    unfolding apply_assume_role_policy_def
    by (auto intro!: attempt1_frames with_doc_ok ok_rules frames intro: keeps_rules)
next
  fix c r w out w'
  assume "apply_assume_role_policy env t c r w = (Inr out, w')"
  then show "change_outcome c r w out w'"
    unfolding apply_assume_role_policy_def
    by (auto elim!: attempt1_outcome intro!: ok_rules split: if_splits)
qed

lemma tag_attempt_outcome:
  assumes "attempt (tag_calls env a b what (fill_tag c)) err (fill_tag c) r w = (Inr out, w')"
  shows "change_outcome c r w out w'"
  using assms by (rule attempt_outcome') (auto dest: tag_calls_succeed)

lemma tag_attempt_frames:
  "tbl.keeps (attempt (tag_calls env a b what d) err c r)"
  "mls.keeps (attempt (tag_calls env a b what d) err c r)"
  "lg.keeps (attempt (tag_calls env a b what d) err c r)"
  by (rule keeps_attempts; rule tag_calls_frames; assumption)+

interpretation ptag: change_applier "apply_principal_tag env t" for env t
proof
  fix c r
  show "tbl.keeps (apply_principal_tag env t c r)" "mls.keeps (apply_principal_tag env t c r)"
    "lg.keeps (apply_principal_tag env t c r)"
    unfolding apply_principal_tag_def Let_def
    by (auto intro!: attempt1_frames tag_attempt_frames frames intro: keeps_rules)
next
  fix c r w out w'
  assume "apply_principal_tag env t c r w = (Inr out, w')"
  then show "change_outcome c r w out w'"
    unfolding apply_principal_tag_def Let_def
    by (auto elim!: attempt1_outcome tag_attempt_outcome intro!: ok_rules change_outcome_skip
        split: if_splits)
qed

text \<open>One turn of the loop over the changes of a role or user.\<close>

interpretation role_change: change_applier "apply_role_change env auto t" for env auto t
proof
  fix c r
  show "tbl.keeps (apply_role_change env auto t c r)" "mls.keeps (apply_role_change env auto t c r)"
    "lg.keeps (apply_role_change env auto t c r)"
    unfolding apply_role_change_def
    by (cases "ch_type c"; simp add: inline.act_frames boundary.act_frames managed.act_frames
        trust.act_frames ptag.act_frames keeps_rules)+
next
  fix c r w out w'
  assume run: "apply_role_change env auto t c r w = (Inr out, w')"
  then show "change_outcome c r w out w'"
    unfolding apply_role_change_def
    by (cases "ch_type c")
      (auto dest: inline.act_outcome boundary.act_outcome managed.act_outcome trust.act_outcome
        ptag.act_outcome intro: change_outcome_skip change_outcome_error split: if_splits)
qed

section \<open>Appliers of one change of a request\<close>

lemma fill_resource_region_ok:
  "calls_succeed (resource_region env p a)" "tbl.keeps (resource_region env p a)"
  "mls.keeps (resource_region env p a)" "lg.keeps (resource_region env p a)"
  unfolding resource_region_def by (auto intro: ok_rules keeps_rules)

text \<open>Steps before a \<open>try\<close> that succeeded are part of what is done for the change.\<close>

lemma outcome_after:
  assumes "new_calls_ok w w1" and "change_outcome c r w1 out w'"
  shows "change_outcome c r w out w'"
  using assms new_calls_ok_trans [OF assms(1)] by (auto simp: change_outcome_def split: prod.splits)

lemma bindW_outcome:
  assumes "bindW m f w = (Inr out, w')" and "calls_succeed m"
    and "\<And>a w1. f a w1 = (Inr out, w') \<Longrightarrow> change_outcome c r w1 out w'"
  shows "change_outcome c r w out w'"
proof -
  from assms(1) obtain a w1 where 1: "m w = (Inr a, w1)" "f a w1 = (Inr out, w')"
    by (auto simp: bindW_eq_Inr)
  have "new_calls_ok w w1" using assms(2) 1(1) by (auto simp: calls_succeed_def)
  then show ?thesis using assms(3) [OF 1(2)] by (rule outcome_after)
qed

lemma if_outcome:
  assumes "(if b then m else n) w = (Inr out, w')"
    and "b \<Longrightarrow> m w = (Inr out, w') \<Longrightarrow> P" and "\<not> b \<Longrightarrow> n w = (Inr out, w') \<Longrightarrow> P"
  shows P
  using assms by (auto split: if_splits)

lemma ret_error_outcome:
  "retW (c, add_error m r) w = (Inr out, w') \<Longrightarrow> change_outcome c r w out w'"
  by (auto intro: change_outcome_error)

lemmas outcome_elims = bindW_outcome if_outcome ret_error_outcome attempt1_outcome
  tag_attempt_outcome

interpretation mp_tag: change_applier "tag_managed_policy env user" for env user
proof
  fix c r
  show "tbl.keeps (tag_managed_policy env user c r)" "mls.keeps (tag_managed_policy env user c r)"
    "lg.keeps (tag_managed_policy env user c r)"
    unfolding tag_managed_policy_def Let_def
    by (auto intro!: keeps_rules attempt1_frames tag_attempt_frames frames)
next
  fix c r w out w'
  assume "tag_managed_policy env user c r w = (Inr out, w')"
  then show "change_outcome c r w out w'"
    unfolding tag_managed_policy_def Let_def
    by (elim outcome_elims; (intro ok_rules)?)
qed

lemma tag_resource_calls_ok:
  "calls_succeed (tag_resource_calls env arn p a d c)"
  "tbl.keeps (tag_resource_calls env arn p a d c)"
  "mls.keeps (tag_resource_calls env arn p a d c)"
  "lg.keeps (tag_resource_calls env arn p a d c)"
  unfolding tag_resource_calls_def tag_bucket_def tag_topic_def tag_queue_def
  by (auto intro!: ok_rules keeps_rules frames)

lemma tag_resource_try_ok:
  "calls_succeed (tag_resource_try env user arn p a region)"
  "tbl.keeps (tag_resource_try env user arn p a region)"
  "mls.keeps (tag_resource_try env user arn p a region)"
  "lg.keeps (tag_resource_try env user arn p a region)"
  unfolding tag_resource_try_def by (intro ok_rules keeps_rules frames)+

text \<open>A \<open>try\<close> whose handler counts an error: what is read first, then one attempt.\<close>

lemma handler_frames:
  fixes m :: "(world, 'a) io"
  assumes "\<And>w. g w = (case m w of (Inl e, w') \<Rightarrow> (Inr (h e), w') | (Inr d, w') \<Rightarrow> k d w')"
  shows "tbl.keeps m \<Longrightarrow> (\<And>d. tbl.keeps (k d)) \<Longrightarrow> tbl.keeps g"
    and "mls.keeps m \<Longrightarrow> (\<And>d. mls.keeps (k d)) \<Longrightarrow> mls.keeps g"
    and "lg.keeps m \<Longrightarrow> (\<And>d. lg.keeps (k d)) \<Longrightarrow> lg.keeps g"
proof -
  have "snd (g w) = snd (bindW m k w)" for w
    using assms [of w] by (auto simp: bindW_def split: prod.splits sum.splits)
  then show "tbl.keeps m \<Longrightarrow> (\<And>d. tbl.keeps (k d)) \<Longrightarrow> tbl.keeps g"
    "mls.keeps m \<Longrightarrow> (\<And>d. mls.keeps (k d)) \<Longrightarrow> mls.keeps g"
    "lg.keeps m \<Longrightarrow> (\<And>d. lg.keeps (k d)) \<Longrightarrow> lg.keeps g"
    using tbl.keeps_bind [of m k] mls.keeps_bind [of m k] lg.keeps_bind [of m k]
    by (simp_all add: tbl.keeps_def mls.keeps_def lg.keeps_def)
qed

interpretation res_tag: change_applier "tag_resource env user arn p a region"
  for env user arn p a region
proof
  fix c r
  note frames' = handler_frames [where g = "tag_resource env user arn p a region c r"
      and m = "tag_resource_try env user arn p a region", OF trans [OF fun_cong
        [OF tag_resource_def [unfolded Let_def]] refl]]
  show "tbl.keeps (tag_resource env user arn p a region c r)"
    "mls.keeps (tag_resource env user arn p a region c r)"
    "lg.keeps (tag_resource env user arn p a region c r)"
    by (rule frames'; intro tag_resource_try_ok attempt1_frames tag_resource_calls_ok)+
next
  fix c r w out w'
  assume run: "tag_resource env user arn p a region c r w = (Inr out, w')"
  obtain res w1 where t: "tag_resource_try env user arn p a region w = (res, w1)"
    by (cases "tag_resource_try env user arn p a region w")
  show "change_outcome c r w out w'"
  proof (cases res)
    case (Inl e)
    with run t show ?thesis by (auto simp: tag_resource_def Let_def intro: change_outcome_error)
  next
    case (Inr d)
    have "change_outcome c r w1 out w'"
    proof (rule attempt1_filled_outcome)
      show "attempt [(tag_resource_calls env arn p a d (fill_tag c),
          ''Successfully updated resource policy for '' @ arn)]
          (\<lambda>e. ''Error occurred changing resource tags for '' @ arn @ e) (fill_tag c) r w1
          = (Inr out, w')"
        using run t Inr by (simp only: tag_resource_def Let_def prod.case sum.case)
    qed (rule tag_resource_calls_ok)
    moreover have "new_calls_ok w w1"
      using tag_resource_try_ok(1) t Inr by (auto simp: calls_succeed_def)
    ultimately show ?thesis by (rule outcome_after [rotated])
  qed
qed

interpretation non_iam: change_applier "tag_non_iam_resource env user" for env user
proof
  fix c r
  show "tbl.keeps (tag_non_iam_resource env user c r)" "mls.keeps (tag_non_iam_resource env user c r)"
    "lg.keeps (tag_non_iam_resource env user c r)"
    unfolding tag_non_iam_resource_def
    by (auto intro!: keeps_rules fill_resource_region_ok res_tag.act_frames)
next
  fix c r w out w'
  assume "tag_non_iam_resource env user c r w = (Inr out, w')"
  then show "change_outcome c r w out w'"
    unfolding tag_non_iam_resource_def
    by (elim outcome_elims res_tag.act_outcome; (intro ok_rules fill_resource_region_ok)?)
qed

interpretation mp_write: change_applier "write_managed_policy env user a arn path name"
  for env user a arn path name
proof
  fix c r
  show "tbl.keeps (write_managed_policy env user a arn path name c r)"
    "mls.keeps (write_managed_policy env user a arn path name c r)"
    "lg.keeps (write_managed_policy env user a arn path name c r)"
    unfolding write_managed_policy_def
    by (auto intro!: attempt1_frames with_doc_ok frames managed_policy_calls_succeed)
next
  fix c r w out w'
  assume "write_managed_policy env user a arn path name c r w = (Inr out, w')"
  then show "change_outcome c r w out w'"
    unfolding write_managed_policy_def
    by (elim outcome_elims; intro ok_rules managed_policy_calls_succeed)
qed

lemma put_resource_policy_ok:
  "calls_succeed (put_resource_policy env a p c)" "tbl.keeps (put_resource_policy env a p c)"
  "mls.keeps (put_resource_policy env a p c)" "lg.keeps (put_resource_policy env a p c)"
  unfolding put_resource_policy_def by (auto intro!: ok_rules keeps_rules frames)

interpretation rp_write: change_applier "write_resource_policy env user" for env user
proof
  fix c r
  show "tbl.keeps (write_resource_policy env user c r)"
    "mls.keeps (write_resource_policy env user c r)"
    "lg.keeps (write_resource_policy env user c r)"
    unfolding write_resource_policy_def
    by (auto intro!: keeps_rules fill_resource_region_ok attempt1_frames frames
        put_resource_policy_ok)
next
  fix c r w out w'
  assume "write_resource_policy env user c r w = (Inr out, w')"
  then show "change_outcome c r w out w'"
    unfolding write_resource_policy_def
    by (elim outcome_elims;
        (intro ok_rules fill_resource_region_ok put_resource_policy_ok)?)
qed

section \<open>Appliers of a request\<close>

text \<open>
  The contract: nothing is written to the request table and no mail sent; applied changes stay
  as they are and a change's status moves to applied or not at all, whatever else of it that
  decides what is done staying the same; errors are counted; and if none was counted, every
  call made succeeded.
\<close>

definition change_applied :: "change \<Rightarrow> change \<Rightarrow> bool" where
  "change_applied c c' \<longleftrightarrow> change_core c' = change_core c \<and>
     (ch_status c = Applied \<longrightarrow> c' = c) \<and> (ch_status c' = ch_status c \<or> ch_status c' = Applied)"

lemma change_applied_refl [simp]: "change_applied c c"
  by (simp add: change_applied_def)

lemma change_applied_trans:
  "change_applied a b \<Longrightarrow> change_applied b c \<Longrightarrow> change_applied a c"
  by (auto simp: change_applied_def)

definition request_applied :: "extended_request \<Rightarrow> extended_request \<Rightarrow> bool" where
  "request_applied er er' \<longleftrightarrow> er' = er\<lparr>er_changes := er_changes er'\<rparr> \<and>
     list_all2 change_applied (er_changes er) (er_changes er')"

lemma request_applied_refl [simp]: "request_applied er er"
  by (simp add: request_applied_def list_all2_same)

lemma request_appliedI:
  "list_all2 change_applied (er_changes er) cs \<Longrightarrow> request_applied er (er\<lparr>er_changes := cs\<rparr>)"
  by (simp add: request_applied_def)

lemma request_applied_fields:
  assumes "request_applied er er'"
  shows "er_id er' = er_id er" "er_principal er' = er_principal er"
    "er_requester_email er' = er_requester_email er" "er_reviewer er' = er_reviewer er"
    "er_request_status er' = er_request_status er" "er_comments er' = er_comments er"
    "er_admin_auto_approve er' = er_admin_auto_approve er"
    "length (er_changes er') = length (er_changes er)"
proof -
  obtain cs where "er' = er\<lparr>er_changes := cs\<rparr>" using assms by (auto simp: request_applied_def)
  then show "er_id er' = er_id er" "er_principal er' = er_principal er"
    "er_requester_email er' = er_requester_email er" "er_reviewer er' = er_reviewer er"
    "er_request_status er' = er_request_status er" "er_comments er' = er_comments er"
    "er_admin_auto_approve er' = er_admin_auto_approve er"
    by simp_all
  show "length (er_changes er') = length (er_changes er)"
    using assms by (auto simp: request_applied_def dest: list_all2_lengthD)
qed

lemma request_applied_nth:
  assumes "request_applied er er'" and "i < length (er_changes er)"
  shows "change_applied (er_changes er ! i) (er_changes er' ! i)"
  using assms by (auto simp: request_applied_def list_all2_conv_all_nth)

lemma request_applied_kept: "request_applied er er' \<Longrightarrow> applied_kept er er'"
  unfolding applied_kept_def
  using request_applied_fields(8) request_applied_nth by (auto simp: change_applied_def)

lemma request_applied_replace:
  assumes "change_applied (er_changes er ! i) c"
  shows "request_applied er (replace_change i c er)"
  unfolding replace_change_def
proof (rule request_appliedI)
  show "list_all2 change_applied (er_changes er) ((er_changes er)[i := c])"
    using assms
    by (cases "i < length (er_changes er)")
      (auto simp: list_all2_conv_all_nth nth_list_update list_all2_same)
qed

lemma request_applied_trans:
  assumes "request_applied a b" and "request_applied b c"
  shows "request_applied a c"
proof -
  have "list_all2 change_applied (er_changes a) (er_changes c)"
    using assms list_all2_trans [of change_applied change_applied change_applied]
    by (auto simp: request_applied_def intro: change_applied_trans)
  moreover have "c = a\<lparr>er_changes := er_changes c\<rparr>"
  proof -
    have "b = a\<lparr>er_changes := er_changes b\<rparr>" and c: "c = b\<lparr>er_changes := er_changes c\<rparr>"
      using assms by (simp_all add: request_applied_def)
    then have "b\<lparr>er_changes := er_changes c\<rparr> = a\<lparr>er_changes := er_changes c\<rparr>"
      by (metis extended_request.surjective extended_request.update_convs(11))
    with c show ?thesis by simp
  qed
  ultimately show ?thesis by (simp add: request_applied_def)
qed

locale applier =
  fixes ready :: "extended_request \<Rightarrow> bool"
    and run :: "extended_request \<Rightarrow> response \<Rightarrow> (world, extended_request \<times> response) io"
  assumes run_frames: "tbl.keeps (run er r)" "mls.keeps (run er r)" "lg.keeps (run er r)"
    and run_request: "ready er \<Longrightarrow> run er r w = (Inr (er', r'), w') \<Longrightarrow> request_applied er er'"
    and run_errors: "run er r w = (Inr (er', r'), w') \<Longrightarrow>
      rs_errors r \<le> rs_errors r' \<and> (response_ok r \<longrightarrow> response_ok r')"
    and run_calls: "run er r w = (Inr (er', r'), w') \<Longrightarrow> rs_errors r' = rs_errors r \<Longrightarrow>
      new_calls_ok w w'"
begin

lemma run_table: "run er r w = (out, w') \<Longrightarrow> w_table w' = w_table w"
  using tbl.keepsD [OF run_frames(1)] by (simp add: same_table_def)

lemma run_mails: "run er r w = (out, w') \<Longrightarrow> w_mails w' = w_mails w"
  using mls.keepsD [OF run_frames(2)] by (simp add: same_mails_def)

lemma run_kept:
  assumes "ready er" and "run er r w = (Inr (er', r'), w')"
  shows "applied_kept er er'"
  using run_request [OF assms] by (rule request_applied_kept)

text \<open>A change that was cancelled or pending is never cancelled by applying.\<close>

lemma run_status:
  assumes "ready er" and "run er r w = (Inr (er', r'), w')" and "i < length (er_changes er)"
  shows "ch_status (er_changes er' ! i) = ch_status (er_changes er ! i) \<or>
    ch_status (er_changes er' ! i) = Applied"
  using request_applied_nth [OF run_request [OF assms(1,2)] assms(3)]
  by (simp add: change_applied_def)

end

text \<open>The change with index \<open>i\<close> is there and not applied.\<close>

definition open_change :: "nat \<Rightarrow> extended_request \<Rightarrow> bool" where
  "open_change i er \<longleftrightarrow> i < length (er_changes er) \<and> ch_status (er_changes er ! i) \<noteq> Applied"

lemma outcome_applied:
  "change_outcome c r w (c', r') w' \<Longrightarrow> ch_status c \<noteq> Applied \<Longrightarrow> change_applied c c'"
  by (auto simp: change_outcome_def change_applied_def)

lemma outcome_errors:
  "change_outcome c r w (c', r') w' \<Longrightarrow>
    rs_errors r \<le> rs_errors r' \<and> (response_ok r \<longrightarrow> response_ok r')"
  by (auto simp: change_outcome_def)

lemma outcome_calls:
  "change_outcome c r w (c', r') w' \<Longrightarrow> rs_errors r' = rs_errors r \<Longrightarrow> new_calls_ok w w'"
  by (auto simp: change_outcome_def)

context change_applier
begin

lemma with_change_run:
  assumes "with_change i act er r w = (Inr (er', r'), w')"
  shows "\<exists>c. er' = replace_change i c er \<and> change_outcome (er_changes er ! i) r w (c, r') w'"
  using assms by (auto simp: with_change_def bindW_eq_Inr dest: act_outcome)

lemma with_change_frames:
  "tbl.keeps (with_change i act er r)" "mls.keeps (with_change i act er r)"
  "lg.keeps (with_change i act er r)"
  unfolding with_change_def by (auto intro!: keeps_rules act_frames split: prod.split)

lemma with_change_applier: "applier (open_change i) (with_change i act)"
proof
  fix er r
  show "tbl.keeps (with_change i act er r)" "mls.keeps (with_change i act er r)"
    "lg.keeps (with_change i act er r)" by (rule with_change_frames)+
next
  fix er r w er' r' w'
  assume run: "with_change i act er r w = (Inr (er', r'), w')"
  then obtain c where c: "er' = replace_change i c er"
      "change_outcome (er_changes er ! i) r w (c, r') w'"
    using with_change_run by blast
  show "request_applied er er'" if "open_change i er"
    using c that by (auto simp: open_change_def intro: request_applied_replace outcome_applied)
  show "rs_errors r \<le> rs_errors r' \<and> (response_ok r \<longrightarrow> response_ok r')"
    by (rule outcome_errors [OF c(2)])
  show "new_calls_ok w w'" if "rs_errors r' = rs_errors r"
    by (rule outcome_calls [OF c(2) that])
qed

end

interpretation mp_tags: applier "open_change i" "apply_managed_policy_resource_tag_change env user i"
  for env user i
  unfolding apply_managed_policy_resource_tag_change_def by (rule mp_tag.with_change_applier)

interpretation non_iam_tags: applier "open_change i" "apply_non_iam_resource_tag_change env user i"
  for env user i
  unfolding apply_non_iam_resource_tag_change_def by (rule non_iam.with_change_applier)

interpretation resource_policies: applier "open_change i" "apply_resource_policy_change env user i"
  for env user i
  unfolding apply_resource_policy_change_def by (rule rp_write.with_change_applier)

text \<open>Storing the old policies counts as nothing done.\<close>

lemma populate_old_managed_policy_applied:
  "change_applied c (snd (populate_old_managed_policy env r c))"
  by (auto simp: populate_old_managed_policy_def change_applied_def split: option.splits)

lemma populate_old_managed_policies_applied:
  assumes "populate_old_managed_policies env log er = Inr (b, er')"
  shows "request_applied er er'"
proof -
  have refreshed: "request_applied er (snd (refresh_managed env r er))" for r
    unfolding refresh_managed_def Let_def snd_conv
    by (rule request_appliedI)
      (simp add: list_all2_map2 list_all2_same populate_old_managed_policy_applied)
  from assms consider "er' = er" | r where "er' = snd (refresh_managed env r er)"
    using populate_old_managed_policies_cases by blast
  then show ?thesis using refreshed by cases auto
qed

lemma populate_old_policy_applied:
  "populate_old_policy env p c = Inr c' \<Longrightarrow> change_applied c c'"
  by (auto simp: populate_old_policy_def change_applied_def bindE_eq_Inr
      split: if_splits option.splits)

lemma populate_old_policies_applied:
  assumes "populate_old_policies env log er p = Inr er'"
  shows "request_applied er er'"
proof -
  have pop: "request_applied er er'"
    if "bindE (mapE (populate_old_policy env q) (er_changes er))
      (\<lambda>cs. Inr (er\<lparr>er_changes := cs\<rparr>)) = Inr er'" for q
    using that
    by (auto simp: bindE_eq_Inr mapE_list_all2 intro!: request_appliedI
        elim: list_all2_mono dest: populate_old_policy_applied)
  show ?thesis
    using assms pop
    by (auto simp: populate_old_policies_def bindE_eq_Inr Let_def
        split: principal.splits if_splits)
qed

interpretation managed_policies: applier "open_change i"
  "apply_managed_policy_resource_change env user i" for env user i
proof
  fix er r
  show "tbl.keeps (apply_managed_policy_resource_change env user i er r)"
    "mls.keeps (apply_managed_policy_resource_change env user i er r)"
    "lg.keeps (apply_managed_policy_resource_change env user i er r)"
    unfolding apply_managed_policy_resource_change_def
    by (auto intro!: keeps_rules mp_write.with_change_frames split: prod.split)
next
  fix er r w er' r' w'
  assume run: "apply_managed_policy_resource_change env user i er r w = (Inr (er', r'), w')"
  have "(\<exists>m. er' = er \<and> r' = add_error m r \<and> w' = w) \<or>
    (\<exists>er1 a arn path name. (\<exists>log b. populate_old_managed_policies env log er = Inr (b, er1)) \<and>
       with_change i (write_managed_policy env user a arn path name) er1 r w = (Inr (er', r'), w'))"
    using run
    by (auto simp: apply_managed_policy_resource_change_def bindW_eq_Inr split: if_splits) blast+
  then consider (refused) m where "er' = er" "r' = add_error m r" "w' = w"
    | (tried) log b er1 c where "populate_old_managed_policies env log er = Inr (b, er1)"
        "er' = replace_change i c er1" "change_outcome (er_changes er1 ! i) r w (c, r') w'"
    using mp_write.with_change_run by metis
  note cases = this
  show "rs_errors r \<le> rs_errors r' \<and> (response_ok r \<longrightarrow> response_ok r')"
    using cases by cases (auto dest: outcome_errors)
  show "new_calls_ok w w'" if "rs_errors r' = rs_errors r"
    using cases that by cases (auto dest: outcome_calls)
  assume ready: "open_change i er"
  show "request_applied er er'"
    using cases
  proof cases
    case refused
    then show ?thesis by simp
  next
    case tried
    from ready have i: "i < length (er_changes er)" "ch_status (er_changes er ! i) \<noteq> Applied"
      by (simp_all add: open_change_def)
    have "ch_status (er_changes er1 ! i) = ch_status (er_changes er ! i)"
      using request_refreshed_nth [OF populate_old_managed_policies_refreshed [OF tried(1)] i(1)]
      by (simp add: refreshes_def same_but_policiesD)
    then have "request_applied er1 er'"
      unfolding tried(2) using i by (intro request_applied_replace outcome_applied [OF tried(3)]) simp
    with populate_old_managed_policies_applied [OF tried(1)] show ?thesis
      by (rule request_applied_trans)
  qed
qed

section \<open>The loop over a role's changes\<close>

lemma apply_role_changes_frames:
  "tbl.keeps (apply_role_changes env auto t specific cs r)"
  "mls.keeps (apply_role_changes env auto t specific cs r)"
  "lg.keeps (apply_role_changes env auto t specific cs r)"
  by (induction cs arbitrary: r)
    (auto intro!: keeps_rules role_change.act_frames split: prod.split)

text \<open>One turn, skipped or not.\<close>

lemma role_turn_outcome:
  assumes "(if selected specific c then apply_role_change env auto t c r else retW (c, r)) w =
    (Inr (c', r'), w')"
  shows "change_outcome c r w (c', r') w'" and "change_applied c c'"
proof -
  have sel: "change_outcome c r w (c', r') w' \<and> (selected specific c \<or> c' = c)"
    using assms role_change.act_outcome [of env auto t c r w "(c', r')" w'] change_outcome_skip
    by (auto split: if_splits)
  then show "change_outcome c r w (c', r') w'" by blast
  from sel show "change_applied c c'"
    using outcome_applied by (auto simp: selected_def)
qed

lemma apply_role_changes_outcome:
  assumes "apply_role_changes env auto t specific cs r w = (Inr (cs', r'), w')"
  shows "list_all2 change_applied cs cs' \<and> rs_errors r \<le> rs_errors r' \<and>
    (response_ok r \<longrightarrow> response_ok r') \<and> (rs_errors r' = rs_errors r \<longrightarrow> new_calls_ok w w')"
  using assms
proof (induction cs arbitrary: r w cs')
  case Nil
  then show ?case by simp
next
  case (Cons c cs)
  from Cons.prems obtain c1 r1 w1 cs1 where
    turn: "(if selected specific c then apply_role_change env auto t c r else retW (c, r)) w =
      (Inr (c1, r1), w1)"
    and rest: "apply_role_changes env auto t specific cs r1 w1 = (Inr (cs1, r'), w')"
    and cs': "cs' = c1 # cs1"
    by (auto simp: bindW_eq_Inr)
  note step = role_turn_outcome [OF turn]
  have "rs_errors r' = rs_errors r \<longrightarrow> new_calls_ok w w'"
    using outcome_calls [OF step(1)] outcome_errors [OF step(1)] Cons.IH [OF rest]
      new_calls_ok_trans by (metis le_antisym)
  then show ?case
    using step(2) outcome_errors [OF step(1)] Cons.IH [OF rest] cs' by auto
qed

interpretation role: applier "\<lambda>_. True" "apply_changes_to_role env user specific"
  for env user specific
proof
  fix er r
  show "tbl.keeps (apply_changes_to_role env user specific er r)"
    "mls.keeps (apply_changes_to_role env user specific er r)"
    "lg.keeps (apply_changes_to_role env user specific er r)"
    unfolding apply_changes_to_role_def
    by (auto intro!: keeps_rules frames apply_role_changes_frames split: prod.split)
next
  fix er r w er' r' w'
  assume run: "apply_changes_to_role env user specific er r w = (Inr (er', r'), w')"
  have "(\<exists>m. er' = er \<and> r' = add_error m r \<and> w' = w) \<or>
    (\<exists>conn w1 auto t cs. aws_do env conn w = (Inr (), w1) \<and> er' = er\<lparr>er_changes := cs\<rparr> \<and>
       apply_role_changes env auto t specific (er_changes er) r w1 = (Inr (cs, r'), w'))"
    using run by (auto simp: apply_changes_to_role_def bindW_eq_Inr split: if_splits)
  then consider (refused) m where "er' = er" "r' = add_error m r" "w' = w"
    | (tried) conn w1 auto t cs where "aws_do env conn w = (Inr (), w1)"
        "er' = er\<lparr>er_changes := cs\<rparr>"
        "apply_role_changes env auto t specific (er_changes er) r w1 = (Inr (cs, r'), w')"
    by blast
  note cases = this
  show "request_applied er er'"
    using cases
    by cases (auto dest!: apply_role_changes_outcome intro: request_appliedI)
  show "rs_errors r \<le> rs_errors r' \<and> (response_ok r \<longrightarrow> response_ok r')"
    using cases by cases (auto dest!: apply_role_changes_outcome)
  show "new_calls_ok w w'" if "rs_errors r' = rs_errors r"
    using cases
  proof cases
    case refused
    with that show ?thesis by simp
  next
    case tried
    have "new_calls_ok w w1"
      using tried(1) calls_succeed_intros(6) by (auto simp: calls_succeed_def)
    then show ?thesis
      using apply_role_changes_outcome [OF tried(3)] that new_calls_ok_trans by blast
  qed
qed

section \<open>Properties\<close>

text \<open>Which changes an attempt at them can settle: all but those with an action missing.\<close>

definition actionable :: "bool \<Rightarrow> change \<Rightarrow> bool" where
  "actionable auto_approve c \<longleftrightarrow> (case ch_type c of
      Inline_policy \<Rightarrow> ch_action c \<noteq> None
    | Permissions_boundary \<Rightarrow> ch_action c \<noteq> None
    | Managed_policy \<Rightarrow> ch_action c \<noteq> None
    | Assume_role_policy \<Rightarrow> True
    | Resource_tag \<Rightarrow> ch_tag_action c \<noteq> None
    | _ \<Rightarrow> \<not> (ch_autogenerated c \<and> auto_approve))"

text \<open>An attempt either marks the change as applied or counts one error.\<close>

lemma attempt_settles:
  assumes "attempt steps err c r w = (Inr (c', r'), w')"
  shows "ch_status c' = Applied \<and> rs_errors r' = rs_errors r \<or>
    c' = c \<and> rs_errors r' = Suc (rs_errors r)"
  using assms
proof (induction steps arbitrary: r w)
  case Nil
  then show ?case by (auto simp: attempt.simps)
next
  case (Cons p steps)
  obtain m msg where p: "p = (m, msg)" by (cases p)
  show ?case
  proof (cases "m w")
    case (Pair res w1)
    with Cons.prems p Cons.IH [of "add_success msg r" w1] show ?thesis
      by (cases res) (auto simp: attempt.simps)
  qed
qed

definition counted :: "response \<Rightarrow> change \<Rightarrow> response \<Rightarrow> bool" where
  "counted r c' r' \<longleftrightarrow> rs_errors r' = rs_errors r + (if ch_status c' = Applied then 0 else 1)"

lemma attempt_counts:
  assumes "attempt steps err d r w = (Inr (c', r'), w')" and "ch_status d \<noteq> Applied"
  shows "counted r c' r'"
  using attempt_settles [OF assms(1)] assms(2) by (auto simp: counted_def)

lemma apply_role_change_settles:
  assumes "apply_role_change env auto t c r w = (Inr (c', r'), w')" and "actionable auto c"
    and "ch_status c \<noteq> Applied"
  shows "counted r c' r'"
proof (cases "ch_type c")
  case Inline_policy
  with assms show ?thesis
    unfolding apply_role_change_def apply_inline_policy_def Let_def actionable_def
    by (auto split: option.splits action.splits elim!: attempt_counts)
next
  case Permissions_boundary
  with assms show ?thesis
    unfolding apply_role_change_def apply_permissions_boundary_def actionable_def
    by (auto split: option.splits action.splits elim!: attempt_counts)
next
  case Managed_policy
  with assms show ?thesis
    unfolding apply_role_change_def apply_managed_policy_def actionable_def
    by (auto split: option.splits action.splits elim!: attempt_counts)
next
  case Assume_role_policy
  with assms show ?thesis
    unfolding apply_role_change_def apply_assume_role_policy_def
    by (auto split: if_splits elim!: attempt_counts)
next
  case Resource_tag
  have tag_write: "is_tag_write c \<longleftrightarrow> ch_tag_action c \<noteq> Some Tag_delete" if "ch_tag_action c \<noteq> None"
    using that by (cases "the (ch_tag_action c)") (auto simp: is_tag_write_def)
  from Resource_tag assms show ?thesis
    unfolding apply_role_change_def apply_principal_tag_def actionable_def Let_def
    by (auto simp: tag_write split: if_splits elim!: attempt_counts)
qed (use assms in \<open>auto simp: apply_role_change_def actionable_def counted_def\<close>)

text \<open>The changes an attempt was made at that are still not applied.\<close>

definition left_open :: "string option \<Rightarrow> change list \<Rightarrow> change list \<Rightarrow> nat" where
  "left_open specific cs cs' =
     length (filter (\<lambda>(c, c'). selected specific c \<and> ch_status c' \<noteq> Applied) (zip cs cs'))"

lemma apply_role_changes_counts:
  assumes "apply_role_changes env auto t specific cs r w = (Inr (cs', r'), w')"
    and "\<forall>c \<in> set cs. selected specific c \<longrightarrow> actionable auto c"
  shows "rs_errors r' = rs_errors r + left_open specific cs cs'"
  using assms
proof (induction cs arbitrary: r w cs')
  case Nil
  then show ?case by (simp add: left_open_def)
next
  case (Cons c cs)
  from Cons.prems(1) obtain c1 r1 w1 cs1 where
    turn: "(if selected specific c then apply_role_change env auto t c r else retW (c, r)) w =
      (Inr (c1, r1), w1)"
    and rest: "apply_role_changes env auto t specific cs r1 w1 = (Inr (cs1, r'), w')"
    and cs': "cs' = c1 # cs1"
    by (auto simp: bindW_eq_Inr)
  have IH: "rs_errors r' = rs_errors r1 + left_open specific cs cs1"
    using Cons.IH [OF rest] Cons.prems(2) by simp
  show ?case
  proof (cases "selected specific c")
    case True
    then have "counted r c1 r1"
      using turn Cons.prems(2) by (auto intro: apply_role_change_settles simp: selected_def)
    with True IH cs' show ?thesis by (simp add: left_open_def counted_def)
  next
    case False
    with turn IH cs' show ?thesis by (simp add: left_open_def)
  qed
qed


definition two_changes :: extended_request where
  "two_changes = example_request [inline_change, blank_change\<lparr>ch_id := Some ''c3''\<rparr>]"

lemma two_changes_run:
  "\<exists>er' r' w'. apply_changes_to_role example_env ''dev'' None two_changes empty_response
     (example_world two_changes) = (Inr (er', r'), w') \<and> rs_errors r' = 1 \<and> length (w_calls w') = 2"
proof -
  have "(case apply_changes_to_role example_env ''dev'' None two_changes empty_response
      (example_world two_changes) of (Inr (er', r'), w') \<Rightarrow> rs_errors r' = 1 \<and> length (w_calls w') = 2
      | _ \<Rightarrow> False)"
    by code_simp
  then show ?thesis by (auto split: prod.splits sum.splits)
qed


text \<open>C14: an attempt that reports no error made no call that failed: if applying the changes of
  a role or user returns without adding an error, every AWS call it made succeeded, and
  nothing was written to the request table.\<close>

theorem no_error_no_failed_call:
  assumes "apply_changes_to_role env user specific er r w = (Inr (er', r'), w')"
    and "rs_errors r' = rs_errors r"
  shows "(\<exists>calls. w_calls w' = w_calls w @ calls \<and> list_all snd calls) \<and> w_table w' = w_table w"
  using role.run_calls [OF assms] role.run_table [OF assms(1)] by (simp add: new_calls_ok_def)

theorem no_error_no_failed_call_witness:
  "\<exists>er' r' w'. apply_changes_to_role example_env ''dev'' (Some ''c1'') two_changes empty_response
     (example_world two_changes) = (Inr (er', r'), w') \<and>
     (\<exists>calls. w_calls w' = calls \<and> list_all snd calls)"
proof -
  have "(case apply_changes_to_role example_env ''dev'' (Some ''c1'') two_changes empty_response
      (example_world two_changes) of (Inr (er', r'), w') \<Rightarrow> rs_errors r' = 0 | _ \<Rightarrow> False)"
    by code_simp
  then obtain er' r' w' where
    run: "apply_changes_to_role example_env ''dev'' (Some ''c1'') two_changes empty_response
      (example_world two_changes) = (Inr (er', r'), w')" and e: "rs_errors r' = 0"
    by (auto split: prod.splits sum.splits)
  have "rs_errors r' = rs_errors empty_response" using e by simp
  from no_error_no_failed_call [OF run this] run show ?thesis by auto
qed

lemma apply_role_changes_none:
  "\<forall>c \<in> set cs. \<not> selected specific c \<Longrightarrow>
    apply_role_changes env auto t specific cs r w = (Inr (cs, r), w)"
  by (induction cs) (simp_all add: bindW_def)

lemma aws_do_ok: "aws_do env call w = (Inr u, w') \<Longrightarrow> w_calls w' = w_calls w @ [(call, True)]"
  by (cases "e_aws env (w_calls w) call") (auto simp: aws_do_def aws_def bindW_def)





text \<open>Tag sets whose entries have a key and whose keys are different.\<close>

definition tag_key :: "json \<Rightarrow> json" where
  "tag_key t = (case jget ''Key'' t of Inl e \<Rightarrow> JNull | Inr k \<Rightarrow> k)"

text \<open>The entries the change is not about.\<close>

definition other_tags :: "change \<Rightarrow> json list \<Rightarrow> json list" where
  "other_tags c = filter (\<lambda>t. \<not> json_eq (opt_json (ch_key c)) (tag_key t) \<and>
     \<not> (tag_renamed c \<and> json_eq (tag_key t) (opt_json (ch_original_key c))))"

lemma jindex_jget: "jindex k t = Inr v \<Longrightarrow> jget k t = Inr v"
  by (cases t) (auto split: option.splits)

lemma tag_entry_key [simp]: "tag_key (tag_entry c) = opt_json (ch_key c)"
  by (simp add: tag_key_def tag_entry_def)

lemma json_eq_opt_json [simp]: "json_eq (opt_json s) (opt_json s)"
  by (cases s) (simp_all add: opt_json_def)

lemma json_eq_opt_json_iff: "json_eq (opt_json a) (opt_json b) \<longleftrightarrow> a = b"
  by (cases a; cases b) (simp_all add: opt_json_def)

definition tagset_ok :: "change \<Rightarrow> json list \<Rightarrow> bool \<Rightarrow> json list \<Rightarrow> bool" where
  "tagset_ok c tags found rest \<longleftrightarrow> other_tags c rest = other_tags c tags \<and>
     (found \<longrightarrow> tag_entry c \<in> set rest) \<and>
     (\<forall>t \<in> set rest. json_eq (opt_json (ch_key c)) (tag_key t) \<longrightarrow> t = tag_entry c) \<and>
     (tag_renamed c \<longrightarrow> (\<forall>t \<in> set rest. \<not> json_eq (tag_key t) (opt_json (ch_original_key c))))"

lemma tagset_ok_skip:
  "tagset_ok c tags found rest \<Longrightarrow> tag_renamed c \<Longrightarrow>
    json_eq (tag_key tag) (opt_json (ch_original_key c)) \<Longrightarrow> tagset_ok c (tag # tags) found rest"
  by (simp add: tagset_ok_def other_tags_def)

lemma renamed_keys_differ:
  "tag_renamed c \<Longrightarrow> \<not> json_eq (opt_json (ch_key c)) (opt_json (ch_original_key c))"
  by (auto simp: tag_renamed_def json_eq_opt_json_iff)

lemma tagset_ok_replace:
  "tagset_ok c tags found rest \<Longrightarrow> json_eq (opt_json (ch_key c)) (tag_key tag) \<Longrightarrow>
    tagset_ok c (tag # tags) True (tag_entry c # rest)"
  using renamed_keys_differ [of c] by (simp add: tagset_ok_def other_tags_def)

lemma tagset_ok_keep:
  "tagset_ok c tags found rest \<Longrightarrow> \<not> json_eq (opt_json (ch_key c)) (tag_key tag) \<Longrightarrow>
    \<not> (tag_renamed c \<and> json_eq (tag_key tag) (opt_json (ch_original_key c))) \<Longrightarrow>
    tagset_ok c (tag # tags) found (tag # rest)"
  by (auto simp: tagset_ok_def other_tags_def)

lemma updated_tagset_ok: "updated_tagset c tags = Inr (found, rest) \<Longrightarrow> tagset_ok c tags found rest"
proof (induction tags arbitrary: found rest)
  case Nil
  then show ?case by (simp add: tagset_ok_def)
next
  case (Cons tag tags)
  show ?case
  proof (cases "tag_renamed c \<and> json_eq (tag_key tag) (opt_json (ch_original_key c))")
    case True
    with Cons.prems have "updated_tagset c tags = Inr (found, rest)"
      by (auto simp: bindE_eq_Inr tag_key_def)
    with True Cons.IH show ?thesis by (intro tagset_ok_skip) simp_all
  next
    case False
    with Cons.prems obtain k f r where k: "jindex ''Key'' tag = Inr k"
        and r: "updated_tagset c tags = Inr (f, r)"
        and out: "(found, rest) = (if json_eq (opt_json (ch_key c)) k then (True, tag_entry c # r)
          else (f, tag # r))"
      by (auto simp: bindE_eq_Inr tag_key_def split: if_splits)
    have key: "k = tag_key tag" using jindex_jget [OF k] by (simp add: tag_key_def)
    show ?thesis
    proof (cases "json_eq (opt_json (ch_key c)) k")
      case True
      with out Cons.IH [OF r] key show ?thesis by (simp add: tagset_ok_replace)
    next
      case False': False
      with out Cons.IH [OF r] key False show ?thesis by (simp add: tagset_ok_keep)
    qed
  qed
qed

text \<open>C20: writing a tag of a bucket, whose tags AWS replaces as a whole, loses none of the others:
  the entries with another key stay, in their order, the new value is there, no other entry
  has its key, and after a renaming none has the old name.\<close>

theorem put_tagset_keeps_others:
  assumes "put_tagset c tags = Inr tags'"
  shows "other_tags c tags' = other_tags c tags \<and> tag_entry c \<in> set tags' \<and>
    (\<forall>t \<in> set tags'. json_eq (opt_json (ch_key c)) (tag_key t) \<longrightarrow> t = tag_entry c) \<and>
    (tag_renamed c \<longrightarrow> (\<forall>t \<in> set tags'. \<not> json_eq (tag_key t) (opt_json (ch_original_key c))))"
proof -
  from assms obtain found rest where u: "updated_tagset c tags = Inr (found, rest)"
      and t: "tags' = (if found then rest else rest @ [tag_entry c])"
    by (auto simp: put_tagset_def bindE_eq_Inr)
  have "other_tags c (rest @ [tag_entry c]) = other_tags c rest"
    by (simp add: other_tags_def)
  with t updated_tagset_ok [OF u] renamed_keys_differ [of c] show ?thesis
    by (cases found) (auto simp: tagset_ok_def)
qed

definition rename_example :: change where
  "rename_example = blank_change\<lparr>ch_type := Resource_tag, ch_original_key := Some ''team'',
     ch_key := Some ''owner'', ch_value := Some ''x''\<rparr>"

theorem put_tagset_keeps_others_witness:
  "\<exists>tags'. put_tagset rename_example
       [JObj [(''Key'', JStr ''team''), (''Value'', JStr ''y'')],
        JObj [(''Key'', JStr ''env''), (''Value'', JStr ''z'')]] = Inr tags' \<and>
     other_tags rename_example tags' = [JObj [(''Key'', JStr ''env''), (''Value'', JStr ''z'')]] \<and>
     tag_entry rename_example \<in> set tags'"
proof -
  let ?tags = "[JObj [(''Key'', JStr ''team''), (''Value'', JStr ''y'')],
    JObj [(''Key'', JStr ''env''), (''Value'', JStr ''z'')]]"
  have "yields (put_tagset rename_example ?tags) (\<lambda>t. True)" by code_simp
  then obtain tags' where run: "put_tagset rename_example ?tags = Inr tags'"
    by (auto dest: yieldsE)
  have "other_tags rename_example ?tags = [JObj [(''Key'', JStr ''env''), (''Value'', JStr ''z'')]]"
    by code_simp
  with put_tagset_keeps_others [OF run] run show ?thesis by auto
qed

end
