(* ===== verification/Auth.thy ===== *)
theory Auth
  imports Config
begin

text \<open>
  Who may do what: the permission checks of consoleme/lib/auth.py and the group test of
  consoleme/lib/generic.py. Each check reads group lists from the configuration and can
  raise what reading it raises, so it returns a result. What the permission checks have in
  common is the locale \<open>permission\<close>, interpreted for each of them.
\<close>

section \<open>Group membership\<close>

text \<open>\<open>is_in_group\<close>: a required group matches one of the user's groups or the user's own name.\<close>

definition is_in_group :: "string \<Rightarrow> string list \<Rightarrow> json \<Rightarrow> bool res" where
  "is_in_group user user_groups required_groups =
     bindE (case required_groups of JStr g \<Rightarrow> Inr [JStr g] | _ \<Rightarrow> jiter required_groups)
       (\<lambda>gs. Inr (list_ex (\<lambda>g. g \<in> set (map JStr user_groups) \<or> JStr user = g) gs))"

text \<open>The test against lists named in the configuration, as every check below writes it.\<close>

definition in_configured :: "json \<Rightarrow> string list \<Rightarrow> string \<Rightarrow> string list \<Rightarrow> bool res" where
  "in_configured cfg keys user user_groups =
     bindE (config_lists cfg keys) (\<lambda>gs. is_in_group user user_groups (JList gs))"

lemma in_configured_mono:
  assumes "in_configured cfg keys u gs = Inr True" and "set gs \<subseteq> set gs'"
  shows "in_configured cfg keys u gs' = Inr True"
  using assms by (auto simp: in_configured_def is_in_group_def bindE_eq_Inr list_ex_iff)

lemma in_configured_total:
  "in_configured cfg keys u gs = Inr b \<Longrightarrow> \<exists>b'. in_configured cfg keys u' gs' = Inr b'"
  by (auto simp: in_configured_def is_in_group_def bindE_eq_Inr)

section \<open>The checks\<close>

definition can_admin_all :: "json \<Rightarrow> string \<Rightarrow> string list \<Rightarrow> bool res" where
  "can_admin_all cfg user user_groups =
     bindE (config_get cfg ''application_admin'' JNull) (\<lambda>application_admin.
       if truthy application_admin \<and>
          (JStr user = application_admin \<or> application_admin \<in> set (map JStr user_groups))
       then Inr True
       else in_configured cfg [''groups.can_admin'', ''dynamic_config.groups.can_admin'']
              user user_groups)"

text \<open>The shape of all the checks that start with \<open>can_admin_all\<close>: its lists are tried in order.\<close>

fun admin_or_in :: "json \<Rightarrow> string list list \<Rightarrow> string \<Rightarrow> string list \<Rightarrow> bool res" where
  "admin_or_in cfg [] user user_groups = Inr False"
| "admin_or_in cfg (keys # rest) user user_groups =
     bindE (in_configured cfg keys user user_groups)
       (\<lambda>b. if b then Inr True else admin_or_in cfg rest user user_groups)"

definition can_create_roles :: "json \<Rightarrow> string \<Rightarrow> string list \<Rightarrow> bool res" where
  "can_create_roles cfg user user_groups =
     bindE (can_admin_all cfg user user_groups) (\<lambda>admin. if admin then Inr True else
       admin_or_in cfg
         [[''groups.can_create_roles'', ''dynamic_config.groups.can_create_roles'']]
         user user_groups)"

definition can_admin_policies :: "json \<Rightarrow> string \<Rightarrow> string list \<Rightarrow> bool res" where
  "can_admin_policies cfg user user_groups =
     bindE (can_admin_all cfg user user_groups) (\<lambda>admin. if admin then Inr True else
       admin_or_in cfg
         [[''groups.can_admin_policies'', ''dynamic_config.groups.can_admin_policies'']]
         user user_groups)"

definition can_delete_iam_principals_app :: "json \<Rightarrow> string \<Rightarrow> bool res" where
  "can_delete_iam_principals_app cfg app_name =
     bindE (config_lists cfg
        [''groups.can_delete_roles_apps'', ''dynamic_config.groups.can_delete_roles_apps''])
       (\<lambda>apps. Inr (JStr app_name \<in> set apps))"

definition can_delete_iam_principals :: "json \<Rightarrow> string \<Rightarrow> string list \<Rightarrow> bool res" where
  "can_delete_iam_principals cfg user user_groups =
     bindE (can_admin_all cfg user user_groups) (\<lambda>admin. if admin then Inr True else
       admin_or_in cfg
         [[''groups.can_delete_roles'', ''dynamic_config.groups.can_delete_roles'',
           ''groups.can_delete_iam_principals'',
           ''dynamic_config.groups.can_delete_iam_principals'']]
         user user_groups)"

definition can_edit_dynamic_config :: "json \<Rightarrow> string \<Rightarrow> string list \<Rightarrow> bool res" where
  "can_edit_dynamic_config cfg user user_groups =
     bindE (can_admin_all cfg user user_groups) (\<lambda>admin. if admin then Inr True else
       admin_or_in cfg
         [[''groups.can_edit_config'', ''dynamic_config.groups.can_edit_config'']]
         user user_groups)"

definition can_edit_attributes :: "json \<Rightarrow> string \<Rightarrow> string list \<Rightarrow> bool res" where
  "can_edit_attributes cfg user user_groups =
     bindE (can_admin_all cfg user user_groups) (\<lambda>admin. if admin then Inr True else
       admin_or_in cfg
         [[''groups.can_admin_restricted'', ''dynamic_config.groups.can_admin_restricted''],
          [''groups.can_edit_attributes'', ''dynamic_config.groups.can_edit_attributes'']]
         user user_groups)"

text \<open>
  \<open>can_modify_members\<close>: the argument says whether group information was found and whether the
  group is restricted; the restriction is tested before any permission.
\<close>

definition can_modify_members ::
  "json \<Rightarrow> string \<Rightarrow> string list \<Rightarrow> bool option \<Rightarrow> bool res" where
  "can_modify_members cfg user user_groups restricted =
     (if restricted = Some True then Inr False else
      bindE (can_admin_all cfg user user_groups) (\<lambda>admin. if admin then Inr True else
       admin_or_in cfg
         [[''groups.can_admin_restricted'', ''dynamic_config.groups.can_admin_restricted''],
          [''groups.can_modify_members'', ''dynamic_config.groups.can_modify_members'']]
         user user_groups))"

definition can_edit_sensitive_attributes :: "json \<Rightarrow> string \<Rightarrow> string list \<Rightarrow> bool res" where
  "can_edit_sensitive_attributes cfg user user_groups =
     bindE (can_admin_all cfg user user_groups) (\<lambda>admin. if admin then Inr True else
       admin_or_in cfg
         [[''groups.can_edit_sensitive_attributes'',
           ''dynamic_config.groups.can_edit_sensitive_attributes'']]
         user user_groups)"

text \<open>\<open>is_sensitive_attr\<close>: the boolean attributes are searched before the list attributes.\<close>

fun attr_lookup :: "string \<Rightarrow> json list \<Rightarrow> json option res" where
  "attr_lookup attribute [] = Inr None"
| "attr_lookup attribute (attr # rest) =
     bindE (jget ''name'' attr) (\<lambda>n.
       if n = JStr attribute
       then bindE (jget_or ''sensitive'' (JBool False) attr) (\<lambda>s. Inr (Some s))
       else attr_lookup attribute rest)"

definition is_sensitive_attr :: "json \<Rightarrow> string \<Rightarrow> json res" where
  "is_sensitive_attr cfg attribute =
     bindE (config_lists cfg
        [''groups.attributes.boolean'', ''dynamic_config.groups.attributes.boolean''])
       (\<lambda>bools. bindE (attr_lookup attribute bools) (\<lambda>r. case r of
          Some s \<Rightarrow> Inr s
        | None \<Rightarrow>
            bindE (config_lists cfg
               [''groups.attributes.list'', ''dynamic_config.groups.attributes.list''])
              (\<lambda>lists. bindE (attr_lookup attribute lists) (\<lambda>r. case r of
                 Some s \<Rightarrow> Inr s
               | None \<Rightarrow> Inr (JBool False)))))"

section \<open>What the checks promise\<close>

lemma can_admin_all_mono:
  assumes "can_admin_all cfg u gs = Inr True" and "set gs \<subseteq> set gs'"
  shows "can_admin_all cfg u gs' = Inr True"
  using assms
  by (auto simp: can_admin_all_def bindE_eq_Inr split: if_splits intro: in_configured_mono)

lemma can_admin_all_total:
  assumes "can_admin_all cfg u gs = Inr False"
  shows "\<exists>b. can_admin_all cfg u' gs' = Inr b"
proof -
  from assms obtain a where a: "config_get cfg ''application_admin'' JNull = Inr a"
    and "in_configured cfg [''groups.can_admin'', ''dynamic_config.groups.can_admin''] u gs
      = Inr False"
    by (auto simp: can_admin_all_def bindE_eq_Inr split: if_splits)
  then obtain b where
    "in_configured cfg [''groups.can_admin'', ''dynamic_config.groups.can_admin''] u' gs' = Inr b"
    using in_configured_total by blast
  with a show ?thesis by (auto simp: can_admin_all_def)
qed

lemma admin_or_in_mono:
  assumes "admin_or_in cfg kss u gs = Inr True" and "set gs \<subseteq> set gs'"
  shows "admin_or_in cfg kss u gs' = Inr True"
  using assms
proof (induction kss)
  case Nil
  then show ?case by simp
next
  case (Cons keys rest)
  from Cons.prems obtain b where b: "in_configured cfg keys u gs = Inr b"
    by (auto simp: bindE_eq_Inr)
  obtain b' where b': "in_configured cfg keys u gs' = Inr b'"
    using in_configured_total [OF b] by blast
  show ?case
  proof (cases b)
    case True
    then have "in_configured cfg keys u gs' = Inr True"
      using b Cons.prems(2) by (auto intro: in_configured_mono)
    then show ?thesis by simp
  next
    case False
    then have "admin_or_in cfg rest u gs = Inr True" using Cons.prems(1) b by simp
    then have "admin_or_in cfg rest u gs' = Inr True" using Cons by blast
    then show ?thesis using b' by simp
  qed
qed

lemma admin_first_mono:
  assumes "bindE (can_admin_all cfg u gs) (\<lambda>a. if a then Inr True else admin_or_in cfg kss u gs)
      = Inr True" and "set gs \<subseteq> set gs'"
  shows "bindE (can_admin_all cfg u gs') (\<lambda>a. if a then Inr True else admin_or_in cfg kss u gs')
      = Inr True"
proof -
  from assms(1) obtain a where a: "can_admin_all cfg u gs = Inr a"
    and rest: "(if a then Inr True else admin_or_in cfg kss u gs) = Inr True"
    by (auto simp: bindE_eq_Inr)
  show ?thesis
  proof (cases a)
    case True
    then have "can_admin_all cfg u gs' = Inr True"
      using a assms(2) by (auto intro: can_admin_all_mono)
    then show ?thesis by simp
  next
    case False
    then obtain a' where "can_admin_all cfg u gs' = Inr a'"
      using a can_admin_all_total [of cfg u gs u gs'] by auto
    moreover have "admin_or_in cfg kss u gs' = Inr True"
      using rest False assms(2) admin_or_in_mono by auto
    ultimately show ?thesis by simp
  qed
qed

text \<open>
  The contract the rest of the program relies on: an application administrator holds the
  permission, and being in more groups never takes it away.
\<close>

locale permission =
  fixes perm :: "json \<Rightarrow> string \<Rightarrow> string list \<Rightarrow> bool res"
  assumes admin_holds: "can_admin_all cfg u gs = Inr True \<Longrightarrow> perm cfg u gs = Inr True"
    and perm_mono: "perm cfg u gs = Inr True \<Longrightarrow> set gs \<subseteq> set gs' \<Longrightarrow> perm cfg u gs' = Inr True"
begin

lemma perm_group_order: "set gs = set gs' \<Longrightarrow> perm cfg u gs = Inr True \<longleftrightarrow> perm cfg u gs' = Inr True"
  using perm_mono by blast

lemma perm_not_lost: "perm cfg u gs' \<noteq> Inr True \<Longrightarrow> set gs \<subseteq> set gs' \<Longrightarrow> perm cfg u gs \<noteq> Inr True"
  using perm_mono by blast

lemma application_admin_holds:
  assumes "config_get cfg ''application_admin'' JNull = Inr (JStr u)" and "u \<noteq> []"
  shows "perm cfg u gs = Inr True"
  by (rule admin_holds) (simp add: can_admin_all_def assms)

end

interpretation create_roles: permission can_create_roles
  by unfold_locales (simp_all add: can_create_roles_def admin_first_mono)

interpretation admin_policies: permission can_admin_policies
  by unfold_locales (simp_all add: can_admin_policies_def admin_first_mono)

interpretation delete_principals: permission can_delete_iam_principals
  by unfold_locales (simp_all add: can_delete_iam_principals_def admin_first_mono)

interpretation edit_config: permission can_edit_dynamic_config
  by unfold_locales (simp_all add: can_edit_dynamic_config_def admin_first_mono)

interpretation edit_attributes: permission can_edit_attributes
  by unfold_locales (simp_all add: can_edit_attributes_def admin_first_mono)

interpretation sensitive_attributes: permission can_edit_sensitive_attributes
  by unfold_locales (simp_all add: can_edit_sensitive_attributes_def admin_first_mono)

interpretation modify_unrestricted: permission "\<lambda>cfg u gs. can_modify_members cfg u gs (Some False)"
  by unfold_locales (simp_all add: can_modify_members_def admin_first_mono)





end
