(* ===== verification/Lifecycle.thy ===== *)
theory Lifecycle
  imports Apply Auth
begin

text \<open>
  The life of a policy request (consoleme/lib/v2/requests.py 2310-2796, consoleme/lib/policies.py
  230-302, 509-541): commenting, updating, applying and cancelling single changes, approving,
  rejecting, cancelling and reopening the whole request. Each command checks who may issue it,
  changes the request, writes it to the table and finally derives the request's status from its
  changes. The functions return the request beside the response, as the code mutates it.
\<close>

section \<open>Who may do what\<close>

text \<open>\<open>int(time.time())\<close> is the clock of the environment; a day is 86400 seconds.\<close>

definition can_move_back_to_pending_v2 ::
  "env \<Rightarrow> extended_request \<Rightarrow> int \<Rightarrow> string \<Rightarrow> string list \<Rightarrow> bool res" where
  "can_move_back_to_pending_v2 env er last_updated user groups =
     (if er_request_status er = Cancelled_request \<or> er_request_status er = Rejected then
        if last_updated < e_now env - 86400 then Inr False
        else can_admin_policies (e_cfg env) user groups
      else Inr False)"

definition can_update_cancel_requests_v2 ::
  "env \<Rightarrow> string \<Rightarrow> string \<Rightarrow> string list \<Rightarrow> bool res" where
  "can_update_cancel_requests_v2 env requester user groups =
     (if user = requester then Inr True else can_admin_policies (e_cfg env) user groups)"

section \<open>Mails\<close>

definition get_policy_request_uri_v2 :: "env \<Rightarrow> extended_request \<Rightarrow> string res" where
  "get_policy_request_uri_v2 env er =
     (if truthy_str (er_request_url er) then Inr (str_or (er_request_url er) [])
      else bindE (config_get (e_cfg env) ''url'' JNull) (\<lambda>url.
        Inr (e_str env url @ ''/policies/request/'' @ er_id er)))"

text \<open>The requester, and the application's administrator for a new request.\<close>

definition send_communications_policy_change_request_v2 ::
  "env \<Rightarrow> extended_request \<Rightarrow> (world, unit) io" where
  "send_communications_policy_change_request_v2 env er =
     bindW (liftW (get_policy_request_uri_v2 env er)) (\<lambda>uri.
     bindW (liftW (if er_request_status er = Pending
                   then bindE (config_get (e_cfg env) ''application_admin'' JNull) (\<lambda>a. Inr [a])
                   else Inr [])) (\<lambda>admins.
       send_mail (Status_mail uri (JList (JStr (er_requester_email er) # admins))
         (er_request_status er))))"

definition send_communications_new_comment ::
  "env \<Rightarrow> extended_request \<Rightarrow> string \<Rightarrow> string list \<Rightarrow> (world, unit) io" where
  "send_communications_new_comment env er user to_addresses =
     bindW (liftW (if to_addresses \<noteq> [] then Inr (JList (map JStr to_addresses))
                   else config_get (e_cfg env) ''groups.fallback_policy_request_reviewers'' (JList [])))
       (\<lambda>recipients.
     bindW (liftW (get_policy_request_uri_v2 env er)) (\<lambda>uri.
       send_mail (Comment_mail uri recipients user)))"

section \<open>Writing the request back\<close>

text \<open>\<open>_update_dynamo_with_change\<close>: a failing write becomes an error result.\<close>

definition update_dynamo_with_change ::
  "env \<Rightarrow> extended_request \<Rightarrow> string \<Rightarrow> string \<Rightarrow> bool \<Rightarrow> response \<Rightarrow> (world, response) io" where
  "update_dynamo_with_change env er success_message error_message visible r = (\<lambda>w.
     case write_policy_request_v2 env er w of
       (Inl e, w') \<Rightarrow> (Inr (add_error (error_message @ '': '' @ err_str e) r), w')
     | (Inr _, w') \<Rightarrow>
         (Inr (if visible then add_success success_message r
               else add_hidden_success success_message r), w'))"

text \<open>\<open>_get_specific_change\<close>: where the first change with the id stands.\<close>

fun get_specific_change :: "change list \<Rightarrow> string \<Rightarrow> nat option" where
  "get_specific_change [] cid = None"
| "get_specific_change (c # cs) cid =
     (if ch_id c = Some cid then Some 0 else map_option Suc (get_specific_change cs cid))"

section \<open>The status of a request from its changes\<close>

definition counts_as_pending :: "change \<Rightarrow> bool" where
  "counts_as_pending c \<longleftrightarrow> ch_status c = Not_applied \<and>
     \<not> (is_resource_policy_type (ch_type c) \<and> ch_supported c = Some False) \<and>
     \<not> ch_autogenerated c"

definition derived_status :: "change list \<Rightarrow> request_status option" where
  "derived_status cs =
     (let applied = list_ex (\<lambda>c. ch_status c = Applied) cs;
          pending = list_ex counts_as_pending cs;
          cancelled = list_ex (\<lambda>c. ch_status c = Cancelled) cs
      in if applied \<and> \<not> pending then Some Approved
         else if \<not> applied \<and> \<not> pending \<and> cancelled then Some Cancelled_request
         else None)"

definition maybe_approve_reject_request ::
  "env \<Rightarrow> string \<Rightarrow> extended_request \<Rightarrow> response \<Rightarrow> (world, extended_request \<times> response) io" where
  "maybe_approve_reject_request env user er r =
     (case derived_status (er_changes er) of
        None \<Rightarrow> retW (er, r)
      | Some st \<Rightarrow>
          (let er = er\<lparr>er_request_status := st, er_reviewer := Some user\<rparr> in
           bindW (update_dynamo_with_change env er ''Successfully updated request status''
                    ''Error updating request in dynamo'' False r) (\<lambda>r.
           bindW (send_communications_policy_change_request_v2 env er) (\<lambda>_.
           bindW (liftW (principal_arn (er_principal er))) (\<lambda>arn.
           bindW (liftW (get_resource_account env arn)) (\<lambda>account.
           bindW (if starts_with arn ''aws:aws:iam::'' then refresh_role env account arn
                  else retW ()) (\<lambda>_.
             retW (er, r))))))))"

section \<open>Authorization of a command\<close>

definition authorize_modification ::
  "env \<Rightarrow> extended_request \<Rightarrow> command \<Rightarrow> string \<Rightarrow> string list \<Rightarrow> int \<Rightarrow> bool \<Rightarrow> unit res" where
  "authorize_modification env er cmd user groups last_updated probe_approved =
     bindE (if cmd = Update_change \<or> cmd = Cancel_request then
              bindE (can_update_cancel_requests_v2 env (er_requester_email er) user groups) (\<lambda>ok.
                if ok then Inr ()
                else Inl (Unauthorized
                  ''You are not authorized to update or cancel changes in this request''))
            else Inr ()) (\<lambda>_.
     bindE (if cmd = Apply_change \<or> cmd = Approve_request \<or> cmd = Reject_request then
              bindE (can_admin_policies (e_cfg env) user groups) (\<lambda>ok.
                if \<not> ok \<and> \<not> (cmd = Apply_change \<and> probe_approved)
                then Inl (Unauthorized ''You are not authorized to manage this request'')
                else Inr ())
            else Inr ()) (\<lambda>_.
     bindE (if cmd = Move_back_to_pending then
              bindE (can_move_back_to_pending_v2 env er last_updated user groups) (\<lambda>ok.
                if ok then Inr ()
                else Inl (Unauthorized ''Cannot move this request back to pending''))
            else Inr ()) (\<lambda>_.
     if (er_request_status er = Cancelled_request \<or> er_request_status er = Rejected) \<and>
        cmd \<noteq> Add_comment \<and> cmd \<noteq> Move_back_to_pending
     then Inl (InvalidRequestParameter (''Cannot perform '' @ command_value cmd @ '' on '' @
       request_status_value (er_request_status er) @ '' requests''))
     else Inr ())))"

section \<open>The commands\<close>

definition no_such_change :: py_error where
  "no_such_change = NoMatchingRequest
     (''Unable to find a compatible non-applied change with '' @ ''that ID in this policy request'')"

definition add_comment ::
  "env \<Rightarrow> string \<Rightarrow> string \<Rightarrow> extended_request \<Rightarrow> response \<Rightarrow> (world, extended_request \<times> response) io"
  where
  "add_comment env user txt er r =
     bindW (fresh_uuid env) (\<lambda>cid.
     let er = er\<lparr>er_comments := er_comments er @
           [\<lparr>co_id = cid, co_timestamp = e_now env, co_user_email = user, co_text = txt\<rparr>]\<rparr> in
     bindW (update_dynamo_with_change env er ''Successfully added comment''
              ''Error occurred adding comment'' True r) (\<lambda>r.
     bindW (send_communications_new_comment env er user
              (if user = er_requester_email er then [] else [er_requester_email er])) (\<lambda>_.
       retW (er, r))))"

definition update_change ::
  "env \<Rightarrow> string \<Rightarrow> json \<Rightarrow> string \<Rightarrow> extended_request \<Rightarrow> response
     \<Rightarrow> (world, extended_request \<times> response) io" where
  "update_change env user doc cid er r =
     (case get_specific_change (er_changes er) cid of
        None \<Rightarrow> failW no_such_change
      | Some i \<Rightarrow>
          (let c = er_changes er ! i in
           if has_updatable_policy (ch_type c) \<and> ch_status c = Not_applied then
             bindW (liftW (set_policy_document doc c)) (\<lambda>c.
             let c = (if is_resource_policy_type (ch_type c) then c\<lparr>ch_autogenerated := False\<rparr> else c);
                 er = replace_change i (c\<lparr>ch_updated_by := Some user\<rparr>) er in
             bindW (update_dynamo_with_change env er ''Successfully updated policy document''
                      ''Error occurred updating policy document'' True r) (\<lambda>r. retW (er, r)))
           else failW no_such_change))"

text \<open>
  \<open>re.compile(r"^arn:aws:iam::\d{12}:policy/.+").search(arn)\<close>: the dot is any character but a
  line feed.
\<close>

definition is_digit :: "char \<Rightarrow> bool" where
  "is_digit c \<longleftrightarrow> c \<in> set ''0123456789''"

definition managed_policy_arn :: "string \<Rightarrow> bool" where
  "managed_policy_arn arn \<longleftrightarrow>
     (let p = ''arn:aws:iam::''; rest = drop (length p) arn; account = take 12 rest;
          mid = '':policy/''; tail = drop 12 rest; name = drop (length mid) tail
      in starts_with arn p \<and> length account = 12 \<and> list_all is_digit account \<and>
         starts_with tail mid \<and> name \<noteq> [] \<and> hd name \<noteq> CHR 0x0A)"

text \<open>
  Which applier a change goes to. For a role or user the old policies are stored first and the
  cached role is refreshed after; the applier gets the change's id and picks by it.
\<close>

definition apply_to_principal ::
  "env \<Rightarrow> string \<Rightarrow> nat \<Rightarrow> extended_request \<Rightarrow> response \<Rightarrow> (world, extended_request \<times> response) io"
  where
  "apply_to_principal env user i er r =
     bindW (readW (\<lambda>w. populate_old_policies env (w_calls w) er None)) (\<lambda>er.
     bindW (apply_changes_to_role env user (ch_id (er_changes er ! i)) er r) (\<lambda>(er, r).
     bindW (liftW (principal_arn (er_principal er))) (\<lambda>arn.
     bindW (liftW (get_resource_account env arn)) (\<lambda>account.
     bindW (refresh_role env account arn) (\<lambda>_. retW (er, r))))))"

definition dispatch_apply ::
  "env \<Rightarrow> string \<Rightarrow> nat \<Rightarrow> extended_request \<Rightarrow> response \<Rightarrow> (world, extended_request \<times> response) io"
  where
  "dispatch_apply env user i er r =
     (let c = er_changes er ! i in
      if is_resource_policy_type (ch_type c) then apply_resource_policy_change env user i er r
      else if ch_type c = Resource_tag then
        bindW (liftW (principal_arn (ch_principal c))) (\<lambda>arn.
          if \<not> starts_with arn ''arn:aws:iam::''
          then apply_non_iam_resource_tag_change env user i er r
          else if managed_policy_arn arn
          then apply_managed_policy_resource_tag_change env user i er r
          else apply_to_principal env user i er r)
      else if ch_type c = Managed_policy_resource
        then apply_managed_policy_resource_change env user i er r
      else apply_to_principal env user i er r)"

text \<open>The document sent along replaces the stored one when it is not empty.\<close>

definition override_document :: "json option \<Rightarrow> change \<Rightarrow> change res" where
  "override_document doc c = (case doc of
      Some d \<Rightarrow> if truthy d \<and> has_updatable_policy (ch_type c) then set_policy_document d c
                else Inr c
    | None \<Rightarrow> Inr c)"

definition record_applied ::
  "env \<Rightarrow> string \<Rightarrow> nat \<Rightarrow> extended_request \<Rightarrow> response \<Rightarrow> (world, extended_request \<times> response) io"
  where
  "record_applied env user i er r =
     (if ch_status (er_changes er ! i) = Applied then
        (let er = replace_change i ((er_changes er ! i)\<lparr>ch_updated_by := Some user\<rparr>) er in
         bindW (update_dynamo_with_change env er ''Successfully updated change in dynamo''
                  ''Error updating change in dynamo'' False r) (\<lambda>r. retW (er, r)))
      else retW (er, r))"

definition apply_change ::
  "env \<Rightarrow> string \<Rightarrow> json option \<Rightarrow> string \<Rightarrow> extended_request \<Rightarrow> response
     \<Rightarrow> (world, extended_request \<times> response) io" where
  "apply_change env user doc cid er r =
     (case get_specific_change (er_changes er) cid of
        None \<Rightarrow> failW no_such_change
      | Some i \<Rightarrow>
          (if ch_status (er_changes er ! i) = Not_applied then
             bindW (liftW (override_document doc (er_changes er ! i))) (\<lambda>c.
             bindW (dispatch_apply env user i (replace_change i c er) r) (\<lambda>(er, r).
               record_applied env user i er r))
           else failW no_such_change))"

definition cancel_change ::
  "env \<Rightarrow> string \<Rightarrow> string \<Rightarrow> extended_request \<Rightarrow> response \<Rightarrow> (world, extended_request \<times> response) io"
  where
  "cancel_change env user cid er r =
     (case get_specific_change (er_changes er) cid of
        None \<Rightarrow> failW no_such_change
      | Some i \<Rightarrow>
          (let c = er_changes er ! i in
           if ch_status c = Not_applied then
             (let er = replace_change i (c\<lparr>ch_status := Cancelled, ch_updated_by := Some user\<rparr>) er in
              bindW (update_dynamo_with_change env er ''Successfully updated change in dynamo''
                       ''Error updating change in dynamo'' False r) (\<lambda>r. retW (er, r)))
           else failW no_such_change))"

text \<open>
  Cancelling or rejecting the request: it must be pending, and if a change is applied already
  that is an error in the response. \<open>what\<close> is "cancelled" or "rejected" in the messages.
\<close>

definition close_request ::
  "env \<Rightarrow> string \<Rightarrow> request_status \<Rightarrow> string \<Rightarrow> string \<Rightarrow> string \<Rightarrow> extended_request \<Rightarrow> response
     \<Rightarrow> (world, extended_request \<times> response) io" where
  "close_request env user st refusal success_message error_message er r =
     (if er_request_status er \<noteq> Pending then failW (InvalidRequestParameter
        (refusal @ request_status_value (er_request_status er)))
      else if list_ex (\<lambda>c. ch_status c = Applied) (er_changes er) then
        retW (er, add_error (''Request cannot be '' @ request_status_value st @
          '' because at least one change has been applied already. '' @
          ''Please apply or cancel the other changes.'') r)
      else
        (let er = er\<lparr>er_request_status := st, er_reviewer := Some user\<rparr> in
         bindW (update_dynamo_with_change env er success_message error_message True r) (\<lambda>r.
         bindW (send_communications_policy_change_request_v2 env er) (\<lambda>_. retW (er, r)))))"

definition cancel_request ::
  "env \<Rightarrow> string \<Rightarrow> extended_request \<Rightarrow> response \<Rightarrow> (world, extended_request \<times> response) io" where
  "cancel_request env user = close_request env user Cancelled_request
     (''Request cannot be cancelled as it'' @ [CHR 39] @ ''s status is '')
     ''Successfully cancelled request'' ''Error cancelling request''"

definition reject_request ::
  "env \<Rightarrow> string \<Rightarrow> extended_request \<Rightarrow> response \<Rightarrow> (world, extended_request \<times> response) io" where
  "reject_request env user = close_request env user Rejected
     (''Request cannot be rejected as it'' @ [CHR 39] @ ''s status is '')
     ''Successfully rejected request'' ''Error rejected request''"

definition move_back_to_pending ::
  "env \<Rightarrow> extended_request \<Rightarrow> response \<Rightarrow> (world, extended_request \<times> response) io" where
  "move_back_to_pending env er r =
     (let er = er\<lparr>er_request_status := Pending\<rparr> in
      bindW (update_dynamo_with_change env er ''Successfully moved request back to pending''
               ''Error moving request back to pending'' True r) (\<lambda>r. retW (er, r)))"

definition approve_request ::
  "env \<Rightarrow> string \<Rightarrow> extended_request \<Rightarrow> response \<Rightarrow> (world, extended_request \<times> response) io" where
  "approve_request env user er r =
     (if er_request_status er \<noteq> Pending then failW (InvalidRequestParameter
        (''Request cannot be approved as it'' @ [CHR 39] @ ''s status is '' @
         request_status_value (er_request_status er)))
      else
        bindW (readW (\<lambda>w. populate_old_policies env (w_calls w) er None)) (\<lambda>er.
        let er = er\<lparr>er_request_status := Approved, er_reviewer := Some user\<rparr> in
        bindW (update_dynamo_with_change env er ''Successfully updated request status''
                 ''Error updating request in dynamo'' False r) (\<lambda>r.
        bindW (send_communications_policy_change_request_v2 env er) (\<lambda>_.
        bindW (liftW (principal_arn (er_principal er))) (\<lambda>arn.
        bindW (liftW (get_resource_account env arn)) (\<lambda>account.
        bindW (refresh_role env account arn) (\<lambda>_. retW (er, r))))))))"

fun perform ::
  "env \<Rightarrow> string \<Rightarrow> modification \<Rightarrow> extended_request \<Rightarrow> response
     \<Rightarrow> (world, extended_request \<times> response) io" where
  "perform env user (Comment_modification txt) er r = add_comment env user txt er r"
| "perform env user (Update_change_modification doc cid) er r = update_change env user doc cid er r"
| "perform env user (Apply_change_modification doc cid) er r = apply_change env user doc cid er r"
| "perform env user (Cancel_change_modification cid) er r = cancel_change env user cid er r"
| "perform env user Cancel_request_modification er r = cancel_request env user er r"
| "perform env user Reject_request_modification er r = reject_request env user er r"
| "perform env user Approve_request_modification er r = approve_request env user er r"
| "perform env user Move_to_pending_modification er r = move_back_to_pending env er r"

text \<open>
  \<open>parse_and_apply_policy_request_modification\<close>. The early returns of cancelling and rejecting
  run \<open>maybe_approve_reject_request\<close> themselves, as the end of the function does for the others.
\<close>

definition parse_and_apply ::
  "env \<Rightarrow> string \<Rightarrow> string list \<Rightarrow> int \<Rightarrow> bool \<Rightarrow> modification \<Rightarrow> extended_request
     \<Rightarrow> (world, extended_request \<times> response) io" where
  "parse_and_apply env user groups last_updated probe_approved m er =
     bindW (liftW (authorize_modification env er (command_of m) user groups last_updated
              probe_approved)) (\<lambda>_.
     bindW (perform env user m er empty_response) (\<lambda>(er, r).
       maybe_approve_reject_request env user er r))"

section \<open>Reasoning about what a computation returns and does\<close>

text \<open>
  \<open>ensures P m\<close>: whatever happens the world changes as the relation allows, and a result that
  is returned satisfies \<open>P\<close>.
\<close>

context step_relation
begin

definition ensures :: "('a \<Rightarrow> bool) \<Rightarrow> ('w, 'a) io \<Rightarrow> bool" where
  "ensures P m \<longleftrightarrow> (\<forall>w. R w (snd (m w)) \<and> (\<forall>a. fst (m w) = Inr a \<longrightarrow> P a))"

lemma ensures_ret: "P a \<Longrightarrow> ensures P (retW a)"
  by (simp add: ensures_def step_refl)

lemma ensures_fail: "ensures P (failW e)"
  by (simp add: ensures_def step_refl)

lemma ensures_lift: "(\<And>a. x = Inr a \<Longrightarrow> P a) \<Longrightarrow> ensures P (liftW x)"
  by (simp add: ensures_def step_refl)

lemma ensures_read: "(\<And>w a. f w = Inr a \<Longrightarrow> P a) \<Longrightarrow> ensures P (readW f)"
  by (auto simp: ensures_def step_refl)

lemma ensures_keeps: "keeps m \<Longrightarrow> ensures (\<lambda>a. True) m"
  by (simp add: ensures_def keeps_def)

lemma ensures_bind:
  assumes "ensures Q m" and "\<And>a. Q a \<Longrightarrow> ensures P (f a)"
  shows "ensures P (bindW m f)"
  unfolding ensures_def
proof
  fix w
  show "R w (snd (bindW m f w)) \<and> (\<forall>a. fst (bindW m f w) = Inr a \<longrightarrow> P a)"
  proof (cases "fst (m w)")
    case (Inl e)
    with assms(1) show ?thesis by (simp add: ensures_def bindW_run)
  next
    case (Inr a)
    have m: "R w (snd (m w))" "Q a" using assms(1) Inr by (simp_all add: ensures_def)
    have f: "R (snd (m w)) (snd (f a (snd (m w))))"
        "\<forall>b. fst (f a (snd (m w))) = Inr b \<longrightarrow> P b"
      using assms(2) [OF m(2)] by (simp_all add: ensures_def)
    from step_trans [OF m(1) f(1)] f(2) Inr show ?thesis by (simp add: bindW_run)
  qed
qed

lemma ensures_weaken: "ensures Q m \<Longrightarrow> (\<And>a. Q a \<Longrightarrow> P a) \<Longrightarrow> ensures P m"
  by (simp add: ensures_def)

lemma ensures_bind_keeps: "keeps m \<Longrightarrow> (\<And>a. ensures P (f a)) \<Longrightarrow> ensures P (bindW m f)"
  by (rule ensures_bind [OF ensures_keeps])

lemma ensuresD: "ensures P m \<Longrightarrow> m w = (out, w') \<Longrightarrow> R w w'"
  by (metis ensures_def snd_conv)

lemma ensures_result: "ensures P m \<Longrightarrow> m w = (Inr a, w') \<Longrightarrow> P a"
  by (metis ensures_def fst_conv)

end

section \<open>What becomes of a request\<close>

text \<open>
  \<open>descends er er'\<close>: it is still the same request of the same requester for the same principal,
  no comment has gone, and every change that was applied is there, unchanged, at its place.
\<close>

definition descends :: "extended_request \<Rightarrow> extended_request \<Rightarrow> bool" where
  "descends er er' \<longleftrightarrow> er_id er' = er_id er \<and> er_principal er' = er_principal er \<and>
     er_requester_email er' = er_requester_email er \<and>
     prefix (er_comments er) (er_comments er') \<and> applied_kept er er'"

lemma descends_refl [simp]: "descends er er"
  by (simp add: descends_def)

lemma descends_trans: "descends a b \<Longrightarrow> descends b c \<Longrightarrow> descends a c"
  by (auto simp: descends_def intro: applied_kept_trans)

lemma applied_kept_fields [simp]:
  "applied_kept er (er'\<lparr>er_request_status := s\<rparr>) = applied_kept er er'"
  "applied_kept er (er'\<lparr>er_reviewer := v\<rparr>) = applied_kept er er'"
  "applied_kept er (er'\<lparr>er_comments := cs\<rparr>) = applied_kept er er'"
  by (simp_all add: applied_kept_def)

lemma descends_fields [simp]:
  "descends er (er'\<lparr>er_request_status := s\<rparr>) = descends er er'"
  "descends er (er'\<lparr>er_reviewer := v\<rparr>) = descends er er'"
  by (simp_all add: descends_def)

lemma descends_comment: "descends er er' \<Longrightarrow> descends er (er'\<lparr>er_comments := er_comments er' @ cs\<rparr>)"
  by (simp add: descends_def)

lemma descends_applied: "descends er er1 \<Longrightarrow> request_applied er1 er2 \<Longrightarrow> descends er er2"
  using request_applied_kept request_applied_fields
  by (auto simp: descends_def intro: applied_kept_trans)

lemma descends_replace:
  assumes "descends er er1" and "ch_status (er_changes er ! i) \<noteq> Applied"
  shows "descends er (replace_change i c er1)"
  using assms
  by (cases "i < length (er_changes er1)")
    (auto simp: descends_def applied_kept_def nth_list_update)

text \<open>
  The table: rows of other requests stay, the row of this one stays or becomes a descendant.
\<close>

definition row_descends :: "extended_request \<Rightarrow> world \<Rightarrow> world \<Rightarrow> bool" where
  "row_descends er w w' \<longleftrightarrow> (\<forall>k. w_table w' k = w_table w k \<or>
     k = er_id er \<and> (\<exists>s. w_table w' k = Some s \<and> descends er (sr_request s)))"

interpretation row: step_relation "row_descends er" for er
proof
  show "row_descends er w w" for w by (simp add: row_descends_def)
  show "row_descends er w1 w3" if "row_descends er w1 w2" "row_descends er w2 w3" for w1 w2 w3
    using that unfolding row_descends_def by metis
qed

lemma row_keeps_tbl: "tbl.keeps m \<Longrightarrow> row.keeps er m"
  by (simp add: tbl.keeps_def row.keeps_def same_table_def row_descends_def)

lemma update_dynamo_row:
  assumes "descends er er'"
  shows "row.keeps er (update_dynamo_with_change env er' s e v r)"
  using assms
  by (auto simp: row.keeps_def update_dynamo_with_change_def write_policy_request_v2_def Let_def
      row_descends_def descends_def split: option.split)

lemmas row_rules = row.ensures_ret row.ensures_fail row.ensures_bind_keeps row_keeps_tbl
  update_dynamo_row

lemma send_status_mail_tbl: "tbl.keeps (send_communications_policy_change_request_v2 env er)"
  unfolding send_communications_policy_change_request_v2_def by (intro keeps_rules frames)

lemma send_comment_mail_tbl: "tbl.keeps (send_communications_new_comment env er user to)"
  unfolding send_communications_new_comment_def by (intro keeps_rules frames)

lemmas mail_frames = send_status_mail_tbl send_comment_mail_tbl

abbreviation returns_descendant ::
  "extended_request \<Rightarrow> (world, extended_request \<times> response) io \<Rightarrow> bool" where
  "returns_descendant er \<equiv> row.ensures er (\<lambda>(er', r). descends er er')"

lemma written_back:
  assumes "descends er er'"
  shows "returns_descendant er (bindW (update_dynamo_with_change env er' s e v r) (\<lambda>r. retW (er', r)))"
  by (intro row.ensures_bind_keeps update_dynamo_row row.ensures_ret) (use assms in simp_all)

lemma maybe_approve_row:
  assumes "descends er er'"
  shows "returns_descendant er (maybe_approve_reject_request env user er' r)"
  unfolding maybe_approve_reject_request_def Let_def
  using assms
  by (auto intro!: row_rules row.keeps_lift mail_frames frames tbl.keeps_ret
      split: option.split)

lemma add_comment_row: "returns_descendant er (add_comment env user txt er r)"
  unfolding add_comment_def Let_def
  by (auto intro!: row_rules row.keeps_lift mail_frames frames descends_comment)

lemma set_policy_document_fields:
  "set_policy_document d c = Inr c' \<Longrightarrow> ch_status c' = ch_status c \<and> ch_id c' = ch_id c \<and>
    ch_type c' = ch_type c"
  by (auto simp: set_policy_document_def split: option.splits)

lemma get_specific_change_Some:
  "get_specific_change cs cid = Some i \<Longrightarrow> i < length cs \<and> ch_id (cs ! i) = Some cid \<and>
    (\<forall>j < i. ch_id (cs ! j) \<noteq> Some cid)"
proof (induction cs arbitrary: i)
  case Nil
  then show ?case by simp
next
  case (Cons c cs)
  then show ?case
    by (auto simp: nth_Cons split: if_splits nat.split)
qed

lemma update_change_row: "returns_descendant er (update_change env user doc cid er r)"
  unfolding update_change_def Let_def
  by (auto intro!: row.ensures_fail row.ensures_bind_keeps row.keeps_lift written_back descends_replace
      split: option.split)

lemma cancel_change_row: "returns_descendant er (cancel_change env user cid er r)"
  unfolding cancel_change_def Let_def
  by (auto intro!: row.ensures_fail written_back descends_replace split: option.split)

lemma close_request_row: "returns_descendant er (close_request env user st a b c er r)"
  unfolding close_request_def Let_def
  by (auto intro!: row_rules row.keeps_lift mail_frames)

lemma move_back_row: "returns_descendant er (move_back_to_pending env er r)"
  unfolding move_back_to_pending_def Let_def
  by (intro written_back) simp

lemma populated_descends:
  "populate_old_policies env log er p = Inr er' \<Longrightarrow> descends er er'"
  using descends_applied [OF descends_refl populate_old_policies_applied] .

lemma approve_request_row: "returns_descendant er (approve_request env user er r)"
  unfolding approve_request_def Let_def
proof (simp, intro conjI impI)
  show "returns_descendant er (failW e)" for e by (rule row.ensures_fail)
  assume "er_request_status er = Pending"
  show "returns_descendant er
      (bindW (readW (\<lambda>w. populate_old_policies env (w_calls w) er None)) (\<lambda>er.
        bindW (update_dynamo_with_change env (er\<lparr>er_request_status := Approved, er_reviewer := Some user\<rparr>)
          ''Successfully updated request status'' ''Error updating request in dynamo'' False r) (\<lambda>r.
        bindW (send_communications_policy_change_request_v2 env
          (er\<lparr>er_request_status := Approved, er_reviewer := Some user\<rparr>)) (\<lambda>_.
        bindW (liftW (principal_arn (er_principal er))) (\<lambda>arn.
        bindW (liftW (get_resource_account env arn)) (\<lambda>account.
        bindW (refresh_role env account arn)
          (\<lambda>_. retW (er\<lparr>er_request_status := Approved, er_reviewer := Some user\<rparr>, r))))))))"
    by (rule row.ensures_bind [where Q = "descends er"], rule row.ensures_read,
        erule populated_descends)
      (auto intro!: row_rules row.keeps_lift mail_frames frames)
qed

lemma override_document_fields:
  "override_document doc c = Inr c' \<Longrightarrow> ch_status c' = ch_status c \<and> ch_id c' = ch_id c \<and>
    ch_type c' = ch_type c"
  by (auto simp: override_document_def dest: set_policy_document_fields
      split: option.splits if_splits)

text \<open>Each applier, seen from the request the command started with.\<close>

context applier
begin

lemma run_row:
  assumes "descends er er1" and "ready er1"
  shows "returns_descendant er (run er1 r)"
  unfolding row.ensures_def
proof (intro allI conjI impI)
  fix w
  have "w_table (snd (run er1 r w)) = w_table w"
    using run_table [of er1 r w] by (metis prod.collapse)
  then show "row_descends er w (snd (run er1 r w))" by (simp add: row_descends_def)
  fix a assume "fst (run er1 r w) = Inr a"
  then have "run er1 r w = (Inr (fst a, snd a), snd (run er1 r w))" by (metis prod.collapse)
  from descends_applied [OF assms(1) run_request [OF assms(2) this]]
  show "case a of (er', r) \<Rightarrow> descends er er'" by (simp add: case_prod_beta)
qed

end

lemma apply_to_principal_row:
  assumes "descends er er1"
  shows "returns_descendant er (apply_to_principal env user i er1 r)"
  unfolding apply_to_principal_def
proof (rule row.ensures_bind [where Q = "descends er"])
  show "row.ensures er (descends er) (readW (\<lambda>w. populate_old_policies env (w_calls w) er1 None))"
    by (rule row.ensures_read) (metis assms descends_trans populated_descends)
next
  fix er2 assume "descends er er2"
  then have "returns_descendant er (apply_changes_to_role env user (ch_id (er_changes er2 ! i)) er2 r)"
    by (rule role.run_row) simp
  then show "returns_descendant er
      (bindW (apply_changes_to_role env user (ch_id (er_changes er2 ! i)) er2 r) (\<lambda>(er, r).
        bindW (liftW (principal_arn (er_principal er))) (\<lambda>arn.
        bindW (liftW (get_resource_account env arn)) (\<lambda>account.
        bindW (refresh_role env account arn) (\<lambda>_. retW (er, r))))))"
    by (rule row.ensures_bind)
      (auto intro!: row_rules row.keeps_lift frames split: prod.splits)
qed

lemma dispatch_apply_row:
  assumes "descends er er1" and "open_change i er1"
  shows "returns_descendant er (dispatch_apply env user i er1 r)"
  unfolding dispatch_apply_def Let_def
  using assms
  by (auto intro!: resource_policies.run_row non_iam_tags.run_row mp_tags.run_row
      managed_policies.run_row apply_to_principal_row row.ensures_bind_keeps row.keeps_lift)

lemma record_applied_row:
  assumes "descends er er1" and "ch_status (er_changes er ! i) \<noteq> Applied"
  shows "returns_descendant er (record_applied env user i er1 r)"
  unfolding record_applied_def Let_def
  using assms by (auto intro!: written_back descends_replace row.ensures_ret)

lemma apply_change_row: "returns_descendant er (apply_change env user doc cid er r)"
proof (cases "get_specific_change (er_changes er) cid")
  case None
  then show ?thesis by (simp add: apply_change_def row.ensures_fail)
next
  case (Some i)
  show ?thesis
  proof (cases "ch_status (er_changes er ! i) = Not_applied")
    case False
    with Some show ?thesis by (simp add: apply_change_def row.ensures_fail)
  next
    case True
    have inside: "returns_descendant er
        (bindW (dispatch_apply env user i (replace_change i c er) r)
          (\<lambda>(er, r). record_applied env user i er r))"
      if c: "override_document doc (er_changes er ! i) = Inr c" for c
    proof (rule row.ensures_bind)
      show "returns_descendant er (dispatch_apply env user i (replace_change i c er) r)"
        using True get_specific_change_Some [OF Some] override_document_fields [OF c]
        by (intro dispatch_apply_row descends_replace) (simp_all add: open_change_def)
    next
      fix a :: "extended_request \<times> response"
      assume "case a of (er', r) \<Rightarrow> descends er er'"
      with True show "returns_descendant er (case a of (er, r) \<Rightarrow> record_applied env user i er r)"
        by (auto intro: record_applied_row)
    qed
    have "returns_descendant er
        (bindW (liftW (override_document doc (er_changes er ! i))) (\<lambda>c.
           bindW (dispatch_apply env user i (replace_change i c er) r)
             (\<lambda>(er, r). record_applied env user i er r)))"
      by (rule row.ensures_bind
          [where Q = "\<lambda>c. override_document doc (er_changes er ! i) = Inr c"])
        (auto intro: row.ensures_lift inside)
    with Some True show ?thesis by (simp add: apply_change_def)
  qed
qed

lemma perform_row: "returns_descendant er (perform env user m er r)"
  by (cases m) (simp_all add: add_comment_row update_change_row apply_change_row cancel_change_row
      cancel_request_def reject_request_def close_request_row approve_request_row move_back_row)

lemma parse_and_apply_row:
  "returns_descendant er (parse_and_apply env user groups lu probe m er)"
  unfolding parse_and_apply_def
  by (intro row.ensures_bind_keeps row.keeps_lift row.ensures_bind [OF perform_row])
    (auto intro: maybe_approve_row)

section \<open>Calls, errors and the stored request\<close>

lemma update_dynamo_frames [frames]:
  "cls.keeps (update_dynamo_with_change env er s e v r)"
  "lg.keeps (update_dynamo_with_change env er s e v r)"
  by (auto simp: cls.keeps_def lg.keeps_def update_dynamo_with_change_def
      write_policy_request_v2_def Let_def same_calls_def log_grows_def split: option.split)

lemma mail_call_frames [frames]:
  "cls.keeps (send_communications_policy_change_request_v2 env er)"
  "cls.keeps (send_communications_new_comment env er user to)"
  unfolding send_communications_policy_change_request_v2_def send_communications_new_comment_def
  by (intro keeps_rules frames)+

lemma maybe_approve_calls: "cls.keeps (maybe_approve_reject_request env user er r)"
  unfolding maybe_approve_reject_request_def Let_def
  by (auto intro!: keeps_rules frames split: option.split)

lemma perform_calls:
  assumes "\<nexists>d cid. m = Apply_change_modification d cid"
  shows "cls.keeps (perform env user m er r)"
  using assms
  by (cases m)
    (auto simp: add_comment_def update_change_def cancel_change_def cancel_request_def
      reject_request_def close_request_def approve_request_def move_back_to_pending_def Let_def
      intro!: keeps_rules frames split: option.split)

lemma update_dynamo_run:
  assumes "update_dynamo_with_change env er s e v r w = (out, w')"
  obtains r' where "out = Inr r'" "rs_errors r \<le> rs_errors r'" "response_ok r \<longrightarrow> response_ok r'"
    "rs_errors r' = rs_errors r \<Longrightarrow>
      w_table w' (er_id er) = Some \<lparr>sr_request = er, sr_last_updated = e_now env\<rparr>"
    "w_table w' (er_id er) \<noteq> Some \<lparr>sr_request = er, sr_last_updated = e_now env\<rparr> \<Longrightarrow>
      w_table w' = w_table w"
proof (cases "e_put_item env (w_puts w)")
  case None
  with assms that show ?thesis
    by (auto simp: update_dynamo_with_change_def write_policy_request_v2_def Let_def
        split: if_splits)
next
  case (Some e')
  with assms that show ?thesis
    by (auto simp: update_dynamo_with_change_def write_policy_request_v2_def Let_def)
qed

text \<open>The stored request is the one at hand.\<close>

definition stored :: "env \<Rightarrow> extended_request \<Rightarrow> world \<Rightarrow> bool" where
  "stored env er w \<longleftrightarrow>
     w_table w (er_id er) = Some \<lparr>sr_request = er, sr_last_updated = e_now env\<rparr>"

lemma stored_tbl: "tbl.keeps m \<Longrightarrow> m w = (out, w') \<Longrightarrow> stored env er w' = stored env er w"
  by (auto simp: stored_def same_table_def dest: tbl.keepsD)

text \<open>How the responses grow: the count never falls and stays the number of error results.\<close>

definition resp_step :: "response \<Rightarrow> response \<Rightarrow> bool" where
  "resp_step r r' \<longleftrightarrow> rs_errors r \<le> rs_errors r' \<and> (response_ok r \<longrightarrow> response_ok r')"

lemma resp_step_simps [simp]:
  "resp_step r r" "resp_step r (add_error m r)" "resp_step r (add_success m r)"
  "resp_step r (add_hidden_success m r)"
  by (simp_all add: resp_step_def)

lemma resp_step_trans: "resp_step a b \<Longrightarrow> resp_step b c \<Longrightarrow> resp_step a c"
  by (auto simp: resp_step_def)

text \<open>
  \<open>saved env r0 er' r' w'\<close>: what a command that started with the response \<open>r0\<close> gave back was
  written, or an error was counted.
\<close>

definition saved :: "env \<Rightarrow> response \<Rightarrow> extended_request \<Rightarrow> response \<Rightarrow> world \<Rightarrow> bool" where
  "saved env r0 er' r' w' \<longleftrightarrow> resp_step r0 r' \<and> (rs_errors r' = rs_errors r0 \<longrightarrow> stored env er' w')"

lemma saved_update:
  assumes "update_dynamo_with_change env er s e v r w = (Inr r', w')"
  shows "saved env r er r' w'"
  using update_dynamo_run [OF assms] by (auto simp: saved_def resp_step_def stored_def)

lemma saved_tbl: "saved env r er r' w \<Longrightarrow> tbl.keeps m \<Longrightarrow> m w = (out, w') \<Longrightarrow> saved env r er r' w'"
  by (simp add: saved_def stored_tbl)

lemma saved_error: "saved env r er (add_error m r) w"
  by (simp add: saved_def)

text \<open>The tails of the commands: the table is not written after the request was.\<close>

lemma saved_bind:
  assumes "bindW (update_dynamo_with_change env er s e v r) f w = (Inr (er', r'), w')"
    and "\<And>r1 w1 out w2. f r1 w1 = (Inr out, w2) \<Longrightarrow> out = (er, r1) \<and> same_table w1 w2"
  shows "er' = er \<and> saved env r er' r' w'"
  using assms saved_update [of env er s e v r w]
  by (fastforce simp: bindW_eq_Inr saved_def stored_def same_table_def)

lemma ret_after:
  assumes "tbl.keeps m"
  shows "bindW m (\<lambda>_. retW x) w1 = (Inr out, w2) \<Longrightarrow> out = x \<and> same_table w1 w2"
  using tbl.keepsD [OF assms] by (auto simp: bindW_eq_Inr)

lemma add_comment_saved:
  assumes "add_comment env user txt er r w = (Inr (er', r'), w')"
  shows "saved env r er' r' w'"
proof -
  from assms obtain er1 s e t w1 where
    "bindW (update_dynamo_with_change env er1 s e True r)
      (\<lambda>r. bindW (send_communications_new_comment env er1 user t) (\<lambda>_. retW (er1, r))) w1
      = (Inr (er', r'), w')"
    by (auto simp: add_comment_def Let_def bindW_eq_Inr [of "fresh_uuid env"])
  then show ?thesis
    by (rule saved_bind [THEN conjunct2]) (rule ret_after [OF send_comment_mail_tbl])
qed

lemma update_change_saved:
  assumes "update_change env user doc cid er r w = (Inr (er', r'), w')"
  shows "saved env r er' r' w'"
  using assms
  by (auto simp: update_change_def Let_def bindW_eq_Inr saved_update split: option.splits if_splits)

lemma cancel_change_saved:
  assumes "cancel_change env user cid er r w = (Inr (er', r'), w')"
  shows "saved env r er' r' w'"
  using assms
  by (auto simp: cancel_change_def Let_def bindW_eq_Inr saved_update split: option.splits if_splits)

lemma move_back_saved:
  assumes "move_back_to_pending env er r w = (Inr (er', r'), w')"
  shows "saved env r er' r' w'"
  using assms by (auto simp: move_back_to_pending_def Let_def bindW_eq_Inr saved_update)

lemma close_request_saved:
  assumes "close_request env user st a b c er r w = (Inr (er', r'), w')"
  shows "saved env r er' r' w'"
proof (cases "list_ex (\<lambda>c. ch_status c = Applied) (er_changes er)")
  case True
  with assms show ?thesis
    by (auto simp: close_request_def saved_error split: if_splits)
next
  case False
  let ?er = "er\<lparr>er_request_status := st, er_reviewer := Some user\<rparr>"
  from assms False have "bindW (update_dynamo_with_change env ?er b c True r)
      (\<lambda>r. bindW (send_communications_policy_change_request_v2 env ?er) (\<lambda>_. retW (?er, r))) w
      = (Inr (er', r'), w')"
    by (auto simp: close_request_def Let_def split: if_splits)
  then show ?thesis
    by (rule saved_bind [THEN conjunct2]) (rule ret_after [OF send_status_mail_tbl])
qed

text \<open>What both approvals do once the request is written.\<close>

lemma notify_tail:
  fixes f :: "string \<Rightarrow> string \<Rightarrow> (world, unit) io"
  assumes "bindW (send_communications_policy_change_request_v2 env er) (\<lambda>_.
      bindW (liftW (principal_arn (er_principal er))) (\<lambda>arn.
      bindW (liftW (get_resource_account env arn)) (\<lambda>account.
      bindW (f arn account) (\<lambda>_. retW (x, r1))))) w1 = (Inr out, w2)"
    and "\<And>arn account. tbl.keeps (f arn account)"
  shows "out = (x, r1) \<and> same_table w1 w2"
proof -
  from assms(1) obtain wa arn account wb where
    "send_communications_policy_change_request_v2 env er w1 = (Inr (), wa)"
    "f arn account wa = (Inr (), w2)" "out = (x, r1)"
    by (auto simp: bindW_eq_Inr)
  then show ?thesis
    using tbl.keepsD [OF send_status_mail_tbl] tbl.keepsD [OF assms(2)]
    by (metis tbl.step_trans)
qed

lemma bindW_readW:
  "bindW (readW f) g w = (case f w of Inl e \<Rightarrow> (Inl e, w) | Inr a \<Rightarrow> g a w)"
  by (cases "f w") (simp_all add: bindW_def)

lemma approve_request_saved:
  assumes "approve_request env user er r w = (Inr (er', r'), w')"
  shows "saved env r er' r' w'"
proof -
  from assms obtain er1 where
    "bindW (update_dynamo_with_change env (er1\<lparr>er_request_status := Approved, er_reviewer := Some user\<rparr>)
        ''Successfully updated request status'' ''Error updating request in dynamo'' False r) (\<lambda>r.
      bindW (send_communications_policy_change_request_v2 env
        (er1\<lparr>er_request_status := Approved, er_reviewer := Some user\<rparr>)) (\<lambda>_.
      bindW (liftW (principal_arn (er_principal
        (er1\<lparr>er_request_status := Approved, er_reviewer := Some user\<rparr>)))) (\<lambda>arn.
      bindW (liftW (get_resource_account env arn)) (\<lambda>account.
      bindW (refresh_role env account arn)
        (\<lambda>_. retW (er1\<lparr>er_request_status := Approved, er_reviewer := Some user\<rparr>, r)))))) w
      = (Inr (er', r'), w')"
    by (auto simp: approve_request_def Let_def bindW_readW split: if_splits sum.splits)
  then show ?thesis
    by (rule saved_bind [THEN conjunct2]) (erule notify_tail, simp add: frames)
qed

lemma maybe_approve_saved:
  assumes "maybe_approve_reject_request env user er r w = (Inr (er', r'), w')"
  shows "resp_step r r' \<and> er_changes er' = er_changes er \<and> er_id er' = er_id er \<and>
    (case derived_status (er_changes er) of
       None \<Rightarrow> er' = er \<and> r' = r \<and> w' = w
     | Some st \<Rightarrow> er' = er\<lparr>er_request_status := st, er_reviewer := Some user\<rparr> \<and> saved env r er' r' w')"
proof (cases "derived_status (er_changes er)")
  case None
  with assms show ?thesis by (simp add: maybe_approve_reject_request_def)
next
  case (Some st)
  let ?er = "er\<lparr>er_request_status := st, er_reviewer := Some user\<rparr>"
  from assms Some have "bindW (update_dynamo_with_change env ?er
      ''Successfully updated request status'' ''Error updating request in dynamo'' False r) (\<lambda>r.
      bindW (send_communications_policy_change_request_v2 env ?er) (\<lambda>_.
      bindW (liftW (principal_arn (er_principal ?er))) (\<lambda>arn.
      bindW (liftW (get_resource_account env arn)) (\<lambda>account.
      bindW (if starts_with arn ''aws:aws:iam::'' then refresh_role env account arn else retW ())
        (\<lambda>_. retW (?er, r)))))) w = (Inr (er', r'), w')"
    by (simp add: maybe_approve_reject_request_def Let_def)
  then have "er' = ?er \<and> saved env r er' r' w'"
    by (rule saved_bind) (erule notify_tail, auto intro: frames tbl.keeps_ret)
  with Some show ?thesis by (auto simp: saved_def)
qed

lemma record_applied_saved:
  assumes "record_applied env user i er r w = (Inr (er', r'), w')"
  shows "resp_step r r' \<and> length (er_changes er') = length (er_changes er) \<and>
    (i < length (er_changes er) \<longrightarrow> ch_status (er_changes er' ! i) = ch_status (er_changes er ! i)) \<and>
    (ch_status (er_changes er ! i) = Applied \<longrightarrow> saved env r er' r' w')"
  using assms saved_update
  by (auto simp: record_applied_def Let_def bindW_eq_Inr saved_def split: if_splits)

section \<open>Applying, seen from outside\<close>

context applier
begin

lemma run_resp: "run er r w = (Inr (er', r'), w') \<Longrightarrow> resp_step r r'"
  using run_errors by (simp add: resp_step_def)

end

lemma apply_to_principal_run:
  assumes "apply_to_principal env user i er r w = (Inr (er', r'), w')"
  shows "request_applied er er' \<and> resp_step r r'"
proof -
  from assms obtain er1 er2 r2 w2 where
    "populate_old_policies env (w_calls w) er None = Inr er1"
    "apply_changes_to_role env user (ch_id (er_changes er1 ! i)) er1 r w = (Inr (er2, r2), w2)"
    "er' = er2" "r' = r2"
    by (auto simp: apply_to_principal_def bindW_readW bindW_eq_Inr split: sum.splits)
  then show ?thesis
    using populate_old_policies_applied role.run_request [OF TrueI] role.run_resp
    by (metis request_applied_trans)
qed

lemma dispatch_apply_run:
  assumes "dispatch_apply env user i er r w = (Inr (er', r'), w')" and "open_change i er"
  shows "request_applied er er' \<and> resp_step r r'"
  using assms
  by (auto simp: dispatch_apply_def Let_def bindW_eq_Inr split: if_splits
      dest: resource_policies.run_request resource_policies.run_resp
        non_iam_tags.run_request non_iam_tags.run_resp mp_tags.run_request mp_tags.run_resp
        managed_policies.run_request managed_policies.run_resp apply_to_principal_run)

lemma apply_change_run:
  assumes "apply_change env user doc cid er r w = (Inr (er', r'), w')"
  obtains i where "get_specific_change (er_changes er) cid = Some i"
    "ch_status (er_changes er ! i) = Not_applied" "resp_step r r'"
    "ch_status (er_changes er' ! i) = Applied \<Longrightarrow> saved env r er' r' w'"
proof -
  from assms obtain i c er1 r1 w1 where i: "get_specific_change (er_changes er) cid = Some i"
    "ch_status (er_changes er ! i) = Not_applied"
    and c: "override_document doc (er_changes er ! i) = Inr c"
    and d: "dispatch_apply env user i (replace_change i c er) r w = (Inr (er1, r1), w1)"
    and rec: "record_applied env user i er1 r1 w1 = (Inr (er', r'), w')"
    by (auto simp: apply_change_def bindW_eq_Inr split: option.splits if_splits)
  have inr: "i < length (er_changes er)" using get_specific_change_Some [OF i(1)] by simp
  have "open_change i (replace_change i c er)"
    using inr i(2) override_document_fields [OF c] by (simp add: open_change_def)
  from dispatch_apply_run [OF d this] have run: "resp_step r r1"
      "i < length (er_changes er1)"
    using request_applied_fields(8) inr by fastforce+
  note rec' = record_applied_saved [OF rec]
  have "resp_step r r'" using run rec' resp_step_trans by blast
  moreover have "saved env r er' r' w'" if "ch_status (er_changes er' ! i) = Applied"
    using rec' run that by (auto simp: saved_def resp_step_def)
  ultimately show thesis using that i by blast
qed

lemma perform_resp:
  assumes "perform env user m er r w = (Inr (er', r'), w')"
  shows "resp_step r r'"
  using assms
  by (cases m) (auto simp: cancel_request_def reject_request_def saved_def
      dest: add_comment_saved update_change_saved cancel_change_saved close_request_saved
        approve_request_saved move_back_saved elim: apply_change_run)

lemma perform_saved:
  assumes "perform env user m er r w = (Inr (er', r'), w')"
    and "\<And>d cid i. m = Apply_change_modification d cid \<Longrightarrow>
      get_specific_change (er_changes er) cid = Some i \<Longrightarrow> ch_status (er_changes er' ! i) = Applied"
  shows "saved env r er' r' w'"
  using assms
  by (cases m) (auto simp: cancel_request_def reject_request_def
      dest: add_comment_saved update_change_saved cancel_change_saved close_request_saved
        approve_request_saved move_back_saved elim!: apply_change_run)

section \<open>Properties\<close>

lemma parse_and_apply_runE:
  assumes "parse_and_apply env user groups lu probe m er w = (Inr (er', r'), w')"
  obtains er1 r1 w1 where "authorize_modification env er (command_of m) user groups lu probe = Inr ()"
    "perform env user m er empty_response w = (Inr (er1, r1), w1)"
    "maybe_approve_reject_request env user er1 r1 w1 = (Inr (er', r'), w')"
  using assms by (auto simp: parse_and_apply_def bindW_eq_Inr)

text \<open>C4: no command rewrites the history of a request, whether it succeeds or fails half-way: the
  rows of other requests stay; the row of this one stays or holds the same request of the same
  requester with all its comments, in which every change that was applied is unchanged at its
  place; and so does what the command returns.\<close>

theorem modification_keeps_history:
  assumes "parse_and_apply env user groups lu probe m er w = (out, w')"
  shows "(\<forall>k. w_table w' k = w_table w k \<or>
      k = er_id er \<and> (\<exists>s. w_table w' k = Some s \<and> descends er (sr_request s))) \<and>
    (\<forall>er' r'. out = Inr (er', r') \<longrightarrow> descends er er')"
  using row.ensuresD [OF parse_and_apply_row assms]
    row.ensures_result [OF parse_and_apply_row, of env user groups lu probe m er w] assms
  by (auto simp: row_descends_def)

lemma modification_keeps_history_ids:
  assumes "parse_and_apply env user groups lu probe m er w = (Inr (er', r'), w')"
  shows "er_id er' = er_id er"
  using row.ensures_result [OF parse_and_apply_row assms] by (simp add: descends_def)

definition history_example :: extended_request where
  "history_example = example_request [inline_change\<lparr>ch_status := Applied\<rparr>,
     inline_change\<lparr>ch_id := Some ''c2''\<rparr>]"

theorem modification_keeps_history_witness:
  "\<exists>er' r' w'. parse_and_apply example_env ''root'' [] 0 False
     (Apply_change_modification None ''c2'') history_example (example_world history_example) =
       (Inr (er', r'), w') \<and> rs_errors r' = 0 \<and> length (w_calls w') = 2 \<and>
     descends history_example er'"
proof -
  have "(case parse_and_apply example_env ''root'' [] 0 False
      (Apply_change_modification None ''c2'') history_example (example_world history_example) of
      (Inr (er', r'), w') \<Rightarrow> rs_errors r' = 0 \<and> length (w_calls w') = 2 | _ \<Rightarrow> False)"
    by code_simp
  then obtain er' r' w' where run: "parse_and_apply example_env ''root'' [] 0 False
      (Apply_change_modification None ''c2'') history_example (example_world history_example) =
      (Inr (er', r'), w')" and "rs_errors r' = 0" "length (w_calls w') = 2"
    by (auto split: prod.splits sum.splits)
  with modification_keeps_history [OF run] show ?thesis by blast
qed

lemma apply_change_fails:
  assumes "\<nexists>i. get_specific_change (er_changes er) cid = Some i \<and>
    ch_status (er_changes er ! i) = Not_applied"
  shows "apply_change env user doc cid er r = failW no_such_change"
  using assms by (auto simp: apply_change_def split: option.splits)

lemma authorized_apply:
  assumes "authorize_modification env er Apply_change user groups lu probe = Inr ()"
  shows "(can_admin_policies (e_cfg env) user groups = Inr True \<or> probe) \<and>
    er_request_status er \<noteq> Cancelled_request \<and> er_request_status er \<noteq> Rejected"
  using assms by (auto simp: authorize_modification_def bindE_eq_Inr split: if_splits)








definition cancelled_example :: extended_request where
  "cancelled_example = (example_request [inline_change, inline_change])
     \<lparr>er_request_status := Cancelled_request\<rparr>"


text \<open>C8: who is turned away leaves no trace: applying (without an approving probe), approving or
  rejecting by someone who may not administer policies, and updating a change or cancelling the
  request by someone who neither asked for it nor may administer policies, ends with an
  authorization error and the world as it was: no write, no AWS call, no mail.\<close>

theorem refused_without_trace:
  assumes "(command_of m \<in> {Approve_request, Reject_request} \<or> command_of m = Apply_change \<and> \<not> probe)
      \<and> can_admin_policies (e_cfg env) user groups = Inr False \<or>
    command_of m \<in> {Update_change, Cancel_request} \<and> user \<noteq> er_requester_email er \<and>
      can_admin_policies (e_cfg env) user groups = Inr False"
  shows "\<exists>reason. parse_and_apply env user groups lu probe m er w = (Inl (Unauthorized reason), w)"
proof -
  have "\<exists>reason. authorize_modification env er (command_of m) user groups lu probe
      = Inl (Unauthorized reason)"
    using assms by (auto simp: authorize_modification_def can_update_cancel_requests_v2_def)
  then show ?thesis by (auto simp: parse_and_apply_def)
qed

theorem refused_without_trace_witness:
  "\<exists>reason. parse_and_apply example_env ''dev'' [''eng''] 0 False
     (Apply_change_modification None ''c2'') history_example (example_world history_example) =
     (Inl (Unauthorized reason), example_world history_example)"
  by (rule refused_without_trace)
    (simp add: can_admin_policies_def can_admin_all_def in_configured_def config_lists_def
      config_get_def is_in_group_def example_cfg_def)

text \<open>C28: cancelling a single change is not protected: on an open request every user passes the
  check, whoever asked for the change, although cancelling the whole request is refused to
  everyone but the requester and the administrators.\<close>

theorem cancel_change_unprotected:
  assumes "er_request_status er = Pending \<or> er_request_status er = Approved"
    and "get_specific_change (er_changes er) cid = Some i"
    and "ch_status (er_changes er ! i) = Not_applied"
  shows "authorize_modification env er Cancel_change user groups lu probe = Inr () \<and>
    (\<exists>er' r' w'. cancel_change env user cid er empty_response w = (Inr (er', r'), w') \<and>
       ch_status (er_changes er' ! i) = Cancelled)"
proof -
  have "i < length (er_changes er)" using get_specific_change_Some [OF assms(2)] by simp
  moreover have "\<exists>r' w'. update_dynamo_with_change env e s t v r w = (Inr r', w')" for e s t v r
    by (auto simp: update_dynamo_with_change_def split: prod.split sum.split)
  ultimately show ?thesis
    using assms
    by (auto simp: authorize_modification_def cancel_change_def Let_def bindW_eq_Inr)
qed

theorem cancel_change_unprotected_witness:
  "authorize_modification example_env history_example Cancel_change ''stranger'' [] 0 False = Inr ()"
  using cancel_change_unprotected [of history_example "''c2''" 1 example_env "''stranger''" "[]" 0
      False]
  by (simp add: history_example_def inline_change_def)

end
