(* ===== verification/Handlers.thy ===== *)
theory Handlers
  imports Creation Lifecycle
begin

text \<open>
  The endpoints of consoleme/handlers/v2/requests.py: creating a request (\<open>RequestHandler.post\<close>),
  showing one (\<open>RequestDetailHandler.get\<close>) and changing one (\<open>RequestDetailHandler.put\<close>), and
  the system as a whole: worlds that follow each other when such calls are served, whoever
  makes them.
\<close>

section \<open>Contractors\<close>

definition contractor_refused :: "env \<Rightarrow> string \<Rightarrow> bool \<Rightarrow> bool res" where
  "contractor_refused env user contractor =
     bindE (config_get (e_cfg env) ''policy_editor.disallow_contractors'' (JBool True)) (\<lambda>d.
     if truthy d \<and> contractor then
       bindE (config_get (e_cfg env) ''groups.can_bypass_contractor_restrictions'' (JList []))
         (\<lambda>bypass. bindE (str_in user bypass) (\<lambda>b. Inr (\<not> b)))
     else Inr False)"

definition must_be_fte :: py_error where
  "must_be_fte = MustBeFte ''Only FTEs are authorized to view this page.''"

section \<open>Answers\<close>

text \<open>What is written to the client: an error with its HTTP status, or the value.\<close>

datatype 'a answer =
    Http_error nat string
  | Answered 'a

text \<open>In development the exception is raised again after the error was written.\<close>

definition report :: "env \<Rightarrow> nat \<Rightarrow> string \<Rightarrow> py_error \<Rightarrow> 'a answer res" where
  "report env code message e =
     bindE (config_get (e_cfg env) ''development'' JNull) (\<lambda>d.
       if truthy d then Inl e else Inr (Http_error code message))"

section \<open>Changing a request\<close>

fun put_error :: "env \<Rightarrow> py_error \<Rightarrow> response answer res" where
  "put_error env (NoMatchingRequest m) =
     report env 400 (''Error validating input: '' @ m) (NoMatchingRequest m)"
| "put_error env (InvalidRequestParameter m) =
     report env 400 (''Error validating input: '' @ m) (InvalidRequestParameter m)"
| "put_error env (Unauthorized m) = report env 403 m (Unauthorized m)"
| "put_error env e = Inl e"

definition try_catch ::
  "('w, 'a) io \<Rightarrow> (py_error \<Rightarrow> 'b res) \<Rightarrow> ('a \<Rightarrow> 'b) \<Rightarrow> ('w, 'b) io" where
  "try_catch m handler done' = (\<lambda>w. case m w of
      (Inl e, w') \<Rightarrow> (handler e, w') | (Inr a, w') \<Rightarrow> (Inr (done' a), w'))"

definition request_put ::
  "env \<Rightarrow> string \<Rightarrow> string list \<Rightarrow> bool \<Rightarrow> string \<Rightarrow> modification \<Rightarrow> (world, response answer) io" where
  "request_put env user groups contractor request_id m =
     bindW (liftW (contractor_refused env user contractor)) (\<lambda>refused.
     if refused then failW must_be_fte
     else try_catch
       (bindW (get_extended_request request_id) (\<lambda>(er, last_updated).
        bindW (parse_and_apply env user groups last_updated False m er) (\<lambda>(er, r). retW r)))
       (put_error env) Answered)"

section \<open>Showing a request\<close>

record request_details =
  rd_request :: extended_request
  rd_last_updated :: int
  rd_can_approve_reject :: bool
  rd_can_update_cancel :: bool
  rd_can_move_back_to_pending :: bool
  rd_template :: json

text \<open>
  The three refreshes run concurrently on the same request. They write disjoint changes: inline
  and trust policies, generated resource policies, managed policies; so they are run in order.
\<close>

definition refresh_request ::
  "env \<Rightarrow> extended_request \<Rightarrow> (world, extended_request \<times> bool \<times> bool) io" where
  "refresh_request env er = readW (\<lambda>w.
     bindE (populate_old_policies env (w_calls w) er None) (\<lambda>er.
     bindE (populate_cross_account_resource_policies env (w_calls w) er) (\<lambda>(cross, er).
     bindE (populate_old_managed_policies env (w_calls w) er) (\<lambda>(managed, er).
       Inr (er, cross, managed)))))"

text \<open>The request is written once for each refresh that changed it.\<close>

definition save_if :: "env \<Rightarrow> bool \<Rightarrow> extended_request \<Rightarrow> int \<Rightarrow> (world, int) io" where
  "save_if env changed er last_updated =
     (if changed then bindW (write_policy_request_v2 env er) (\<lambda>s. retW (sr_last_updated s))
      else retW last_updated)"

definition role_template :: "env \<Rightarrow> extended_request \<Rightarrow> (world, json) io" where
  "role_template env er =
     bindW (liftW (principal_arn (er_principal er))) (\<lambda>arn.
     bindW (liftW (e_parse_arn env arn)) (\<lambda>p.
     if pa_service p = ''iam'' \<and> pa_resource p = ''role''
     then readW (\<lambda>w. bindE (e_fetch_iam_role env (w_calls w) (str_or (pa_account p) []) arn)
                       (jget ''templated''))
     else retW JNull))"

definition show_request ::
  "env \<Rightarrow> string \<Rightarrow> string list \<Rightarrow> extended_request \<Rightarrow> int \<Rightarrow> (world, request_details) io" where
  "show_request env user groups er last_updated =
     bindW (refresh_request env er) (\<lambda>(er, cross, managed).
     bindW (save_if env cross er last_updated) (\<lambda>last_updated.
     bindW (save_if env managed er last_updated) (\<lambda>last_updated.
     bindW (liftW (can_admin_policies (e_cfg env) user groups)) (\<lambda>approve.
     bindW (liftW (can_update_cancel_requests_v2 env (er_requester_email er) user groups)) (\<lambda>cancel.
     bindW (liftW (can_move_back_to_pending_v2 env er last_updated user groups)) (\<lambda>back.
     bindW (role_template env er) (\<lambda>template.
       retW \<lparr>rd_request = er, rd_last_updated = last_updated, rd_can_approve_reject = approve,
             rd_can_update_cancel = cancel, rd_can_move_back_to_pending = back,
             rd_template = template\<rparr>)))))))"

text \<open>Only the lookup of the request is inside the \<open>try\<close>.\<close>

definition request_get ::
  "env \<Rightarrow> string \<Rightarrow> string list \<Rightarrow> bool \<Rightarrow> string \<Rightarrow> (world, request_details answer) io" where
  "request_get env user groups contractor request_id =
     bindW (liftW (contractor_refused env user contractor)) (\<lambda>refused.
     if refused then retW (Http_error 403 ''Only FTEs are authorized to view this page.'')
     else (\<lambda>w. case get_extended_request request_id w of
         (Inl (NoMatchingRequest m), w') \<Rightarrow>
           (Inr (Http_error 404 (''Error getting request:'' @ m)), w')
       | (Inl (InvalidRequestParameter m), w') \<Rightarrow>
           (Inr (Http_error 400 (''Error validating input: '' @ m)), w')
       | (Inl e, w') \<Rightarrow> (Inl e, w')
       | (Inr (er, last_updated), w') \<Rightarrow>
           bindW (show_request env user groups er last_updated) (\<lambda>d. retW (Answered d)) w'))"

section \<open>Creating a request\<close>

text \<open>
  What lies outside: the builder of requests for templates, the auto-approval plugin (its answer
  and the names and policies of the approving probes), and the announcement of a new request.
\<close>

record plugins =
  pl_honeybee :: "request_creation \<Rightarrow> string \<Rightarrow> string \<Rightarrow> (world, extended_request) io"
  pl_probe :: "extended_request \<Rightarrow> string \<Rightarrow> string list \<Rightarrow> (bool \<times> (string \<times> string) list) res"
  pl_announce :: "extended_request \<Rightarrow> bool \<Rightarrow> bool \<Rightarrow> (world, unit) io"

record creation_response =
  cr_errors :: nat
  cr_created :: bool
  cr_request_id :: "string option"
  cr_request_url :: "string option"
  cr_action_results :: "action_result list"
  cr_request :: extended_request

definition new_comment ::
  "env \<Rightarrow> string \<Rightarrow> string \<Rightarrow> extended_request \<Rightarrow> (world, extended_request) io" where
  "new_comment env author txt er =
     bindW (fresh_uuid env) (\<lambda>cid. retW (er\<lparr>er_comments := er_comments er @
       [\<lparr>co_id = cid, co_timestamp = e_now env, co_user_email = author, co_text = txt\<rparr>]\<rparr>))"

text \<open>
  \<open>can_manage_policy_request = (can_admin_policies(...),)\<close>: the comma makes a tuple, which is
  true whatever the permission is, so the branch that refuses is never taken.
\<close>

definition self_approve ::
  "env \<Rightarrow> string \<Rightarrow> string list \<Rightarrow> extended_request \<Rightarrow> (world, extended_request) io" where
  "self_approve env user groups er =
     bindW (liftW (can_admin_policies (e_cfg env) user groups)) (\<lambda>allowed.
       new_comment env user (''Self-approved by admin: '' @ user)
         (er\<lparr>er_request_status := Approved, er_reviewer := Some user\<rparr>))"

fun probe_comments ::
  "env \<Rightarrow> (string \<times> string) list \<Rightarrow> extended_request \<Rightarrow> (world, extended_request) io" where
  "probe_comments env [] er = retW er"
| "probe_comments env ((name, policy) # rest) er =
     bindW (new_comment env (''Auto-Approve Probe: '' @ name)
              (''Policy '' @ policy @ '' auto-approved by probe: '' @ name) er)
       (probe_comments env rest)"

definition probe_approve ::
  "env \<Rightarrow> plugins \<Rightarrow> string \<Rightarrow> string list \<Rightarrow> extended_request
     \<Rightarrow> (world, bool \<times> extended_request) io" where
  "probe_approve env pl user groups er =
     bindW (liftW (is_request_eligible_for_auto_approval er)) (\<lambda>eligible.
     if \<not> eligible then retW (False, er)
     else
       bindW (liftW (pl_probe pl er user groups)) (\<lambda>(approved, probes).
       if \<not> approved then retW (False, er)
       else
         bindW (probe_comments env probes (er\<lparr>er_request_status := Approved\<rparr>)) (\<lambda>er.
           retW (True, er\<lparr>er_reviewer := Some (''Auto-Approve Probe: '' @
             join_with CHR '','' (map fst probes))\<rparr>))))"

text \<open>
  The \<open>try\<close> of \<open>post\<close>: a dry run stops before anything is decided. Otherwise the request, whether
  an administrator or a probe approved it, after it was written.
\<close>

definition approve_new ::
  "env \<Rightarrow> plugins \<Rightarrow> string \<Rightarrow> string list \<Rightarrow> request_creation \<Rightarrow> extended_request
     \<Rightarrow> (world, extended_request \<times> bool \<times> bool) io" where
  "approve_new env pl user groups rc er =
     (case er_principal er of
        Honeybee_template r i u \<Rightarrow> retW (er, False, False)
      | Aws_resource arn \<Rightarrow>
          if rc_admin_auto_approve rc
          then bindW (self_approve env user groups er) (\<lambda>er. retW (er, True, False))
          else bindW (probe_approve env pl user groups er) (\<lambda>(probe, er). retW (er, False, probe)))"

definition create_request ::
  "env \<Rightarrow> plugins \<Rightarrow> string \<Rightarrow> string list \<Rightarrow> request_creation
     \<Rightarrow> (world, extended_request \<times> (bool \<times> bool) option) io" where
  "create_request env pl user groups rc =
     bindW (generate_request env (pl_honeybee pl) rc user) (\<lambda>er.
     if rc_dry_run rc then retW (er, None)
     else
       bindW (approve_new env pl user groups rc er) (\<lambda>(er, admin, probe).
       bindW (write_policy_request_v2 env er) (\<lambda>_. retW (er, Some (admin, probe)))))"

text \<open>
  The loop that applies the submitted changes of an approved request. The response keeps the
  errors and results of the last change only: each turn overwrites them.
\<close>

fun apply_submitted ::
  "env \<Rightarrow> string \<Rightarrow> string list \<Rightarrow> bool \<Rightarrow> nat list \<Rightarrow> extended_request \<Rightarrow> response
     \<Rightarrow> (world, extended_request \<times> response) io" where
  "apply_submitted env user groups probe [] er r = retW (er, r)"
| "apply_submitted env user groups probe (i # is) er r =
     (if ch_autogenerated (er_changes er ! i) then apply_submitted env user groups probe is er r
      else case ch_id (er_changes er ! i) of
          None \<Rightarrow> failW (PyException ''validation error for ApplyChangeModificationModel'')
        | Some cid \<Rightarrow>
            bindW (parse_and_apply env user groups (e_now env) probe
                     (Apply_change_modification None cid) er) (\<lambda>(er, r).
              apply_submitted env user groups probe is er r))"

definition finish_approved ::
  "env \<Rightarrow> string \<Rightarrow> string list \<Rightarrow> bool \<Rightarrow> extended_request \<Rightarrow> (world, extended_request \<times> response) io"
  where
  "finish_approved env user groups probe er =
     bindW (apply_submitted env user groups probe [0..<length (er_changes er)] er empty_response)
       (\<lambda>(er, r).
     bindW (write_policy_request_v2 env er) (\<lambda>_.
     bindW (liftW (principal_arn (er_principal er))) (\<lambda>arn.
     bindW (liftW (get_resource_account env arn)) (\<lambda>account.
     bindW (liftW (e_parse_arn env arn)) (\<lambda>p.
     bindW (if pa_service p = ''iam'' \<and> pa_resource p = ''role'' then refresh_role env account arn
            else retW ()) (\<lambda>_.
       retW (er, r)))))))"

fun post_error :: "env \<Rightarrow> py_error \<Rightarrow> (extended_request \<times> (bool \<times> bool) option) answer res" where
  "post_error env (InvalidRequestParameter m) =
     report env 400 (''Error validating input: '' @ m) (InvalidRequestParameter m)"
| "post_error env e = report env 500 (''Error parsing request: '' @ err_str e) e"

text \<open>After the request was created.\<close>

definition after_creation ::
  "env \<Rightarrow> plugins \<Rightarrow> string \<Rightarrow> string list \<Rightarrow> extended_request \<Rightarrow> bool \<Rightarrow> bool
     \<Rightarrow> (world, creation_response) io" where
  "after_creation env pl user groups er admin probe =
     bindW (if er_request_status er = Approved then finish_approved env user groups probe er
            else retW (er, empty_response)) (\<lambda>(er', r).
     bindW (pl_announce pl er' admin probe) (\<lambda>_.
       retW \<lparr>cr_errors = rs_errors r, cr_created = True, cr_request_id = Some (er_id er),
             cr_request_url = get_request_url er, cr_action_results = rs_action_results r,
             cr_request = er'\<rparr>))"

definition request_post ::
  "env \<Rightarrow> plugins \<Rightarrow> string \<Rightarrow> string list \<Rightarrow> bool \<Rightarrow> request_creation
     \<Rightarrow> (world, creation_response answer) io" where
  "request_post env pl user groups contractor rc =
     bindW (liftW (contractor_refused env user contractor)) (\<lambda>refused.
     if refused then failW must_be_fte
     else
       bindW (try_catch (create_request env pl user groups rc) (post_error env) Answered)
         (\<lambda>created. case created of
             Http_error code m \<Rightarrow> retW (Http_error code m)
           | Answered (er, None) \<Rightarrow> retW (Answered
               \<lparr>cr_errors = 0, cr_created = False, cr_request_id = None, cr_request_url = None,
                cr_action_results = [], cr_request = er\<rparr>)
           | Answered (er, Some (admin, probe)) \<Rightarrow>
               bindW (after_creation env pl user groups er admin probe) (\<lambda>r. retW (Answered r))))"

section \<open>Rows of the table\<close>

lemma request_refreshed_descends: "request_refreshed er er' \<Longrightarrow> descends er er'"
  using request_refreshed_applied request_refreshed_fields by (simp add: descends_def)

lemma write_request_row:
  assumes "descends er er'"
  shows "row.keeps er (write_policy_request_v2 env er')"
  using assms
  by (auto simp: row.keeps_def write_policy_request_v2_def Let_def row_descends_def descends_def
      split: option.split)

lemma refresh_request_descends:
  "row.ensures er (\<lambda>(er', c, m). descends er er') (refresh_request env er)"
  unfolding refresh_request_def
proof (rule row.ensures_read)
  fix w a
  assume "bindE (populate_old_policies env (w_calls w) er None) (\<lambda>er.
      bindE (populate_cross_account_resource_policies env (w_calls w) er) (\<lambda>(cross, er).
      bindE (populate_old_managed_policies env (w_calls w) er) (\<lambda>(managed, er).
        Inr (er, cross, managed)))) = Inr a"
  then obtain e1 c e2 m e3 where "populate_old_policies env (w_calls w) er None = Inr e1"
      "populate_cross_account_resource_policies env (w_calls w) e1 = Inr (c, e2)"
      "populate_old_managed_policies env (w_calls w) e2 = Inr (m, e3)" "a = (e3, c, m)"
    by (auto simp: bindE_eq_Inr)
  then show "case a of (er', c, m) \<Rightarrow> descends er er'"
    using populate_old_policies_refreshed populate_cross_account_refreshed
      populate_old_managed_policies_refreshed request_refreshed_descends descends_trans
    by (metis (no_types, lifting) case_prod_conv)
qed

lemma role_template_tbl: "tbl.keeps (role_template env er)"
  unfolding role_template_def by (auto intro!: keeps_rules)

lemma save_if_row: "descends er er' \<Longrightarrow> row.keeps er (save_if env c er' lu)"
  unfolding save_if_def
  by (auto intro!: row.keeps_bind row.keeps_ret write_request_row)

lemma show_request_row:
  "row.ensures er (\<lambda>d. descends er (rd_request d)) (show_request env user groups er lu)"
  unfolding show_request_def
  by (rule row.ensures_bind [OF refresh_request_descends])
    (auto intro!: row.ensures_bind_keeps save_if_row row.keeps_lift row.ensures_ret
      row_keeps_tbl [OF role_template_tbl])


context step_relation
begin

lemma keeps_try_catch: "keeps m \<Longrightarrow> keeps (try_catch m h d)"
proof -
  assume m: "keeps m"
  have "snd (try_catch m h d w) = snd (m w)" for w
    by (simp add: try_catch_def split: prod.split sum.split)
  with m show ?thesis by (simp add: keeps_def)
qed

lemma ensures_imp_keeps: "ensures P m \<Longrightarrow> keeps m"
  by (simp add: ensures_def keeps_def)

lemma keeps_bind_ensures:
  assumes "ensures Q m" and "\<And>a. Q a \<Longrightarrow> keeps (f a)"
  shows "keeps (bindW m f)"
proof -
  have "ensures (\<lambda>a. True) (bindW m f)"
    using assms by (blast intro: ensures_bind ensures_keeps)
  then show ?thesis by (rule ensures_imp_keeps)
qed

end

lemma try_catch_Inr:
  "try_catch m h d w = (Inr b, w') \<longleftrightarrow>
     (\<exists>a. m w = (Inr a, w') \<and> b = d a) \<or> (\<exists>e. m w = (Inl e, w') \<and> h e = Inr b)"
  by (auto simp: try_catch_def split: prod.splits sum.splits)

text \<open>A request that is created and decided on descends from what was generated.\<close>

lemma new_comment_descends:
  "descends er er' \<Longrightarrow> row.ensures er (descends er) (new_comment env author txt er')"
  unfolding new_comment_def
  by (auto intro!: row.ensures_bind_keeps row_keeps_tbl frames row.ensures_ret descends_comment)

lemma self_approve_descends: "row.ensures er (descends er) (self_approve env user groups er)"
  unfolding self_approve_def
  by (intro row.ensures_bind_keeps row.keeps_lift new_comment_descends) simp

lemma probe_comments_descends:
  "descends er er' \<Longrightarrow> row.ensures er (descends er) (probe_comments env ps er')"
  by (induction env ps er' rule: probe_comments.induct)
    (auto intro: row.ensures_ret row.ensures_bind [OF new_comment_descends])

lemma probe_approve_descends:
  "row.ensures er (\<lambda>(b, er'). descends er er') (probe_approve env pl user groups er)"
proof -
  have "row.ensures er (\<lambda>(b, er'). descends er er')
     (bindW (probe_comments env probes (er\<lparr>er_request_status := Approved\<rparr>)) (\<lambda>er.
        retW (True, er\<lparr>er_reviewer := Some (names probes)\<rparr>)))" for probes names
    by (rule row.ensures_bind [OF probe_comments_descends]) (auto intro: row.ensures_ret)
  then show ?thesis
    unfolding probe_approve_def
    by (auto intro!: row.ensures_bind_keeps [OF row.keeps_lift] row.ensures_ret)
qed

lemma approve_new_descends:
  "row.ensures er (\<lambda>(er', a, p). descends er er') (approve_new env pl user groups rc er)"
proof (cases "er_principal er")
  case (Aws_resource arn)
  then show ?thesis
    by (auto simp: approve_new_def intro!: row.ensures_ret row.ensures_bind [OF self_approve_descends]
        row.ensures_bind [OF probe_approve_descends])
next
  case (Honeybee_template r i u)
  then show ?thesis by (simp add: approve_new_def row.ensures_ret)
qed

lemma row_descends_from: "descends er0 er \<Longrightarrow> row_descends er w w' \<Longrightarrow> row_descends er0 w w'"
  unfolding row_descends_def
  by (metis (no_types, lifting) descends_def descends_trans)

lemma parse_and_apply_row_from:
  assumes "descends er0 er"
  shows "row.ensures er0 (\<lambda>(er', r). descends er0 er') (parse_and_apply env user groups lu probe m er)"
  using parse_and_apply_row [of er env user groups lu probe m] row_descends_from [OF assms]
    descends_trans [OF assms]
  by (auto simp: row.ensures_def)

lemma apply_submitted_row:
  "descends er0 er \<Longrightarrow>
    row.ensures er0 (\<lambda>(er', r). descends er0 er') (apply_submitted env user groups probe is er r)"
proof (induction env user groups probe "is" er r rule: apply_submitted.induct)
  case (1 env user groups probe er r)
  then show ?case unfolding apply_submitted.simps by (intro row.ensures_ret) simp
next
  case (2 env user groups probe i "is" er r)
  have step: "row.ensures er0 (\<lambda>(er', r). descends er0 er')
      (parse_and_apply env user groups (e_now env) probe (Apply_change_modification None cid) er)"
    for cid
    using "2.prems" by (rule parse_and_apply_row_from)
  show ?case
    using 2 by (auto intro!: row.ensures_bind [OF step] row.ensures_fail split: option.split)
qed

lemma write_then_row:
  "descends er0 er \<Longrightarrow> (\<And>a. row.ensures er0 P (f a)) \<Longrightarrow>
    row.ensures er0 P (bindW (write_policy_request_v2 env er) f)"
  by (intro row.ensures_bind_keeps write_request_row)

lemma finish_approved_row:
  assumes "descends er0 er"
  shows "row.ensures er0 (\<lambda>(er', r). descends er0 er') (finish_approved env user groups probe er)"
  unfolding finish_approved_def
  by (rule row.ensures_bind [OF apply_submitted_row [OF assms]])
    (auto intro!: write_then_row row.ensures_bind_keeps [OF row.keeps_lift]
      row.ensures_bind_keeps [OF row_keeps_tbl [OF refresh_role_frames(1)]] row.ensures_ret
      simp del: run_io)

lemma after_creation_row:
  assumes "descends er0 er" and "\<And>er a p. tbl.keeps (pl_announce pl er a p)"
  shows "row.keeps er0 (after_creation env pl user groups er admin probe)"
  unfolding after_creation_def
  by (rule row.keeps_bind_ensures [where Q = "\<lambda>(er', r). descends er0 er'"])
    (use assms in \<open>auto intro!: finish_approved_row row.ensures_ret row.keeps_bind row.keeps_ret
      row_keeps_tbl [of "pl_announce _ _ _ _"]\<close>)

text \<open>
  The request that is generated has a fresh id, and until it is written the table stays as it is.
\<close>

lemma generate_request_new:
  assumes "generate_request env honeybee rc user w = (out, w')"
    and "rc_changes rc \<noteq> []" and "ch_principal (hd (rc_changes rc)) = Aws_resource arn"
  shows "same_table w w' \<and> (\<forall>er. out = Inr er \<longrightarrow> er_id er = e_uuid env (w_uuids w))"
proof -
  from assms(2,3) obtain first rest where rc: "rc_changes rc = first # rest"
    and first: "ch_principal first = Aws_resource arn" by (cases "rc_changes rc") auto
  have "tbl.keeps (generate_request env honeybee rc user)"
    unfolding generate_request_def rc
    by (auto intro!: keeps_rules frames simp: first)
  then have "same_table w w'" using tbl.keepsD assms(1) by blast
  moreover have "er_id er = e_uuid env (w_uuids w)" if "out = Inr er" for er
  proof -
    from assms(1) that obtain rid types cs w1 where
      rid: "fresh_uuid env w = (Inr rid, w1)"
      and cs: "prepare_changes env types (Aws_resource arn) rid 0 (first # rest) = Inr cs"
      and gen: "generate_aws_request env rc (shorten_user user) rid arn cs w1 = (Inr er, w')"
      by (auto simp: generate_request_def bindW_eq_Inr rc first)
    from generate_aws_request_fresh [OF gen prepare_changes_distinct [OF cs]]
      prepare_changes_fields [OF cs] rid show ?thesis
      by (auto simp: fresh_uuid_def)
  qed
  ultimately show ?thesis by blast
qed

section \<open>The system\<close>

text \<open>
  A world serves calls one after the other, each with its own environment (the clock moves, AWS
  changes), by any user. Of what is outside it is assumed that the id drawn for a new request is
  not in use and that announcing a request does not write the table; new requests are for AWS
  principals.
\<close>

definition fresh_post :: "env \<Rightarrow> plugins \<Rightarrow> request_creation \<Rightarrow> world \<Rightarrow> bool" where
  "fresh_post env pl rc w \<longleftrightarrow> w_table w (e_uuid env (w_uuids w)) = None \<and>
     rc_changes rc \<noteq> [] \<and> (\<exists>arn. ch_principal (hd (rc_changes rc)) = Aws_resource arn) \<and>
     (\<forall>er a p. tbl.keeps (pl_announce pl er a p))"

inductive served :: "world \<Rightarrow> world \<Rightarrow> bool" where
  Put: "request_put env user groups contractor k m w = (put_answer, w') \<Longrightarrow> served w w'"
| Get: "request_get env user groups contractor k w = (get_answer, w') \<Longrightarrow> served w w'"
| Post: "request_post env pl user groups contractor rc w = (post_answer, w') \<Longrightarrow>
    fresh_post env pl rc w \<Longrightarrow> served w w'"

inductive_cases servedE: "served w w'"

text \<open>Rows stand under the id of their request; requests stay and only descend.\<close>

definition table_ok :: "world \<Rightarrow> bool" where
  "table_ok w \<longleftrightarrow> (\<forall>k s. w_table w k = Some s \<longrightarrow> er_id (sr_request s) = k)"

definition requests_kept :: "world \<Rightarrow> world \<Rightarrow> bool" where
  "requests_kept w w' \<longleftrightarrow> (\<forall>k s. w_table w k = Some s \<longrightarrow>
     (\<exists>s'. w_table w' k = Some s' \<and> descends (sr_request s) (sr_request s')))"

interpretation kept: step_relation requests_kept
proof
  show "requests_kept w w" for w by (simp add: requests_kept_def)
  show "requests_kept w1 w3" if "requests_kept w1 w2" "requests_kept w2 w3" for w1 w2 w3
    using that unfolding requests_kept_def by (blast intro: descends_trans)
qed

lemma same_table_kept: "same_table w w' \<Longrightarrow> requests_kept w w' \<and> table_ok w' = table_ok w"
  by (simp add: same_table_def requests_kept_def table_ok_def)

lemma row_descends_kept:
  assumes "row_descends er w w'" and "table_ok w"
    and "\<And>s. w_table w (er_id er) = Some s \<Longrightarrow> sr_request s = er"
  shows "requests_kept w w' \<and> table_ok w'"
proof -
  have row: "w_table w' k = w_table w k \<or>
      k = er_id er \<and> (\<exists>s. w_table w' k = Some s \<and> descends er (sr_request s))" for k
    using assms(1) by (simp add: row_descends_def)
  have "er_id (sr_request s) = k" if "w_table w' k = Some s" for k s
    using row [of k] that assms(2) by (auto simp: table_ok_def descends_def)
  moreover have "\<exists>s'. w_table w' k = Some s' \<and> descends (sr_request s) (sr_request s')"
    if s: "w_table w k = Some s" for k s
    using row [of k]
  proof
    assume "w_table w' k = w_table w k"
    with s show ?thesis by simp
  next
    assume k: "k = er_id er \<and> (\<exists>s. w_table w' k = Some s \<and> descends er (sr_request s))"
    then have "sr_request s = er" using s assms(3) by simp
    with k show ?thesis by blast
  qed
  ultimately show ?thesis by (simp add: table_ok_def requests_kept_def)
qed

lemma request_put_row:
  assumes "request_put env user groups contractor k m w = (out, w')"
  shows "w' = w \<or> (\<exists>s. w_table w k = Some s \<and> row_descends (sr_request s) w w')"
proof -
  obtain refused where c: "contractor_refused env user contractor = Inr refused \<or>
      (\<exists>e. contractor_refused env user contractor = Inl e)"
    by (cases "contractor_refused env user contractor") auto
  let ?body = "bindW (get_extended_request k) (\<lambda>(er, lu).
      bindW (parse_and_apply env user groups lu False m er) (\<lambda>(er, r). retW r))"
  have body: "snd (?body w) = w \<or> (\<exists>s. w_table w k = Some s \<and>
      row_descends (sr_request s) w (snd (?body w)))"
  proof (cases "w_table w k")
    case None
    then show ?thesis by (simp add: get_extended_request_def bindW_run)
  next
    case (Some s)
    let ?m = "bindW (parse_and_apply env user groups (sr_last_updated s) False m (sr_request s))
        (\<lambda>(er, r). retW r)"
    have "row.keeps (sr_request s) ?m"
      using row.ensures_imp_keeps [OF parse_and_apply_row]
      by (auto intro!: row.keeps_bind row.keeps_ret simp del: run_io)
    moreover have "?body w = ?m w" using Some by (simp add: get_extended_request_def bindW_run)
    ultimately show ?thesis using Some by (simp add: row.keeps_def)
  qed
  moreover have "w' = w \<or> w' = snd (?body w)"
    using assms
    by (auto simp: request_put_def bindW_run try_catch_def split: sum.splits prod.splits if_splits)
  ultimately show ?thesis by blast
qed

lemma request_get_row:
  assumes "request_get env user groups contractor k w = (out, w')"
  shows "w' = w \<or> (\<exists>s. w_table w k = Some s \<and> row_descends (sr_request s) w w')"
proof (cases "w_table w k")
  case None
  then have "fst (get_extended_request k w) = Inl (NoMatchingRequest ''Request with that ID not found'')"
      "snd (get_extended_request k w) = w"
    by (simp_all add: get_extended_request_def)
  with assms show ?thesis
    by (auto simp: request_get_def bindW_run split: sum.splits prod.splits if_splits)
next
  case (Some s)
  then have get: "get_extended_request k w = (Inr (sr_request s, sr_last_updated s), w)"
    by (simp add: get_extended_request_def)
  let ?m = "bindW (show_request env user groups (sr_request s) (sr_last_updated s))
      (\<lambda>d. retW (Answered d))"
  have "row.keeps (sr_request s) ?m"
    using row.ensures_imp_keeps [OF show_request_row]
    by (auto intro!: row.keeps_bind row.keeps_ret simp del: run_io)
  then have "row_descends (sr_request s) w (snd (?m w))" by (simp add: row.keeps_def)
  moreover have "w' = w \<or> w' = snd (?m w)"
    using assms get
    by (auto simp: request_get_def bindW_run split: sum.splits if_splits)
  ultimately show ?thesis using Some by blast
qed

lemma create_request_row:
  assumes "create_request env pl user groups rc w = (out, w')" and "fresh_post env pl rc w"
  shows "\<exists>er. er_id er = e_uuid env (w_uuids w) \<and> row_descends er w w' \<and>
    (\<forall>er' d. out = Inr (er', d) \<longrightarrow> descends er er')"
proof -
  from assms(2) obtain arn where rc: "rc_changes rc \<noteq> []"
      "ch_principal (hd (rc_changes rc)) = Aws_resource arn" by (auto simp: fresh_post_def)
  obtain g w1 where gen: "generate_request env (pl_honeybee pl) rc user w = (g, w1)"
    by (cases "generate_request env (pl_honeybee pl) rc user w")
  note new = generate_request_new [OF gen rc]
  show ?thesis
  proof (cases g)
    case (Inl e)
    with assms(1) gen new have "same_table w w'" "\<exists>e. out = Inl e"
      by (auto simp: create_request_def bindW_run)
    then show ?thesis
      by (auto intro!: exI [of _ "undefined\<lparr>er_id := e_uuid env (w_uuids w)\<rparr>"]
          simp: same_table_def row_descends_def)
  next
    case (Inr er)
    have first: "row_descends er w w1"
      using new by (simp add: same_table_def row_descends_def)
    let ?rest = "if rc_dry_run rc then retW (er, None)
     else bindW (approve_new env pl user groups rc er) (\<lambda>(er, admin, probe).
       bindW (write_policy_request_v2 env er) (\<lambda>_. retW (er, Some (admin, probe))))"
    have "row.ensures er (\<lambda>(er', d). descends er er') ?rest"
      by (auto intro!: row.ensures_ret row.ensures_bind [OF approve_new_descends] write_then_row
          simp del: run_io)
    moreover have "?rest w1 = (out, w')"
      using assms(1) gen Inr by (simp add: create_request_def bindW_run)
    ultimately have "row_descends er w1 w'" "\<forall>er' d. out = Inr (er', d) \<longrightarrow> descends er er'"
      using row.ensuresD row.ensures_result by fastforce+
    with first new Inr show ?thesis using row.step_trans by blast
  qed
qed

lemma post_error_http: "post_error env e = Inr a \<Longrightarrow> \<exists>code m. a = Http_error code m"
  by (cases "(env, e)" rule: post_error.cases)
    (auto simp: report_def bindE_eq_Inr split: if_splits)

text \<open>What the endpoint runs: at most creating the request and then what follows creation.\<close>

lemma request_post_parts:
  assumes "request_post env pl user groups contractor rc w = (out, w')"
    and "create_request env pl user groups rc w = (c, w1)"
  obtains "w' = w" | "w' = w1" | er a p where "c = Inr (er, Some (a, p))"
    "w' = snd (after_creation env pl user groups er a p w1)"
proof -
  have "w' = w \<or> w' = w1 \<or> (\<exists>er a p. c = Inr (er, Some (a, p)) \<and>
      w' = snd (after_creation env pl user groups er a p w1))"
    using assms
    by (auto simp: request_post_def bindW_run try_catch_def dest!: post_error_http
        split: sum.splits if_splits prod.splits answer.splits option.splits)
  with that show ?thesis by blast
qed

lemma request_post_row:
  assumes "request_post env pl user groups contractor rc w = (out, w')" and "fresh_post env pl rc w"
  shows "w' = w \<or> (\<exists>er. er_id er = e_uuid env (w_uuids w) \<and> row_descends er w w')"
proof -
  obtain c w1 where cr: "create_request env pl user groups rc w = (c, w1)"
    by (cases "create_request env pl user groups rc w")
  from create_request_row [OF cr assms(2)] obtain er0 where
    er0: "er_id er0 = e_uuid env (w_uuids w)" "row_descends er0 w w1"
      "\<forall>er' d. c = Inr (er', d) \<longrightarrow> descends er0 er'" by blast
  from assms(1) cr show ?thesis
  proof (cases rule: request_post_parts)
    case (3 er a p)
    then have "row.keeps er0 (after_creation env pl user groups er a p)"
      using er0(3) assms(2) by (intro after_creation_row) (auto simp: fresh_post_def)
    then have "row_descends er0 w1 w'" using 3 by (simp add: row.keeps_def)
    with er0 row.step_trans show ?thesis by blast
  qed (use er0 in auto)
qed

text \<open>One call keeps all requests.\<close>

lemma stored_row_kept:
  assumes "table_ok w" and "w' = w \<or> (\<exists>s. w_table w k = Some s \<and> row_descends (sr_request s) w w')"
  shows "requests_kept w w' \<and> table_ok w'"
  using assms(2)
proof
  assume "\<exists>s. w_table w k = Some s \<and> row_descends (sr_request s) w w'"
  with assms(1) show ?thesis using row_descends_kept by (metis option.inject table_ok_def)
qed (simp add: assms(1) kept.step_refl)

lemma new_row_kept:
  assumes "table_ok w" and "w_table w k = None"
    and "w' = w \<or> (\<exists>er. er_id er = k \<and> row_descends er w w')"
  shows "requests_kept w w' \<and> table_ok w'"
  using assms(3)
proof
  assume "\<exists>er. er_id er = k \<and> row_descends er w w'"
  then obtain er where er: "er_id er = k" "row_descends er w w'" by blast
  with assms(2) show ?thesis by (intro row_descends_kept [OF er(2) assms(1)]) simp
qed (simp add: assms(1) kept.step_refl)

lemma served_step:
  assumes "served w w'" and "table_ok w"
  shows "requests_kept w w' \<and> table_ok w'"
  using assms(1)
proof (rule servedE)
  show "requests_kept w w' \<and> table_ok w'"
    if "request_put env user groups contractor k m w = (out, w')" for env user groups contractor k m out
    by (rule stored_row_kept [OF assms(2) request_put_row [OF that]])
  show "requests_kept w w' \<and> table_ok w'"
    if "request_get env user groups contractor k w = (out, w')" for env user groups contractor k out
    by (rule stored_row_kept [OF assms(2) request_get_row [OF that]])
  show "requests_kept w w' \<and> table_ok w'"
    if "request_post env pl user groups contractor rc w = (out, w')" "fresh_post env pl rc w"
    for env pl user groups contractor rc out
    using that by (intro new_row_kept [OF assms(2) _ request_post_row]) (simp_all add: fresh_post_def)
qed

text \<open>What nobody without the permission can make the server do.\<close>

lemma unauthorized_calls:
  assumes "can_admin_policies (e_cfg env) user groups = Inr False"
  shows "cls.keeps (parse_and_apply env user groups lu False m er)"
proof (cases "\<exists>d cid. m = Apply_change_modification d cid")
  case True
  then have "command_of m = Apply_change" by auto
  then have "authorize_modification env er (command_of m) user groups lu False \<noteq> Inr ()"
    using assms authorized_apply [of env er user groups lu False] by auto
  then obtain e where "authorize_modification env er (command_of m) user groups lu False = Inl e"
    by (cases "authorize_modification env er (command_of m) user groups lu False") auto
  then show ?thesis by (simp add: parse_and_apply_def cls.keeps_fail)
next
  case False
  then show ?thesis
    unfolding parse_and_apply_def
    by (auto intro!: keeps_rules perform_calls maybe_approve_calls)
qed

lemma apply_submitted_calls:
  assumes "can_admin_policies (e_cfg env) user groups = Inr False"
  shows "cls.keeps (apply_submitted env user groups False is er r)"
proof (induction "is" arbitrary: er r)
  case Nil
  then show ?case unfolding apply_submitted.simps by (rule cls.keeps_ret)
next
  case (Cons i "is")
  then show ?case
    using unauthorized_calls [OF assms]
    by (auto intro!: cls.keeps_bind cls.keeps_fail split: option.split)
qed

lemma new_comment_frames [frames]:
  "tbl.keeps (new_comment env author t er)" "cls.keeps (new_comment env author t er)"
  unfolding new_comment_def by (auto intro!: keeps_rules frames simp del: run_io)

lemma generate_request_calls:
  assumes "\<And>rc user rid. cls.keeps (honeybee rc user rid)"
  shows "cls.keeps (generate_request env honeybee rc user)"
  unfolding generate_request_def
  by (auto intro!: keeps_rules frames assms split: list.split principal.split)

text \<open>
  The parts outside that matter here: no probe approves, and building template requests and
  announcing requests does not write to AWS.
\<close>

definition quiet_plugins :: "plugins \<Rightarrow> bool" where
  "quiet_plugins pl \<longleftrightarrow>
     (\<forall>er user groups b ps. pl_probe pl er user groups = Inr (b, ps) \<longrightarrow> \<not> b) \<and>
     (\<forall>rc user rid. cls.keeps (pl_honeybee pl rc user rid)) \<and>
     (\<forall>er a p. cls.keeps (pl_announce pl er a p))"

lemma probe_approve_quiet:
  assumes "quiet_plugins pl"
  shows "cls.ensures (\<lambda>(p, er'). \<not> p) (probe_approve env pl user groups er)"
proof -
  have probe: "cls.ensures (\<lambda>(b, ps). \<not> b) (liftW (pl_probe pl er user groups))"
    using assms unfolding quiet_plugins_def by (intro cls.ensures_lift) (metis case_prodI2)
  show ?thesis
    unfolding probe_approve_def
    by (intro cls.ensures_bind_keeps [OF cls.keeps_lift])
      (auto intro!: cls.ensures_ret cls.ensures_bind [OF probe] simp del: run_io)
qed

lemma approve_new_quiet:
  assumes "quiet_plugins pl"
  shows "cls.ensures (\<lambda>(er', a, p). \<not> p) (approve_new env pl user groups rc er)"
proof (cases "er_principal er")
  case (Aws_resource arn)
  have "cls.keeps (self_approve env user groups er)"
    unfolding self_approve_def by (intro keeps_rules frames)
  with Aws_resource show ?thesis
    unfolding approve_new_def
    by (auto intro!: cls.ensures_bind_keeps cls.ensures_bind [OF probe_approve_quiet [OF assms]]
        cls.ensures_ret simp del: run_io)
next
  case (Honeybee_template r i u)
  then show ?thesis by (simp add: approve_new_def cls.ensures_ret del: run_io)
qed

lemma create_request_quiet:
  assumes "quiet_plugins pl"
  shows "cls.ensures (\<lambda>(er, d). \<forall>a p. d = Some (a, p) \<longrightarrow> \<not> p) (create_request env pl user groups rc)"
  unfolding create_request_def
proof (rule cls.ensures_bind_keeps [OF generate_request_calls])
  show "cls.keeps (pl_honeybee pl rc user rid)" for rc user rid
    using assms by (simp add: quiet_plugins_def)
qed (auto intro!: cls.ensures_bind [OF approve_new_quiet [OF assms]] cls.ensures_ret
    cls.ensures_bind_keeps [OF write_policy_request_frames(1)] simp del: run_io)

lemma after_creation_quiet:
  assumes "can_admin_policies (e_cfg env) user groups = Inr False" and "quiet_plugins pl"
  shows "cls.keeps (after_creation env pl user groups er admin False)"
proof -
  have "cls.keeps (finish_approved env user groups False er)"
    unfolding finish_approved_def
    by (auto intro!: keeps_rules apply_submitted_calls [OF assms(1)] frames simp del: run_io)
  with assms(2) show ?thesis
    unfolding after_creation_def quiet_plugins_def
    by (auto intro!: keeps_rules simp del: run_io)
qed

lemma request_post_calls:
  assumes "can_admin_policies (e_cfg env) user groups = Inr False" and "quiet_plugins pl"
    and "request_post env pl user groups contractor rc w = (out, w')"
  shows "w_calls w' = w_calls w"
proof -
  obtain c w1 where cr: "create_request env pl user groups rc w = (c, w1)"
    by (cases "create_request env pl user groups rc w")
  note quiet = create_request_quiet [OF assms(2), of env user groups rc]
  have w1: "w_calls w1 = w_calls w" using cls.ensuresD [OF quiet cr] by (simp add: same_calls_def)
  from assms(3) cr show ?thesis
  proof (cases rule: request_post_parts)
    case (3 er a p)
    with cls.ensures_result [OF quiet] cr have "\<not> p" by fastforce
    with 3 after_creation_quiet [OF assms(1,2), of er a] w1 show ?thesis
      by (simp add: cls.keeps_def same_calls_def)
  qed (use w1 in simp_all)
qed

lemma request_put_calls:
  assumes "can_admin_policies (e_cfg env) user groups = Inr False"
  shows "cls.keeps (request_put env user groups contractor k m)"
  unfolding request_put_def
  by (auto intro!: keeps_rules cls.keeps_try_catch unauthorized_calls [OF assms] frames
      simp del: run_io)

lemma request_get_calls: "cls.keeps (request_get env user groups contractor k)"
proof -
  have save: "cls.keeps (save_if env c er lu)" for c er lu
    unfolding save_if_def by (auto intro!: keeps_rules frames simp del: run_io)
  have template: "cls.keeps (role_template env er)" for er
    unfolding role_template_def by (auto intro!: keeps_rules simp del: run_io)
  have show_request: "cls.keeps (show_request env user groups er lu)" for er lu
    unfolding show_request_def refresh_request_def
    by (auto intro!: keeps_rules save template simp del: run_io)
  have body: "snd (request_get env user groups contractor k w) = w \<or>
      (\<exists>er lu. snd (request_get env user groups contractor k w) =
        snd (bindW (show_request env user groups er lu) (\<lambda>d. retW (Answered d)) w))" for w
    by (auto simp: request_get_def bindW_run get_extended_request_def
        split: sum.splits option.splits py_error.splits prod.splits)
  have "cls.keeps (bindW (show_request env user groups er lu) (\<lambda>d. retW (Answered d)))" for er lu
    by (intro cls.keeps_bind cls.keeps_ret show_request)
  with body show ?thesis
    unfolding cls.keeps_def same_calls_def by metis
qed

section \<open>Properties\<close>

text \<open>C1: requests are never lost: however many calls the endpoints serve, for whatever users, with
  whatever failures of AWS and of the table, a stored request is still stored under its id,
  with the same requester and principal, with all its comments, and with every change that was
  applied unchanged at its place.\<close>

theorem requests_never_lost:
  assumes "served\<^sup>*\<^sup>* w w'" and "table_ok w" and "w_table w k = Some s"
  shows "\<exists>s'. w_table w' k = Some s' \<and> descends (sr_request s) (sr_request s')"
proof -
  from assms(1) have "requests_kept w w' \<and> table_ok w'"
  proof (induction rule: rtranclp_induct)
    case base
    with assms(2) show ?case by (simp add: kept.step_refl)
  next
    case (step w1 w2)
    with served_step [of w1 w2] show ?case using kept.step_trans by blast
  qed
  with assms(3) show ?thesis by (auto simp: requests_kept_def)
qed

theorem requests_never_lost_witness:
  "\<exists>w'. served\<^sup>*\<^sup>* (example_world history_example) w' \<and> length (w_calls w') = 2 \<and>
     (\<exists>s'. w_table w' ''r1'' = Some s' \<and> descends history_example (sr_request s'))"
proof -
  let ?run = "request_put example_env ''root'' [] False ''r1''
      (Apply_change_modification None ''c2'') (example_world history_example)"
  have "length (w_calls (snd ?run)) = 2" by code_simp
  moreover have "served (example_world history_example) (snd ?run)"
    by (rule served.Put [of _ _ _ _ _ _ _ "fst ?run"]) simp
  then have star: "served\<^sup>*\<^sup>* (example_world history_example) (snd ?run)" by blast
  have row: "w_table (example_world history_example) ''r1'' =
      Some \<lparr>sr_request = history_example, sr_last_updated = 900\<rparr>"
    by (simp add: history_example_def)
  have "table_ok (example_world history_example)" by (simp add: table_ok_def)
  from requests_never_lost [OF star this row] have "\<exists>s'. w_table (snd ?run) ''r1'' = Some s' \<and>
      descends history_example (sr_request s')" by simp
  ultimately show ?thesis using star by blast
qed

definition quiet_example :: plugins where
  "quiet_example = \<lparr>pl_honeybee = no_templates, pl_probe = (\<lambda>er user groups. Inr (False, [])),
     pl_announce = (\<lambda>er a p. retW ())\<rparr>"

lemma quiet_example_quiet: "quiet_plugins quiet_example"
  by (simp add: quiet_plugins_def quiet_example_def no_templates_def cls.keeps_ret cls.keeps_fail
      del: run_io)

lemma dev_not_admin: "can_admin_policies example_cfg ''dev'' [] = Inr False"
  by (simp add: can_admin_policies_def can_admin_all_def in_configured_def config_lists_def
      config_get_def is_in_group_def example_cfg_def)



text \<open>C9: the page shows what the server allows: the three permissions sent with a request's details
  agree with the check that guards the commands, for the request and time shown. A button that
  is offered works on an open request, one that is not offered is refused.\<close>

theorem page_agrees_with_server:
  assumes "show_request env user groups er lu w = (Inr d, w')"
  defines "allowed \<equiv> \<lambda>cmd. authorize_modification env (rd_request d) cmd user groups
      (rd_last_updated d) False = Inr ()"
    and "closed \<equiv> er_request_status (rd_request d) = Cancelled_request \<or>
      er_request_status (rd_request d) = Rejected"
  shows "(\<forall>cmd \<in> {Apply_change, Approve_request, Reject_request}.
       allowed cmd \<longleftrightarrow> rd_can_approve_reject d \<and> \<not> closed) \<and>
    (\<forall>cmd \<in> {Update_change, Cancel_request}. allowed cmd \<longleftrightarrow> rd_can_update_cancel d \<and> \<not> closed) \<and>
    (allowed Move_back_to_pending \<longleftrightarrow> rd_can_move_back_to_pending d)"
proof -
  from assms(1) have "can_admin_policies (e_cfg env) user groups = Inr (rd_can_approve_reject d)"
      "can_update_cancel_requests_v2 env (er_requester_email (rd_request d)) user groups
        = Inr (rd_can_update_cancel d)"
      "can_move_back_to_pending_v2 env (rd_request d) (rd_last_updated d) user groups
        = Inr (rd_can_move_back_to_pending d)"
    by (auto simp: show_request_def bindW_eq_Inr split: prod.splits)
  then show ?thesis by (auto simp: allowed_def closed_def authorize_modification_def)
qed

definition page_env :: env where
  "page_env = example_env\<lparr>e_fetch_iam_role := (\<lambda>log a r. Inr (JObj [(''templated'', JBool False)]))\<rparr>"

theorem page_agrees_with_server_witness:
  "\<exists>d w'. show_request page_env ''root'' [] history_example 900 (example_world history_example)
     = (Inr d, w') \<and> rd_can_approve_reject d \<and>
     authorize_modification page_env (rd_request d) Approve_request ''root'' []
       (rd_last_updated d) False = Inr ()"
proof -
  let ?run = "show_request page_env ''root'' [] history_example 900 (example_world history_example)"
  have "(case ?run of (Inr d, w') \<Rightarrow> rd_can_approve_reject d \<and>
      er_request_status (rd_request d) = Pending | _ \<Rightarrow> False)" by code_simp
  then obtain d w' where run: "?run = (Inr d, w')" and d: "rd_can_approve_reject d"
      "er_request_status (rd_request d) = Pending" by (auto split: prod.splits sum.splits)
  from page_agrees_with_server [OF run] run d show ?thesis by auto
qed

text \<open>C27: anyone can approve their own request: asking for automatic approval by an administrator
  stores the request as approved, reviewed by its requester, for a user who may not administer
  policies, because the permission is wrapped in a tuple before it is tested.\<close>

theorem auto_approve_without_admin:
  assumes "create_request env pl user groups rc w = (Inr (er, d), w')"
    and "rc_admin_auto_approve rc" and "\<not> rc_dry_run rc" and "er_principal er = Aws_resource arn"
    and "can_admin_policies (e_cfg env) user groups = Inr False"
  shows "er_request_status er = Approved \<and> er_reviewer er = Some user \<and>
    w_table w' (er_id er) = Some \<lparr>sr_request = er, sr_last_updated = e_now env\<rparr>"
proof -
  from assms(1,3) obtain g w1 a p w2 s where
    gen: "generate_request env (pl_honeybee pl) rc user w = (Inr g, w1)"
    and app: "approve_new env pl user groups rc g w1 = (Inr (er, a, p), w2)"
    and wr: "write_policy_request_v2 env er w2 = (Inr s, w')"
    by (auto simp: create_request_def bindW_eq_Inr)
  have "er_principal er = er_principal g"
    using row.ensures_result [OF approve_new_descends app] by (simp add: descends_def)
  with app assms(2,4) have "self_approve env user groups g w1 = (Inr er, w2)"
    by (auto simp: approve_new_def bindW_eq_Inr)
  then have "er_request_status er = Approved \<and> er_reviewer er = Some user"
    by (auto simp: self_approve_def new_comment_def bindW_eq_Inr)
  with wr show ?thesis
    by (auto simp: write_policy_request_v2_def Let_def split: option.splits)
qed

theorem auto_approve_without_admin_witness:
  "\<exists>er d w'. create_request example_env quiet_example ''dev'' []
     (cross_creation\<lparr>rc_admin_auto_approve := True\<rparr>) (example_world history_example)
       = (Inr (er, d), w') \<and>
     er_request_status er = Approved \<and> can_admin_policies example_cfg ''dev'' [] = Inr False"
proof -
  let ?run = "create_request example_env quiet_example ''dev'' []
     (cross_creation\<lparr>rc_admin_auto_approve := True\<rparr>) (example_world history_example)"
  have "(case ?run of (Inr (er, d), w') \<Rightarrow> er_principal er = Aws_resource app_arn | _ \<Rightarrow> False)"
    by code_simp
  then obtain er d w' where run: "?run = (Inr (er, d), w')"
    and p: "er_principal er = Aws_resource app_arn" by (auto split: prod.splits sum.splits)
  have "can_admin_policies (e_cfg example_env) ''dev'' [] = Inr False" by (simp add: dev_not_admin)
  from auto_approve_without_admin [OF run _ _ p this] run show ?thesis
    by (simp add: cross_creation_def dev_not_admin)
qed

text \<open>C30: the answer to a created and approved request forgets errors: as soon as one more of the
  submitted changes is applied, what the answer said of the earlier ones is overwritten, so
  that a failed change followed by a successful one is reported without an error.\<close>

theorem earlier_errors_forgotten:
  assumes "\<exists>i \<in> set is. \<not> ch_autogenerated (er_changes er ! i)"
  shows "apply_submitted env user groups probe is er r =
    apply_submitted env user groups probe is er empty_response"
  using assms by (induction "is") auto

theorem earlier_errors_forgotten_witness:
  "\<exists>er w'. apply_submitted example_env ''root'' [] False [1] history_example
     (add_error ''first change failed'' empty_response) (example_world history_example)
       = (Inr er, w') \<and> rs_errors (snd er) = 0"
proof -
  let ?r = "add_error ''first change failed'' empty_response"
  have "\<exists>i \<in> set [1]. \<not> ch_autogenerated (er_changes history_example ! i)"
    by (simp add: history_example_def inline_change_def)
  note same = earlier_errors_forgotten [OF this, of example_env "''root''" "[]" False ?r]
  have "(case apply_submitted example_env ''root'' [] False [1] history_example
      empty_response (example_world history_example) of
      (Inr er, w') \<Rightarrow> rs_errors (snd er) = 0 | _ \<Rightarrow> False)" by code_simp
  with same show ?thesis by (auto split: prod.splits sum.splits)
qed

text \<open>C31: the page of a template request cannot be shown: its principal has no ARN, and refreshing
  the resource policies asks for one, so that the details are never answered.\<close>

theorem template_details_unavailable:
  assumes "w_table w k = Some s" and "er_principal (sr_request s) = Honeybee_template rep i u"
  shows "fst (request_get env user groups contractor k w) \<noteq> Inr (Answered d)"
proof -
  have "\<not> (\<exists>er b e. populate_old_policies env (w_calls w) (sr_request s) None = Inr er \<and>
      populate_cross_account_resource_policies env (w_calls w) er = Inr (b, e))"
  proof
    assume "\<exists>er b e. populate_old_policies env (w_calls w) (sr_request s) None = Inr er \<and>
      populate_cross_account_resource_policies env (w_calls w) er = Inr (b, e)"
    then obtain er b e where er: "populate_old_policies env (w_calls w) (sr_request s) None = Inr er"
      and cross: "populate_cross_account_resource_policies env (w_calls w) er = Inr (b, e)" by blast
    have "er_principal er = Honeybee_template rep i u"
      using request_refreshed_fields [OF populate_old_policies_refreshed [OF er]] assms(2) by simp
    with cross show False by (simp add: populate_cross_account_resource_policies_def)
  qed
  then have "\<not> (\<exists>a. fst (refresh_request env (sr_request s) w) = Inr a)"
    by (auto simp: refresh_request_def bindE_eq_Inr)
  then obtain e where "fst (refresh_request env (sr_request s) w) = Inl e"
    by (cases "fst (refresh_request env (sr_request s) w)") auto
  then have "fst (show_request env user groups (sr_request s) lu w) = Inl e" for lu
    by (simp add: show_request_def bindW_run)
  then show ?thesis
    using assms(1)
    by (auto simp: request_get_def bindW_run get_extended_request_def split: sum.splits)
qed

definition template_request :: extended_request where
  "template_request = (example_request [])
     \<lparr>er_principal := Honeybee_template ''repo'' ''role.yaml'' ''https://git''\<rparr>"

theorem template_details_unavailable_witness:
  "\<forall>d. fst (request_get example_env ''root'' [] False ''r1'' (example_world template_request))
     \<noteq> Inr (Answered d)"
  by (rule allI, rule template_details_unavailable [of _ _ "\<lparr>sr_request = template_request, sr_last_updated = 900\<rparr>"
        "''repo''" "''role.yaml''" "''https://git''"])
    (simp_all add: template_request_def)

text \<open>C29: who comments becomes the reviewer: a comment on a request whose changes call for approval
  or cancellation sets its status again and names the commenter, who needs no permission for
  it, as the reviewer; for the same reason reopening a request all of whose changes are
  cancelled has no effect.\<close>

theorem any_command_reviews:
  assumes "parse_and_apply env user groups lu probe m er w = (Inr (er', r'), w')"
    and "m = Comment_modification t \<or> m = Move_to_pending_modification"
    and "derived_status (er_changes er) = Some st"
  shows "er_request_status er' = st \<and> er_reviewer er' = Some user"
proof -
  from assms(1) obtain er1 r1 w1 where
    perf: "perform env user m er empty_response w = (Inr (er1, r1), w1)"
    and maybe: "maybe_approve_reject_request env user er1 r1 w1 = (Inr (er', r'), w')"
    by (rule parse_and_apply_runE)
  have "er_changes er1 = er_changes er"
    using perf assms(2)
    by (auto simp: add_comment_def move_back_to_pending_def bindW_eq_Inr Let_def)
  with maybe assms(3) show ?thesis
    by (auto simp: maybe_approve_reject_request_def bindW_eq_Inr Let_def)
qed

definition approved_example :: extended_request where
  "approved_example = (example_request [inline_change\<lparr>ch_status := Applied\<rparr>])
     \<lparr>er_request_status := Approved, er_reviewer := Some ''root''\<rparr>"

theorem any_command_reviews_witness:
  "\<exists>er' r' w'. parse_and_apply example_env ''stranger'' [] 0 False (Comment_modification ''nice'')
     approved_example (example_world approved_example) = (Inr (er', r'), w') \<and>
     er_reviewer approved_example = Some ''root'' \<and> er_reviewer er' = Some ''stranger''"
proof -
  let ?run = "parse_and_apply example_env ''stranger'' [] 0 False (Comment_modification ''nice'')
     approved_example (example_world approved_example)"
  have "(case ?run of (Inr _, w') \<Rightarrow> True | _ \<Rightarrow> False)" by code_simp
  then obtain er' r' w' where run: "?run = (Inr (er', r'), w')"
    by (auto split: prod.splits sum.splits)
  have "derived_status (er_changes approved_example) = Some Approved" by code_simp
  from any_command_reviews [OF run _ this] run show ?thesis by (simp add: approved_example_def)
qed

end
