(* ===== verification/Spec2Isabelle.thy ===== *)
theory Spec2Isabelle
  imports Handlers
begin

text \<open>
  ConsoleMe: policy requests.

  ConsoleMe is a web service with which users ask for changes of AWS permissions and
  administrators decide on them. A policy request is a record with a principal, a list of changes
  (inline policies, attached policies, permissions boundaries, trust policies, tags, resource
  policies, managed policies), a status and comments. It is created through
  \<open>RequestHandler.post\<close>, stored in a DynamoDB table, shown by \<open>RequestDetailHandler.get\<close> and driven
  by commands through \<open>RequestDetailHandler.put\<close>: comment, update, apply or cancel a change,
  approve, reject, cancel or reopen the request. Applying a change writes to AWS. This library
  models that core: consoleme/lib/v2/requests.py as a whole, the endpoints of
  consoleme/handlers/v2/requests.py, and what they use of consoleme/lib/auth.py, aws.py,
  policies.py, dynamo.py, change_request.py, generic.py, models.py and config/config.py.

  \<^bold>\<open>The way the code is modelled.\<close> A Python function that may raise returns \<open>'a res\<close>, a sum of the
  error (\<open>py_error\<close>, a constructor for each exception class the code tells apart) and the value. A
  function with effects is a \<open>('w, 'a) io\<close>: it takes the world and returns the outcome and the
  world, also when it raises, so that the effects before an exception stay. Objects that the code
  mutates are passed and returned. Python's dictionaries and lists that come from JSON are values
  of \<open>json\<close>, with dictionaries as association lists, because their order and their textual form
  matter; integers are \<open>int\<close>, since Python's do not wrap. Log lines and metrics are left out.
  \<open>world\<close> holds the log of AWS calls with their success, the request table, how many writes to it
  were tried, the mails sent, the roles refreshed and how many identifiers were drawn. \<open>env\<close> holds
  what lies outside and only answers: the configuration, the clock, ARN parsing (the package
  policyuniverse and AWS metadata), the answers of AWS and of the caches, which may depend on the
  calls made so far, and whether a write to the table fails. Nothing is assumed about \<open>env\<close>, so
  every theorem holds for all failures of AWS and of the table.

  \<^bold>\<open>The theories.\<close>
  \<^item> \<open>Prelude\<close>: results, stateful computations, the locale \<open>step_relation\<close> (a reflexive and
    transitive relation on worlds that every computation built from steps respecting it
    respects), Python strings.
  \<^item> \<open>Json\<close>: JSON values, truth, iteration, membership and lookup as in Python.
  \<^item> \<open>Config\<close> (config/config.py): merging of configurations and the dotted lookup.
  \<^item> \<open>Auth\<close> (lib/auth.py, lib/generic.py): group membership and the permission predicates.
  \<^item> \<open>Models\<close> (models.py): enums, changes, requests, commands and responses. The classes of
    changes are one record \<open>change\<close> with the fields of all of them and \<open>change_type\<close> as the tag.
  \<^item> \<open>World\<close> (lib/dynamo.py): environment, world, AWS calls, the request table as an interface
    (locale \<open>request_store\<close>) and the relations that most steps keep.
  \<^item> \<open>Aws\<close> (lib/aws.py): accounts, session names, managed policy versions, resource policies.
  \<^item> \<open>Examples\<close>: a small environment and world on which witnesses run.
  \<^item> \<open>Populate\<close> (lib/v2/requests.py 1280-1648): refreshing the policies stored in a request.
  \<^item> \<open>Apply\<close> (842-1271, 1651-2307): the appliers of changes, with the locales \<open>change_applier\<close> and
    \<open>applier\<close>, the contract that the commands rely on, interpreted on each of them.
  \<^item> \<open>Lifecycle\<close> (2310-2796): authorization, the eight commands, the derived status.
  \<^item> \<open>Validate\<close> (600-839): the checks of each kind of change.
  \<^item> \<open>Creation\<close> (93-597, 2799-2871): new requests and the generated resource policies.
  \<^item> \<open>Handlers\<close> (handlers/v2/requests.py): the endpoints, and the system as the inductive relation
    \<open>served\<close> of worlds that follow each other when calls are served.

  \<^bold>\<open>What is shown.\<close> About the system: stored requests are never lost and their applied changes
  and comments are never altered; AWS is reached only by applying an open change with the
  permission or an approving probe; without the permission nothing reaches AWS; the page offers
  exactly what the server permits. About commands: errors are counted, success is durable, the
  status follows the changes, refusals leave no trace. About creation: a new request is well
  formed and nothing is written before it is stored. About the appliers: every failure is
  reported, no error means no failed call, unsupported resources are not written, tags of
  others are kept. About the helpers: the default version of a policy is never deleted,
  generated policies extend the existing one, names are sanitized, permissions are monotone,
  the original configuration wins a merge. The last properties show where the code does
  something else than it means to: a permission test on a tuple, an unprotected command, an
  overwritten reviewer and response, a character test on a dictionary, dropped changes, a length
  limit that lengthens, a string iterated as a list.

  \<^bold>\<open>Bounds.\<close> No fuel is used: every loop of the modelled code runs over a list and is a
  structural recursion, except the session name loop, whose termination measure is the length
  of the name, and the printing of numbers.

  \<^bold>\<open>Not modelled.\<close> Building requests for templates (Git operations), the auto-approval plugin and
  the Slack message, which are parameters (\<open>plugins\<close>); the texts of mails; concurrency between
  requests: calls are served one after the other, as the code takes no lock this is what holds
  when calls for the same request do not overlap; inside the endpoint that shows a request the
  three refreshes run in order, which is what they amount to since they write disjoint changes.
  Other parts of the repository (credential mapping, group requests, policy minimization, change
  generators, the role updater, caches and background jobs) are not part of this library yet.
\<close>

end
